(* ===== verification/Prelude.thy ===== *)
theory Prelude
  imports Main "HOL-Library.AList" "HOL-Library.Multiset"
begin

text \<open>
  What every component of the development shares: the collections the component proofs
  simplify with, the JavaScript containers the source uses (a \<open>Map\<close> or an object used as
  a record keeps its insertion order, so it is an association list; a \<open>Set\<close> turned into an
  array keeps its first-occurrence order), \<open>Array.prototype.sort\<close> with a comparator,
  \<open>slice(-n)\<close>, and the untyped values that arrive from storage, the network or a native
  bridge.
\<close>

named_theorems store_simps \<open>rewrite rules of the state-carrying components\<close>
named_theorems text_simps \<open>rewrite rules of the text scanners\<close>

section \<open>Association lists as JavaScript maps\<close>

type_synonym ('k, 'v) jsmap = "('k \<times> 'v) list"

text \<open>\<open>m.set(k, v)\<close>: an existing key keeps its place, a new one goes to the end.\<close>

abbreviation map_set :: "'k \<Rightarrow> 'v \<Rightarrow> ('k, 'v) jsmap \<Rightarrow> ('k, 'v) jsmap" where
  "map_set \<equiv> AList.update"

abbreviation map_delete :: "'k \<Rightarrow> ('k, 'v) jsmap \<Rightarrow> ('k, 'v) jsmap" where
  "map_delete \<equiv> AList.delete"

text \<open>\<open>m[k] || []\<close>, for a record of arrays.\<close>

definition map_list :: "('k, 'v list) jsmap \<Rightarrow> 'k \<Rightarrow> 'v list" where
  "map_list m k = (case map_of m k of None \<Rightarrow> [] | Some xs \<Rightarrow> xs)"

definition keys_distinct :: "('k, 'v) jsmap \<Rightarrow> bool" where
  "keys_distinct m \<longleftrightarrow> distinct (map fst m)"

lemma map_of_set [simp]: "map_of (map_set k v m) = (map_of m)(k \<mapsto> v)"
  by (rule update_conv')

lemma map_of_delete [simp]: "map_of (map_delete k m) = (map_of m)(k := None)"
  by (rule delete_conv')

lemma map_list_set [simp]: "map_list (map_set k v m) j = (if j = k then v else map_list m j)"
  by (simp add: map_list_def)

lemma map_list_delete [simp]: "map_list (map_delete k m) j = (if j = k then [] else map_list m j)"
  by (simp add: map_list_def)

lemma map_list_Nil [simp]: "map_list [] k = []"
  by (simp add: map_list_def)

lemma keys_distinct_Nil [simp]: "keys_distinct []"
  by (simp add: keys_distinct_def)

lemma keys_distinct_set [simp]: "keys_distinct m \<Longrightarrow> keys_distinct (map_set k v m)"
  by (simp add: keys_distinct_def distinct_update)

lemma keys_distinct_delete [simp]: "keys_distinct m \<Longrightarrow> keys_distinct (map_delete k m)"
  by (simp add: keys_distinct_def distinct_delete)

lemma keys_distinct_filter [simp]: "keys_distinct m \<Longrightarrow> keys_distinct (filter P m)"
  by (auto simp: keys_distinct_def distinct_map inj_on_def)

lemma map_of_filter_pair:
  "keys_distinct m \<Longrightarrow> map_of (filter P m) k = (case map_of m k of None \<Rightarrow> None
     | Some v \<Rightarrow> if P (k, v) then Some v else None)"
proof (induction m)
  case Nil
  then show ?case by simp
next
  case (Cons p m)
  obtain a b where p: "p = (a, b)" by force
  with Cons.prems have fresh: "map_of m a = None" and m: "keys_distinct m"
    by (auto simp: keys_distinct_def map_of_eq_None_iff)
  show ?case
    using Cons.IH [OF m] fresh p by (auto split: option.splits)
qed

lemma set_map_set: "set (map_set k v m) \<subseteq> insert (k, v) (set m)"
  by (induction m) auto

lemma set_map_delete: "set (map_delete k m) \<subseteq> set m"
  by (auto simp: AList.delete_eq)

text \<open>Deleting a list of keys one after the other, as \<open>ids.forEach((id) => delete m[id])\<close>.\<close>

definition map_delete_all :: "'k list \<Rightarrow> ('k, 'v) jsmap \<Rightarrow> ('k, 'v) jsmap" where
  "map_delete_all ks m = fold map_delete ks m"

lemma map_of_delete_all [simp]:
  "map_of (map_delete_all ks m) k = (if k \<in> set ks then None else map_of m k)"
  unfolding map_delete_all_def by (induction ks arbitrary: m) auto

lemma keys_distinct_delete_all [simp]: "keys_distinct m \<Longrightarrow> keys_distinct (map_delete_all ks m)"
  unfolding map_delete_all_def by (induction ks arbitrary: m) auto

lemma set_map_delete_all: "set (map_delete_all ks m) \<subseteq> set m"
  unfolding map_delete_all_def
  by (induction ks arbitrary: m) (use set_map_delete in \<open>fastforce+\<close>)

section \<open>Arrays\<close>

text \<open>\<open>[...new Set(xs)]\<close>: every value once, where it first occurs.\<close>

definition js_uniq :: "'a list \<Rightarrow> 'a list" where
  "js_uniq xs = rev (remdups (rev xs))"

lemma set_js_uniq [simp]: "set (js_uniq xs) = set xs"
  by (simp add: js_uniq_def)

lemma distinct_js_uniq [simp]: "distinct (js_uniq xs)"
  by (simp add: js_uniq_def)

lemma js_uniq_distinct [simp]: "distinct xs \<Longrightarrow> js_uniq xs = xs"
  by (simp add: js_uniq_def distinct_remdups_id)

text \<open>\<open>xs.slice(-n)\<close> for a positive constant \<open>n\<close>: the last \<open>n\<close> elements, all if there are fewer.\<close>

definition slice_last :: "nat \<Rightarrow> 'a list \<Rightarrow> 'a list" where
  "slice_last n xs = drop (length xs - n) xs"

lemma length_slice_last [simp]: "length (slice_last n xs) = min n (length xs)"
  by (simp add: slice_last_def)

lemma set_slice_last: "set (slice_last n xs) \<subseteq> set xs"
  by (simp add: slice_last_def set_drop_subset)

lemma slice_last_twice [simp]: "slice_last n (slice_last n xs) = slice_last n xs"
  by (simp add: slice_last_def)

lemma slice_last_short [simp]: "length xs \<le> n \<Longrightarrow> slice_last n xs = xs"
  by (simp add: slice_last_def)

lemma slice_last_append: "length ys \<le> n \<Longrightarrow> slice_last n (xs @ ys) = slice_last (n - length ys) xs @ ys"
  by (simp add: slice_last_def)

lemma slice_last_split: "take (length xs - n) xs @ slice_last n xs = xs"
  by (simp add: slice_last_def)

text \<open>\<open>xs.findIndex(P)\<close>, with \<open>None\<close> for the \<open>-1\<close> of a miss.\<close>

fun find_index :: "('a \<Rightarrow> bool) \<Rightarrow> 'a list \<Rightarrow> nat option" where
  "find_index P [] = None"
| "find_index P (x # xs) = (if P x then Some 0 else map_option Suc (find_index P xs))"

lemma find_index_Some:
  "find_index P xs = Some i \<Longrightarrow> i < length xs \<and> P (xs ! i) \<and> (\<forall>j < i. \<not> P (xs ! j))"
proof (induction xs arbitrary: i)
  case Nil
  then show ?case by simp
next
  case (Cons x xs)
  then show ?case
    by (auto split: if_splits simp: less_Suc_eq_0_disj)
qed

lemma find_index_length: "find_index P xs = Some i \<Longrightarrow> i < length xs"
  using find_index_Some by blast

lemma find_index_None: "find_index P xs = None \<longleftrightarrow> (\<forall>x \<in> set xs. \<not> P x)"
  by (induction xs) auto

section \<open>Sorting with a comparator\<close>

text \<open>
  \<open>xs.sort(c)\<close>. The language asks for a stable sort when \<open>c\<close> is a consistent comparator;
  a \<open>NaN\<close> result counts as 0. Insertion after every element that does not compare greater
  is that sort, and for an inconsistent comparator (whose order the language leaves to
  the implementation) it is one of the permitted results. What is proved of \<open>js_sort\<close>
  for every comparator is that it permutes.
\<close>

fun js_insort :: "('a \<Rightarrow> 'a \<Rightarrow> int) \<Rightarrow> 'a \<Rightarrow> 'a list \<Rightarrow> 'a list" where
  "js_insort c x [] = [x]"
| "js_insort c x (y # ys) = (if c y x \<le> 0 then y # js_insort c x ys else x # y # ys)"

definition js_sort :: "('a \<Rightarrow> 'a \<Rightarrow> int) \<Rightarrow> 'a list \<Rightarrow> 'a list" where
  "js_sort c xs = foldl (\<lambda>acc x. js_insort c x acc) [] xs"

definition consistent_cmp :: "('a \<Rightarrow> 'a \<Rightarrow> int) \<Rightarrow> bool" where
  "consistent_cmp c \<longleftrightarrow> (\<forall>x y. 0 < c x y \<longrightarrow> c y x \<le> 0) \<and>
     (\<forall>x y z. c x y \<le> 0 \<longrightarrow> c y z \<le> 0 \<longrightarrow> c x z \<le> 0)"

lemma set_js_insort [simp]: "set (js_insort c x xs) = insert x (set xs)"
  by (induction xs) auto

lemma length_js_insort [simp]: "length (js_insort c x xs) = Suc (length xs)"
  by (induction xs) auto

lemma distinct_js_insort [simp]: "distinct (map f (js_insort c x xs)) = distinct (map f (x # xs))"
  by (induction xs) auto

lemma js_sort_snoc: "js_sort c (xs @ [x]) = js_insort c x (js_sort c xs)"
  by (simp add: js_sort_def)

lemma js_sort_Nil [simp]: "js_sort c [] = []"
  by (simp add: js_sort_def)

lemma set_js_sort [simp]: "set (js_sort c xs) = set xs"
  by (induction xs rule: rev_induct) (auto simp: js_sort_snoc)

lemma length_js_sort [simp]: "length (js_sort c xs) = length xs"
  by (induction xs rule: rev_induct) (auto simp: js_sort_snoc)

lemma distinct_js_sort [simp]: "distinct (map f (js_sort c xs)) = distinct (map f xs)"
  by (induction xs rule: rev_induct) (auto simp: js_sort_snoc)

lemma distinct_js_sort_elems [simp]: "distinct (js_sort c xs) = distinct xs"
  using distinct_js_sort [where f = "\<lambda>x. x" and c = c and xs = xs] by simp

lemma mset_js_insort [simp]: "mset (js_insort c x xs) = add_mset x (mset xs)"
  by (induction xs) auto

lemma mset_js_sort [simp]: "mset (js_sort c xs) = mset xs"
  by (induction xs rule: rev_induct) (auto simp: js_sort_snoc)

lemma js_insort_cong:
  "(\<And>y. y \<in> set xs \<Longrightarrow> c y x = c' y x) \<Longrightarrow> js_insort c x xs = js_insort c' x xs"
  by (induction xs) auto

lemma js_sort_cong:
  "(\<And>x y. x \<in> set xs \<Longrightarrow> y \<in> set xs \<Longrightarrow> c x y = c' x y) \<Longrightarrow> js_sort c xs = js_sort c' xs"
proof (induction xs rule: rev_induct)
  case Nil
  then show ?case by simp
next
  case (snoc x xs)
  then have "js_sort c xs = js_sort c' xs" by simp
  moreover have "js_insort c x (js_sort c' xs) = js_insort c' x (js_sort c' xs)"
    by (rule js_insort_cong) (use snoc.prems in simp)
  ultimately show ?case by (simp add: js_sort_snoc)
qed

lemma js_insort_sorted:
  assumes c: "consistent_cmp c"
  shows "sorted_wrt (\<lambda>x y. c x y \<le> 0) xs \<Longrightarrow> sorted_wrt (\<lambda>x y. c x y \<le> 0) (js_insort c x xs)"
proof (induction xs)
  case Nil
  then show ?case by simp
next
  case (Cons y ys)
  show ?case
  proof (cases "c y x \<le> 0")
    case True
    with Cons show ?thesis by simp
  next
    case False
    with c have xy: "c x y \<le> 0" by (simp add: consistent_cmp_def)
    with c Cons.prems have "\<forall>z \<in> set ys. c x z \<le> 0"
      unfolding consistent_cmp_def by auto
    with xy False Cons.prems show ?thesis by simp
  qed
qed

lemma js_sort_sorted:
  "consistent_cmp c \<Longrightarrow> sorted_wrt (\<lambda>x y. c x y \<le> 0) (js_sort c xs)"
  by (induction xs rule: rev_induct) (simp_all add: js_sort_snoc js_insort_sorted)

section \<open>Untyped values\<close>

text \<open>
  A value of the static type \<open>unknown\<close>: what a storage read, a network answer or a native
  bridge hands over before it is validated. \<open>JNonInt\<close> stands for every number that is
  not an integer (a fraction, an infinity, \<open>NaN\<close>): the code tells them from integers and
  does not compute with them.
\<close>

datatype jsval =
    JUndef
  | JNull
  | JBool bool
  | JInt int
  | JNonInt
  | JStr string
  | JArr "jsval list"
  | JObj "(string, jsval) jsmap"

text \<open>\<open>(v as Record<string, unknown>)[k]\<close> for an object that is not null.\<close>

definition jget :: "jsval \<Rightarrow> string \<Rightarrow> jsval" where
  "jget v k = (case v of JObj fs \<Rightarrow> (case map_of fs k of None \<Rightarrow> JUndef | Some w \<Rightarrow> w) | _ \<Rightarrow> JUndef)"

definition is_object :: "jsval \<Rightarrow> bool" where
  "is_object v = (case v of JArr _ \<Rightarrow> True | JObj _ \<Rightarrow> True | _ \<Rightarrow> False)"

lemma jget_simps [simp]:
  "jget JUndef k = JUndef" "jget JNull k = JUndef" "jget (JBool b) k = JUndef"
  "jget (JInt i) k = JUndef" "jget JNonInt k = JUndef" "jget (JStr s) k = JUndef"
  "jget (JArr vs) k = JUndef"
  by (simp_all add: jget_def)

lemma is_object_simps [simp]:
  "\<not> is_object JUndef" "\<not> is_object JNull" "\<not> is_object (JBool b)" "\<not> is_object (JInt i)"
  "\<not> is_object JNonInt" "\<not> is_object (JStr s)" "is_object (JArr vs)" "is_object (JObj fs)"
  by (simp_all add: is_object_def)

text \<open>\<open>Number.MAX_SAFE_INTEGER\<close>.\<close>

definition max_safe :: int where
  "max_safe = 2 ^ 53 - 1"

section \<open>Small list facts\<close>

lemma filter_filter_absorb:
  "(\<And>x. P x \<Longrightarrow> Q x) \<Longrightarrow> filter P (filter Q xs) = filter P xs"
  by (induction xs) auto

end
