(* ===== verification/JsText.thy ===== *)
theory JsText
  imports Prelude
begin

text \<open>
  JavaScript strings and the string operations the source uses. A string is a list of
  characters. A character the source's scanners can tell apart is ASCII and is the
  \<open>char\<close> of its code; text outside ASCII is carried as its UTF-8 bytes, which no scanner
  treats specially. So white space is the ASCII white space of \<open>\s\<close>, and case mapping is
  that of the ASCII letters.
\<close>

section \<open>Character classes\<close>

abbreviation code :: "char \<Rightarrow> nat" where
  "code c \<equiv> of_char c"

text \<open>\<open>\d\<close>, \<open>[0-9a-f]\<close>, \<open>[A-Z]\<close>, \<open>[a-z]\<close>, \<open>[A-Za-z]\<close>, \<open>[A-Za-z0-9]\<close>, \<open>\w\<close>, \<open>\s\<close>.\<close>

definition is_digit :: "char \<Rightarrow> bool" where
  "is_digit c \<longleftrightarrow> 48 \<le> code c \<and> code c \<le> 57"

definition is_lower_hex :: "char \<Rightarrow> bool" where
  "is_lower_hex c \<longleftrightarrow> is_digit c \<or> 97 \<le> code c \<and> code c \<le> 102"

definition is_upper :: "char \<Rightarrow> bool" where
  "is_upper c \<longleftrightarrow> 65 \<le> code c \<and> code c \<le> 90"

definition is_lower :: "char \<Rightarrow> bool" where
  "is_lower c \<longleftrightarrow> 97 \<le> code c \<and> code c \<le> 122"

definition is_alpha :: "char \<Rightarrow> bool" where
  "is_alpha c \<longleftrightarrow> is_upper c \<or> is_lower c"

definition is_alnum :: "char \<Rightarrow> bool" where
  "is_alnum c \<longleftrightarrow> is_alpha c \<or> is_digit c"

definition is_word :: "char \<Rightarrow> bool" where
  "is_word c \<longleftrightarrow> is_alnum c \<or> code c = 95"

definition is_space :: "char \<Rightarrow> bool" where
  "is_space c \<longleftrightarrow> 9 \<le> code c \<and> code c \<le> 13 \<or> code c = 32"

definition newline :: char where
  "newline = CHR 0x0A"

lemma newline_is_space [simp]: "is_space newline"
  by (simp add: newline_def is_space_def)

section \<open>Case and trimming\<close>

definition lower_char :: "char \<Rightarrow> char" where
  "lower_char c = (if is_upper c then char_of (code c + 32) else c)"

definition upper_char :: "char \<Rightarrow> char" where
  "upper_char c = (if is_lower c then char_of (code c - 32) else c)"

definition to_lower :: "string \<Rightarrow> string" where
  "to_lower s = map lower_char s"

definition to_upper :: "string \<Rightarrow> string" where
  "to_upper s = map upper_char s"

definition trim_start :: "string \<Rightarrow> string" where
  "trim_start s = dropWhile is_space s"

definition trim_end :: "string \<Rightarrow> string" where
  "trim_end s = rev (dropWhile is_space (rev s))"

definition trim :: "string \<Rightarrow> string" where
  "trim s = trim_end (trim_start s)"

lemma length_to_lower [simp]: "length (to_lower s) = length s"
  by (simp add: to_lower_def)

lemma code_lower_char: "is_upper c \<Longrightarrow> code (lower_char c) = code c + 32"
  by (auto simp: lower_char_def is_upper_def of_char_of)

lemma not_upper_lower_char [simp]: "\<not> is_upper (lower_char c)"
proof (cases "is_upper c")
  case True
  then show ?thesis
    using code_lower_char [OF True] by (simp add: is_upper_def)
next
  case False
  then show ?thesis by (simp add: lower_char_def)
qed

lemma lower_char_idem [simp]: "lower_char (lower_char c) = lower_char c"
  using not_upper_lower_char [of c] by (simp add: lower_char_def [of "lower_char c"])

lemma to_lower_idem [simp]: "to_lower (to_lower s) = to_lower s"
  by (simp add: to_lower_def)

lemma trim_end_Nil [simp]: "trim_end [] = []"
  by (simp add: trim_end_def)

lemma trim_Nil [simp]: "trim [] = []"
  by (simp add: trim_def trim_start_def)

lemma trim_end_prefix: "\<exists>t. s = trim_end s @ t \<and> list_all is_space t"
proof -
  have split: "rev s = takeWhile is_space (rev s) @ dropWhile is_space (rev s)" by simp
  have "s = rev (takeWhile is_space (rev s) @ dropWhile is_space (rev s))"
    using split by simp
  then have "s = trim_end s @ rev (takeWhile is_space (rev s))"
    unfolding trim_end_def by (metis rev_append)
  moreover have "list_all is_space (rev (takeWhile is_space (rev s)))"
    by (auto simp: list_all_iff dest: set_takeWhileD)
  ultimately show ?thesis by blast
qed

lemma trim_middle: "\<exists>pre post. s = pre @ trim s @ post \<and> list_all is_space pre \<and> list_all is_space post"
proof -
  obtain t where t: "trim_start s = trim_end (trim_start s) @ t" "list_all is_space t"
    using trim_end_prefix by blast
  have "s = takeWhile is_space s @ trim_start s" by (simp add: trim_start_def)
  moreover have "list_all is_space (takeWhile is_space s)"
    by (auto simp: list_all_iff dest: set_takeWhileD)
  ultimately show ?thesis using t unfolding trim_def by metis
qed

lemma length_trim_le: "length (trim s) \<le> length s"
proof -
  obtain pre post where "s = pre @ trim s @ post" using trim_middle by blast
  then have "length s = length pre + length (trim s) + length post"
    by (metis add.assoc length_append)
  then show ?thesis by simp
qed

lemma trim_split: "\<exists>post. s = takeWhile is_space s @ trim s @ post \<and> list_all is_space post"
proof -
  obtain t where "trim_start s = trim_end (trim_start s) @ t" "list_all is_space t"
    using trim_end_prefix by blast
  moreover have "s = takeWhile is_space s @ trim_start s" by (simp add: trim_start_def)
  ultimately show ?thesis unfolding trim_def by metis
qed

lemma trim_end_idem [simp]: "trim_end (trim_end s) = trim_end s"
  by (simp add: trim_end_def dropWhile_idem)

lemma trim_start_trim: "trim_start (trim s) = trim s"
proof -
  obtain t where t: "trim_start s = trim s @ t"
    using trim_end_prefix [of "trim_start s"] unfolding trim_def by blast
  show ?thesis
  proof (cases "trim s")
    case (Cons c u)
    then have "hd (trim_start s) = c" "trim_start s \<noteq> []" using t by simp_all
    then have "\<not> is_space c"
      unfolding trim_start_def using hd_dropWhile by metis
    with Cons show ?thesis by (simp add: trim_start_def)
  qed (simp add: trim_start_def)
qed

lemma trim_idem [simp]: "trim (trim s) = trim s"
  using trim_start_trim [of s] by (simp add: trim_def [of "trim s"]) (simp add: trim_def)

section \<open>Searching and splitting\<close>

definition starts_with :: "string \<Rightarrow> string \<Rightarrow> bool" where
  "starts_with s p \<longleftrightarrow> take (length p) s = p"

text \<open>\<open>s.includes(p)\<close>.\<close>

fun contains_text :: "string \<Rightarrow> string \<Rightarrow> bool" where
  "contains_text [] p = (p = [])"
| "contains_text (c # s) p = (starts_with (c # s) p \<or> contains_text s p)"

definition ends_with :: "string \<Rightarrow> string \<Rightarrow> bool" where
  "ends_with s p \<longleftrightarrow> starts_with (rev s) (rev p)"

text \<open>\<open>s.split(c)\<close> for a one-character separator: never empty.\<close>

fun split_on :: "char \<Rightarrow> string \<Rightarrow> string list" where
  "split_on c [] = [[]]"
| "split_on c (x # xs) =
     (if x = c then [] # split_on c xs
      else case split_on c xs of [] \<Rightarrow> [[x]] | w # ws \<Rightarrow> (x # w) # ws)"

lemma starts_with_Nil [simp]: "starts_with s []"
  by (simp add: starts_with_def)

lemma starts_with_iff: "starts_with s p \<longleftrightarrow> (\<exists>t. s = p @ t)"
proof
  assume "starts_with s p"
  then have "s = p @ drop (length p) s"
    unfolding starts_with_def by (metis append_take_drop_id)
  then show "\<exists>t. s = p @ t" by blast
next
  assume "\<exists>t. s = p @ t"
  then show "starts_with s p" by (auto simp: starts_with_def)
qed

lemma starts_with_append [simp]: "starts_with (p @ t) p"
  by (simp add: starts_with_def)

lemma contains_text_iff: "contains_text s p \<longleftrightarrow> (\<exists>a b. s = a @ p @ b)"
proof (induction s)
  case Nil
  then show ?case by simp
next
  case (Cons c s)
  show ?case
  proof
    assume "contains_text (c # s) p"
    then consider "starts_with (c # s) p" | "contains_text s p" by auto
    then show "\<exists>a b. c # s = a @ p @ b"
    proof cases
      case 1
      then obtain t where "c # s = [] @ p @ t" by (auto simp: starts_with_iff)
      then show ?thesis by blast
    next
      case 2
      then obtain a b where "s = a @ p @ b" using Cons.IH by blast
      then have "c # s = (c # a) @ p @ b" by simp
      then show ?thesis by blast
    qed
  next
    assume "\<exists>a b. c # s = a @ p @ b"
    then obtain a b where ab: "c # s = a @ p @ b" by blast
    show "contains_text (c # s) p"
    proof (cases a)
      case Nil
      with ab have "starts_with (c # s) p" by (auto simp: starts_with_iff)
      then show ?thesis by simp
    next
      case (Cons d a')
      with ab have "s = a' @ p @ b" by simp
      then show ?thesis using Cons.IH by auto
    qed
  qed
qed

lemma split_on_not_Nil [simp]: "split_on c s \<noteq> []"
  by (induction s) (auto split: list.splits)

text \<open>\<open>ws.join(c)\<close>.\<close>

fun join_with :: "string \<Rightarrow> string list \<Rightarrow> string" where
  "join_with d [] = []"
| "join_with d [w] = w"
| "join_with d (w # v # ws) = w @ d @ join_with d (v # ws)"

lemma join_split: "join_with [c] (split_on c s) = s"
proof (induction s)
  case Nil
  then show ?case by simp
next
  case (Cons x xs)
  obtain w ws where w: "split_on c xs = w # ws" by (cases "split_on c xs") auto
  show ?case
    using Cons.IH w by (cases ws) auto
qed

text \<open>Decimal digits, as \<open>Number(s)\<close> reads a string of digits.\<close>

definition digits_value :: "string \<Rightarrow> nat" where
  "digits_value s = foldl (\<lambda>n c. 10 * n + (code c - 48)) 0 s"

end
