(* ===== verification/GroupRetention.thy ===== *)
theory GroupRetention
  imports JsText
begin

text \<open>
  The chat client's group retention tombstones, \<open>src/IM-APP-fronend/src/utils/groupRetention.ts\<close>.
  The server may move a group's minimum visible sequence number forward; the client keeps a
  durable tombstone per group and hides every message below it, whatever an older cache,
  a delayed answer or another account's request brings back.

  The class \<open>GroupRetentionSync\<close> is the record \<open>retention\<close>. Its storage and its clock are
  arguments. A batch request is asynchronous: \<open>batch_start\<close> is the part before the
  \<open>await\<close>, \<open>batch_finish\<close> the part after it, and any other operation may run in between.
  \<open>Date.parse\<close> is a parameter: what it accepts besides the ISO format is left to the
  implementation.
\<close>

section \<open>Keys, identifiers and sequence numbers\<close>

record retention_state =
  conversationId :: string
  minVisibleSeq :: int
  revision :: int
  updatedAt :: string

definition owner_char :: "char \<Rightarrow> bool" where
  "owner_char c \<longleftrightarrow> is_word c \<or> c = CHR ''-''"

definition valid_owner :: "string \<Rightarrow> bool" where
  "valid_owner s \<longleftrightarrow> 1 \<le> length s \<and> length s \<le> 96 \<and> list_all owner_char s"

definition isRetentionStorageKey :: "string \<Rightarrow> bool" where
  "isRetentionStorageKey key \<longleftrightarrow>
     starts_with key ''im:group-retention:v1:'' \<and> valid_owner (drop 22 key)"

definition isRetentionGroup :: "string \<Rightarrow> bool" where
  "isRetentionGroup s \<longleftrightarrow>
     starts_with s ''sg_'' \<and> length s = 35 \<and> list_all is_lower_hex (drop 3 s)"

text \<open>
  \<open>Number(raw)\<close> of a digit string is rounded above \<open>2 ^ 53\<close>, where both the exact and the
  rounded value are not safe integers, so the exact value decides the same way.
\<close>

definition positiveSafeInteger :: "jsval \<Rightarrow> int" where
  "positiveSafeInteger raw =
     (let n = (case raw of
                 JInt i \<Rightarrow> i
               | JStr s \<Rightarrow> if s \<noteq> [] \<and> list_all is_digit s then int (digits_value s) else 0
               | _ \<Rightarrow> 0)
      in if n \<le> max_safe \<and> 0 < n then n else 0)"

definition retentionSeq :: "jsval \<Rightarrow> int" where
  "retentionSeq item =
     (if \<not> is_object item then 0
      else let n = positiveSafeInteger (jget item ''seq'')
           in if n \<noteq> 0 then n else positiveSafeInteger (jget item ''Seq''))"

text \<open>
  \<open>validState\<close>: a row of the server's answer or of the stored index, or nothing when a
  field fails its check. \<open>positiveSafeInteger(x) === x\<close> holds of the safe positive
  integers and of 0.
\<close>

definition exact_safe :: "jsval \<Rightarrow> int option" where
  "exact_safe v = (case v of JInt i \<Rightarrow> if positiveSafeInteger v = i then Some i else None | _ \<Rightarrow> None)"

definition validState :: "(string \<Rightarrow> bool) \<Rightarrow> jsval \<Rightarrow> retention_state option" where
  "validState date_ok raw =
     (if \<not> is_object raw then None
      else case (jget raw ''conversationId'', exact_safe (jget raw ''minVisibleSeq''),
                 exact_safe (jget raw ''revision''), jget raw ''updatedAt'') of
        (JStr cid, Some m, Some r, JStr u) \<Rightarrow>
          if isRetentionGroup cid \<and> date_ok u
          then Some \<lparr>conversationId = cid, minVisibleSeq = m, revision = r, updatedAt = u\<rparr>
          else None
      | _ \<Rightarrow> None)"

section \<open>The class state\<close>

text \<open>
  \<open>pending\<close> maps the joined ids of a batch to the task that runs it; a task is identified
  by a number (object identity in the code) and remembers the ids and the generation it
  was started in. \<open>tasks\<close> lists the tasks whose fetch has not answered yet.
\<close>

record task =
  task_id :: nat
  task_ids :: "string list"
  task_generation :: nat

record retention =
  owner :: string
  generation :: nat
  states :: "(string, retention_state) jsmap"
  fetchedAt :: "(string, int) jsmap"
  pending :: "(string, task) jsmap"
  tasks :: "task list"
  next_task :: nat

definition new_retention :: retention where
  "new_retention = \<lparr>owner = [], generation = 0, states = [], fetchedAt = [], pending = [],
     tasks = [], next_task = 0\<rparr>"

definition retention_key :: "retention \<Rightarrow> string" where
  "retention_key st = ''im:group-retention:v1:'' @ owner st"

text \<open>\<open>merge\<close> returns the new state and whether the boundary moved.\<close>

definition merge_row :: "retention_state \<Rightarrow> retention \<Rightarrow> retention \<times> bool" where
  "merge_row row st =
     (case map_of (states st) (conversationId row) of
        Some prev \<Rightarrow>
          if revision row \<le> revision prev \<or> minVisibleSeq row < minVisibleSeq prev then (st, False)
          else (st\<lparr>states := map_set (conversationId row) row (states st)\<rparr>,
                minVisibleSeq prev < minVisibleSeq row)
      | None \<Rightarrow> (st\<lparr>states := map_set (conversationId row) row (states st)\<rparr>, True))"

definition minSeq :: "retention \<Rightarrow> string \<Rightarrow> int" where
  "minSeq st cid = (case map_of (states st) cid of None \<Rightarrow> 0 | Some row \<Rightarrow> minVisibleSeq row)"

definition removed :: "retention \<Rightarrow> string \<Rightarrow> jsval \<Rightarrow> bool" where
  "removed st cid item \<longleftrightarrow>
     isRetentionGroup cid \<and> 0 < retentionSeq item \<and> retentionSeq item < minSeq st cid"

definition unread :: "retention \<Rightarrow> string \<Rightarrow> jsval \<Rightarrow> int \<Rightarrow> int" where
  "unread st cid latest cnt =
     (let m = minSeq st cid; s = retentionSeq latest
      in if \<not> isRetentionGroup cid \<or> m = 0 \<or> s = 0 then cnt
         else min cnt (max 0 (s - m + 1)))"

text \<open>\<open>filter\<close>, for items seen through the fields the class reads.\<close>

definition filter_visible :: "('a \<Rightarrow> jsval) \<Rightarrow> retention \<Rightarrow> string \<Rightarrow> 'a list \<Rightarrow> 'a list" where
  "filter_visible view st cid items = filter (\<lambda>item. \<not> removed st cid (view item)) items"

text \<open>
  \<open>setOwner\<close>: another account. \<open>stored\<close> is what reading the new key gives, \<open>None\<close> when
  the read throws (the loop over the rows cannot throw).
\<close>

fun merge_stored :: "(string \<Rightarrow> bool) \<Rightarrow> jsval list \<Rightarrow> retention \<Rightarrow> retention" where
  "merge_stored date_ok [] st = st"
| "merge_stored date_ok (raw # rows) st =
     (case validState date_ok raw of
        None \<Rightarrow> merge_stored date_ok rows st
      | Some row \<Rightarrow> merge_stored date_ok rows (fst (merge_row row st)))"

definition setOwner ::
    "(string \<Rightarrow> bool) \<Rightarrow> (string \<Rightarrow> jsval option) \<Rightarrow> string \<Rightarrow> retention \<Rightarrow> retention" where
  "setOwner date_ok read new_owner st =
     (if new_owner = owner st then st
      else let o' = (if valid_owner new_owner then new_owner else []);
               st' = st\<lparr>owner := o', generation := Suc (generation st), states := [],
                        fetchedAt := [], pending := []\<rparr>
           in if o' = [] then st'
              else case read (retention_key st') of
                     Some (JArr rows) \<Rightarrow> merge_stored date_ok rows st'
                   | _ \<Rightarrow> st')"

section \<open>Synchronising with the server\<close>

text \<open>\<open>sort()\<close> without a comparator orders strings by their code units.\<close>

fun string_le :: "string \<Rightarrow> string \<Rightarrow> bool" where
  "string_le [] t = True"
| "string_le (c # s) [] = False"
| "string_le (c # s) (d # t) = (code c < code d \<or> c = d \<and> string_le s t)"

definition string_cmp :: "string \<Rightarrow> string \<Rightarrow> int" where
  "string_cmp s t = (if s = t then 0 else if string_le s t then -1 else 1)"

text \<open>The ids a \<open>sync\<close> asks for: retention groups, once each, not fetched within 15 seconds.\<close>

definition wanted_ids :: "retention \<Rightarrow> int \<Rightarrow> string list \<Rightarrow> bool \<Rightarrow> string list" where
  "wanted_ids st now ids force =
     js_sort string_cmp
       (filter (\<lambda>cid. force \<or> (case map_of (fetchedAt st) cid of None \<Rightarrow> True | Some t \<Rightarrow> 15000 \<le> now - t))
         (js_uniq (filter isRetentionGroup ids)))"

text \<open>The slices of 50 that the loop of \<open>sync\<close> sends one after the other.\<close>

function chunks50 :: "string list \<Rightarrow> string list list" where
  "chunks50 xs = (if xs = [] then [] else take 50 xs # chunks50 (drop 50 xs))"
  by pat_completeness auto
termination
  by (relation "measure length") auto

declare chunks50.simps [simp del]

text \<open>A running \<open>sync\<close>: the generation it started in and the batches still to send.\<close>

record sync_call =
  call_generation :: nat
  call_batches :: "string list list"

definition sync_begin :: "retention \<Rightarrow> int \<Rightarrow> string list \<Rightarrow> bool \<Rightarrow> sync_call" where
  "sync_begin st now ids force =
     \<lparr>call_generation = generation st,
      call_batches = (if owner st = [] then [] else chunks50 (wanted_ids st now ids force))\<rparr>"

text \<open>
  \<open>batch\<close> up to its \<open>await\<close>: a batch for the same ids that is still pending is shared.
  The result is the state and the task to wait for.
\<close>

definition batch_key :: "string list \<Rightarrow> string" where
  "batch_key ids = join_with '','' ids"

definition batch_start :: "string list \<Rightarrow> retention \<Rightarrow> retention \<times> task" where
  "batch_start ids st =
     (case map_of (pending st) (batch_key ids) of
        Some t \<Rightarrow> (st, t)
      | None \<Rightarrow>
          let t = \<lparr>task_id = next_task st, task_ids = ids, task_generation = generation st\<rparr>
          in (st\<lparr>pending := map_set (batch_key ids) t (pending st), tasks := tasks st @ [t],
                 next_task := Suc (next_task st)\<rparr>, t))"

text \<open>One turn of the loop of \<open>sync\<close>: it ends when the account changed meanwhile.\<close>

definition sync_next :: "sync_call \<Rightarrow> retention \<Rightarrow> (sync_call \<times> retention \<times> task) option" where
  "sync_next call st =
     (if call_generation call \<noteq> generation st then None
      else case call_batches call of
             [] \<Rightarrow> None
           | ids # rest \<Rightarrow>
               (case batch_start ids st of (st', t) \<Rightarrow>
                  Some (call\<lparr>call_batches := rest\<rparr>, st', t)))"

text \<open>
  The check of an answer: an array no longer than the request, every row valid, asked for,
  and not twice. One bad row rejects the whole answer.
\<close>

fun accept_rows ::
    "(string \<Rightarrow> bool) \<Rightarrow> string list \<Rightarrow> string list \<Rightarrow> jsval list \<Rightarrow> retention_state list option" where
  "accept_rows date_ok requested seen [] = Some []"
| "accept_rows date_ok requested seen (raw # rows) =
     (case validState date_ok raw of
        None \<Rightarrow> None
      | Some row \<Rightarrow>
          if conversationId row \<notin> set requested \<or> conversationId row \<in> set seen then None
          else map_option ((#) row)
                 (accept_rows date_ok requested (conversationId row # seen) rows))"

text \<open>
  The commit loop: \<open>changed\<close> collects the groups whose boundary moved, \<open>accepted\<close> says
  whether any row replaced a state (\<open>prev !== this.states.get(...)\<close>: a stored row is a
  fresh copy, so it differs from the old one exactly when \<open>merge\<close> stored it).
\<close>

definition row_accepted :: "retention_state \<Rightarrow> retention \<Rightarrow> bool" where
  "row_accepted row st =
     (case map_of (states st) (conversationId row) of
        None \<Rightarrow> True
      | Some prev \<Rightarrow> \<not> (revision row \<le> revision prev \<or> minVisibleSeq row < minVisibleSeq prev))"

fun commit_rows :: "retention_state list \<Rightarrow> retention \<Rightarrow> retention \<times> string list \<times> bool" where
  "commit_rows [] st = (st, [], False)"
| "commit_rows (row # rows) st =
     (let r = commit_rows rows (fst (merge_row row st))
      in (fst r, (if snd (merge_row row st) then [conversationId row] else []) @ fst (snd r),
          row_accepted row st \<or> snd (snd r)))"

text \<open>What a finished batch does outside the class: the index written and the listeners told.\<close>

datatype retention_effect =
    WriteIndex string "retention_state list"
  | NotifyListeners "string list"

text \<open>The \<open>finally\<close>: the pending entry goes if it is still this task's.\<close>

definition drop_pending :: "task \<Rightarrow> retention \<Rightarrow> retention" where
  "drop_pending t st =
     st\<lparr>pending := (case map_of (pending st) (batch_key (task_ids t)) of
                      Some u \<Rightarrow> if task_id u = task_id t then map_delete (batch_key (task_ids t)) (pending st)
                                else pending st
                    | None \<Rightarrow> pending st),
        tasks := filter (\<lambda>u. task_id u \<noteq> task_id t) (tasks st)\<rparr>"

text \<open>
  \<open>batch\<close> after its \<open>await\<close>: \<open>answer\<close> is the value of \<open>result?.items\<close>, or \<open>None\<close> when the
  fetch was rejected. The clock is read after the fetch.
\<close>

definition batch_finish ::
    "(string \<Rightarrow> bool) \<Rightarrow> int \<Rightarrow> jsval option \<Rightarrow> task \<Rightarrow> retention \<Rightarrow> retention \<times> retention_effect list" where
  "batch_finish date_ok now answer t st =
     (case answer of
        Some (JArr items) \<Rightarrow>
          if task_generation t \<noteq> generation st \<or> length (task_ids t) < length items then (drop_pending t st, [])
          else (case accept_rows date_ok (task_ids t) [] items of
                  None \<Rightarrow> (drop_pending t st, [])
                | Some rows \<Rightarrow>
                    (let r = commit_rows rows st;
                         st1 = fst r; changed = fst (snd r); accepted = snd (snd r);
                         st2 = st1\<lparr>fetchedAt := fold (\<lambda>cid m. map_set cid now m) (task_ids t) (fetchedAt st1)\<rparr>
                     in (drop_pending t st2,
                         (if accepted then [WriteIndex (retention_key st2) (map snd (states st2))] else [])
                         @ (if changed \<noteq> [] then [NotifyListeners changed] else []))))
      | _ \<Rightarrow> (drop_pending t st, []))"

section \<open>The contract the chat store relies on\<close>

text \<open>
  A visibility boundary: later boundaries hide at least what earlier ones hid. Everything the
  store needs of the tombstones follows from these laws.
\<close>

locale visibility_boundary =
  fixes hidden :: "'b \<Rightarrow> 'c \<Rightarrow> 'm \<Rightarrow> bool"
    and later :: "'b \<Rightarrow> 'b \<Rightarrow> bool"
  assumes later_refl: "later b b"
    and later_trans: "later b b' \<Longrightarrow> later b' b'' \<Longrightarrow> later b b''"
    and hidden_later: "later b b' \<Longrightarrow> hidden b c m \<Longrightarrow> hidden b' c m"
begin

lemma visible_absorb:
  "later b b' \<Longrightarrow> filter (\<lambda>m. \<not> hidden b' c m) (filter (\<lambda>m. \<not> hidden b c m) ms)
     = filter (\<lambda>m. \<not> hidden b' c m) ms"
  by (rule filter_filter_absorb) (auto dest: hidden_later)

lemma visible_earlier: "later b b' \<Longrightarrow> \<not> hidden b' c m \<Longrightarrow> \<not> hidden b c m"
  using hidden_later by blast

lemma visible_subset:
  "later b b' \<Longrightarrow> {m \<in> M. \<not> hidden b' c m} \<subseteq> {m \<in> M. \<not> hidden b c m}"
  using visible_earlier by blast

end

definition bounds_le :: "retention \<Rightarrow> retention \<Rightarrow> bool" where
  "bounds_le st st' \<longleftrightarrow> (\<forall>cid. minSeq st cid \<le> minSeq st' cid)"

interpretation tombstones: visibility_boundary removed bounds_le
  by unfold_locales (auto simp: bounds_le_def removed_def intro: order_trans less_le_trans)

section \<open>Well-formed tombstones\<close>

definition row_ok :: "(string \<Rightarrow> bool) \<Rightarrow> retention_state \<Rightarrow> bool" where
  "row_ok date_ok row \<longleftrightarrow> isRetentionGroup (conversationId row) \<and> date_ok (updatedAt row)
     \<and> 0 \<le> minVisibleSeq row \<and> minVisibleSeq row \<le> max_safe
     \<and> 0 \<le> revision row \<and> revision row \<le> max_safe"

definition retention_ok :: "(string \<Rightarrow> bool) \<Rightarrow> retention \<Rightarrow> bool" where
  "retention_ok date_ok st \<longleftrightarrow> keys_distinct (states st)
     \<and> (\<forall>(k, row) \<in> set (states st). k = conversationId row \<and> row_ok date_ok row)"

lemma positiveSafeInteger_bounds [simp]:
  "0 \<le> positiveSafeInteger v" "positiveSafeInteger v \<le> max_safe"
  by (simp_all add: positiveSafeInteger_def Let_def max_safe_def split: jsval.split)

lemma exact_safe_bounds: "exact_safe v = Some i \<Longrightarrow> 0 \<le> i \<and> i \<le> max_safe \<and> v = JInt i"
proof -
  assume "exact_safe v = Some i"
  then have "v = JInt i \<and> positiveSafeInteger v = i"
    by (cases v) (auto simp: exact_safe_def split: if_splits)
  then show ?thesis using positiveSafeInteger_bounds [of v] by metis
qed

lemma exact_safe_JInt: "0 \<le> i \<Longrightarrow> i \<le> max_safe \<Longrightarrow> exact_safe (JInt i) = Some i"
  by (auto simp: exact_safe_def positiveSafeInteger_def)

lemma validState_ok: "validState date_ok raw = Some row \<Longrightarrow> row_ok date_ok row"
  unfolding validState_def row_ok_def
  by (auto split: if_splits jsval.splits option.splits dest: exact_safe_bounds)

lemma retention_ok_new: "retention_ok date_ok new_retention"
  by (simp add: retention_ok_def new_retention_def)

lemma merge_row_frame [store_simps]:
  "owner (fst (merge_row row st)) = owner st"
  "generation (fst (merge_row row st)) = generation st"
  "fetchedAt (fst (merge_row row st)) = fetchedAt st"
  "pending (fst (merge_row row st)) = pending st"
  "tasks (fst (merge_row row st)) = tasks st"
  "next_task (fst (merge_row row st)) = next_task st"
  by (auto simp: merge_row_def split: option.split)

lemma merge_row_ok:
  "retention_ok date_ok st \<Longrightarrow> row_ok date_ok row \<Longrightarrow> retention_ok date_ok (fst (merge_row row st))"
  using set_map_set [of "conversationId row" row "states st"]
  by (auto simp: merge_row_def retention_ok_def split: option.split)

lemma merge_row_minSeq:
  "row_ok date_ok row \<Longrightarrow> minSeq st cid \<le> minSeq (fst (merge_row row st)) cid"
  by (auto simp: merge_row_def minSeq_def row_ok_def split: option.split)

lemma merge_row_bounds: "row_ok date_ok row \<Longrightarrow> bounds_le st (fst (merge_row row st))"
  by (simp add: bounds_le_def merge_row_minSeq)

lemma merge_stored_ok:
  "retention_ok date_ok st \<Longrightarrow> retention_ok date_ok (merge_stored date_ok rows st)"
  by (induction date_ok rows st rule: merge_stored.induct)
    (auto split: option.split intro: merge_row_ok validState_ok)

lemma merge_stored_frame [store_simps]:
  "owner (merge_stored date_ok rows st) = owner st"
  "generation (merge_stored date_ok rows st) = generation st"
  "fetchedAt (merge_stored date_ok rows st) = fetchedAt st"
  "pending (merge_stored date_ok rows st) = pending st"
  "tasks (merge_stored date_ok rows st) = tasks st"
  "next_task (merge_stored date_ok rows st) = next_task st"
  by (induction date_ok rows st rule: merge_stored.induct)
    (auto split: option.split simp: store_simps)

lemma setOwner_ok: "retention_ok date_ok st \<Longrightarrow> retention_ok date_ok (setOwner date_ok read new_owner st)"
  by (auto simp: setOwner_def Let_def retention_ok_def split: option.split jsval.split
      intro!: merge_stored_ok [unfolded retention_ok_def])

lemma accept_rows_Some:
  "accept_rows date_ok requested seen items = Some rows \<Longrightarrow>
     (\<forall>row \<in> set rows. row_ok date_ok row \<and> conversationId row \<in> set requested)
     \<and> distinct (map conversationId rows) \<and> set (map conversationId rows) \<inter> set seen = {}
     \<and> map (validState date_ok) items = map Some rows"
proof (induction date_ok requested seen items arbitrary: rows rule: accept_rows.induct)
  case (1 date_ok requested seen)
  then show ?case by simp
next
  case (2 date_ok requested seen raw items)
  from "2.prems" obtain row rest where
    row: "validState date_ok raw = Some row" "conversationId row \<in> set requested"
      "conversationId row \<notin> set seen"
    and rest: "accept_rows date_ok requested (conversationId row # seen) items = Some rest"
    and rows: "rows = row # rest"
    by (auto split: option.splits if_splits)
  have guard: "\<not> (conversationId row \<notin> set requested \<or> conversationId row \<in> set seen)"
    using row(2,3) by simp
  note IH = "2.IH" [OF row(1) guard rest]
  have fresh: "conversationId row \<notin> set (map conversationId rest)"
    and disj: "set (map conversationId rest) \<inter> set seen = {}"
    using IH by auto
  have "\<forall>r \<in> set rows. row_ok date_ok r \<and> conversationId r \<in> set requested"
    using IH rows row(2) validState_ok [OF row(1)] by simp
  moreover have "distinct (map conversationId rows)" using IH rows fresh by simp
  moreover have "set (map conversationId rows) \<inter> set seen = {}"
    using disj rows row(3) by simp
  moreover have "map (validState date_ok) (raw # items) = map Some rows"
    using IH rows row(1) by simp
  ultimately show ?case by blast
qed

lemma commit_rows_ok:
  "retention_ok date_ok st \<Longrightarrow> \<forall>row \<in> set rows. row_ok date_ok row \<Longrightarrow>
     retention_ok date_ok (fst (commit_rows rows st))"
  by (induction rows st rule: commit_rows.induct) (auto simp: Let_def intro: merge_row_ok)

lemma commit_rows_frame [store_simps]:
  "owner (fst (commit_rows rows st)) = owner st"
  "generation (fst (commit_rows rows st)) = generation st"
  "fetchedAt (fst (commit_rows rows st)) = fetchedAt st"
  "pending (fst (commit_rows rows st)) = pending st"
  "tasks (fst (commit_rows rows st)) = tasks st"
  "next_task (fst (commit_rows rows st)) = next_task st"
  by (induction rows st rule: commit_rows.induct) (auto simp: Let_def store_simps)

lemma commit_rows_bounds:
  "\<forall>row \<in> set rows. row_ok date_ok row \<Longrightarrow> bounds_le st (fst (commit_rows rows st))"
proof (induction rows st rule: commit_rows.induct)
  case (1 st)
  then show ?case by (simp add: tombstones.later_refl)
next
  case (2 row rows st)
  then have "bounds_le (fst (merge_row row st)) (fst (commit_rows rows (fst (merge_row row st))))"
    by simp
  moreover have "bounds_le st (fst (merge_row row st))"
    using "2.prems" by (auto intro: merge_row_bounds)
  ultimately have "bounds_le st (fst (commit_rows rows (fst (merge_row row st))))"
    by (rule tombstones.later_trans [rotated])
  then show ?case by (simp add: Let_def)
qed

lemma commit_rows_changed:
  "fst (snd (commit_rows rows st)) \<noteq> [] \<Longrightarrow> snd (snd (commit_rows rows st))"
  by (induction rows st rule: commit_rows.induct)
    (auto simp: Let_def merge_row_def row_accepted_def split: option.splits if_splits)

lemma drop_pending_frame [store_simps]:
  "owner (drop_pending t st) = owner st"
  "generation (drop_pending t st) = generation st"
  "states (drop_pending t st) = states st"
  "fetchedAt (drop_pending t st) = fetchedAt st"
  "next_task (drop_pending t st) = next_task st"
  by (simp_all add: drop_pending_def)

lemma retention_ok_states:
  "states st' = states st \<Longrightarrow> retention_ok date_ok st' = retention_ok date_ok st"
  by (simp add: retention_ok_def)

lemma minSeq_states: "states st' = states st \<Longrightarrow> minSeq st' cid = minSeq st cid"
  by (simp add: minSeq_def)

text \<open>A finished batch leaves the states alone or commits a list of valid, requested, distinct rows.\<close>

lemma batch_finish_cases:
  obtains (dropped) "batch_finish date_ok now answer t st = (drop_pending t st, [])"
  | (committed) items rows where
      "answer = Some (JArr items)" "task_generation t = generation st"
      "length items \<le> length (task_ids t)"
      "accept_rows date_ok (task_ids t) [] items = Some rows"
      "states (fst (batch_finish date_ok now answer t st)) = states (fst (commit_rows rows st))"
      "snd (batch_finish date_ok now answer t st) =
         (if snd (snd (commit_rows rows st))
          then [WriteIndex (retention_key st) (map snd (states (fst (commit_rows rows st))))] else [])
         @ (if fst (snd (commit_rows rows st)) \<noteq> []
            then [NotifyListeners (fst (snd (commit_rows rows st)))] else [])"
proof (cases "\<exists>items rows. answer = Some (JArr items) \<and> task_generation t = generation st
      \<and> length items \<le> length (task_ids t) \<and> accept_rows date_ok (task_ids t) [] items = Some rows")
  case True
  then obtain items rows where v: "answer = Some (JArr items)" "task_generation t = generation st"
      "length items \<le> length (task_ids t)" "accept_rows date_ok (task_ids t) [] items = Some rows"
    by blast
  then show ?thesis
    by (intro committed [OF v]) (simp_all add: batch_finish_def Let_def store_simps retention_key_def)
next
  case False
  then have "batch_finish date_ok now answer t st = (drop_pending t st, [])"
    by (auto simp: batch_finish_def split: jsval.split option.split)
  then show ?thesis by (rule dropped)
qed

lemma batch_finish_frame [store_simps]:
  "owner (fst (batch_finish date_ok now answer t st)) = owner st"
  "generation (fst (batch_finish date_ok now answer t st)) = generation st"
  "next_task (fst (batch_finish date_ok now answer t st)) = next_task st"
  by (simp_all add: batch_finish_def Let_def store_simps split: option.split jsval.split)

lemma batch_finish_ok:
  assumes "retention_ok date_ok st"
  shows "retention_ok date_ok (fst (batch_finish date_ok now answer t st))"
proof (cases rule: batch_finish_cases [of date_ok now answer t st])
  case dropped
  then show ?thesis using assms by (simp add: retention_ok_def store_simps)
next
  case (committed items rows)
  then have "retention_ok date_ok (fst (commit_rows rows st))"
    using commit_rows_ok [OF assms] accept_rows_Some [OF committed(4)] by blast
  then show ?thesis using committed(5) by (simp add: retention_ok_def)
qed

lemma batch_finish_bounds: "bounds_le st (fst (batch_finish date_ok now answer t st))"
proof (cases rule: batch_finish_cases [of date_ok now answer t st])
  case dropped
  then show ?thesis by (simp add: bounds_le_def minSeq_def store_simps)
next
  case (committed items rows)
  then have "bounds_le st (fst (commit_rows rows st))"
    using commit_rows_bounds accept_rows_Some [OF committed(4)] by blast
  then show ?thesis using committed(5) by (simp add: bounds_le_def minSeq_def)
qed

lemma batch_start_frame [store_simps]:
  "owner (fst (batch_start ids st)) = owner st"
  "generation (fst (batch_start ids st)) = generation st"
  "states (fst (batch_start ids st)) = states st"
  "fetchedAt (fst (batch_start ids st)) = fetchedAt st"
  by (simp_all add: batch_start_def Let_def split: option.split)

section \<open>Runs of the class\<close>

text \<open>
  Any interleaving of account switches, turns of running \<open>sync\<close> loops and finished fetches.
\<close>

inductive retention_step :: "(string \<Rightarrow> bool) \<Rightarrow> retention \<Rightarrow> retention \<Rightarrow> bool" for date_ok where
  set_owner: "retention_step date_ok st (setOwner date_ok read new_owner st)"
| sync_turn: "sync_next call st = Some (call', st', t) \<Longrightarrow> retention_step date_ok st st'"
| finish: "t \<in> set (tasks st) \<Longrightarrow>
     retention_step date_ok st (fst (batch_finish date_ok now answer t st))"

inductive retention_run :: "(string \<Rightarrow> bool) \<Rightarrow> retention \<Rightarrow> retention \<Rightarrow> bool" for date_ok where
  done_run: "retention_run date_ok st st"
| step_run: "retention_run date_ok st st' \<Longrightarrow> retention_step date_ok st' st'' \<Longrightarrow>
     retention_run date_ok st st''"

lemma sync_next_start:
  "sync_next call st = Some (call', st', t) \<Longrightarrow> \<exists>ids. st' = fst (batch_start ids st)"
  by (auto simp: sync_next_def split: if_splits list.splits prod.splits) (metis fst_conv)

lemma retention_step_ok:
  "retention_step date_ok st st' \<Longrightarrow> retention_ok date_ok st \<Longrightarrow> retention_ok date_ok st'"
proof (induction rule: retention_step.induct)
  case (sync_turn call st call' st' t)
  then show ?case using sync_next_start by (fastforce simp: retention_ok_def store_simps)
qed (auto intro: setOwner_ok batch_finish_ok)

lemma setOwner_generation:
  "setOwner date_ok read new_owner st = st
   \<or> generation (setOwner date_ok read new_owner st) = Suc (generation st)"
  by (auto simp: setOwner_def Let_def store_simps split: option.split jsval.split)

lemma retention_step_generation:
  "retention_step date_ok st st' \<Longrightarrow>
     generation st \<le> generation st' \<and> (generation st' = generation st \<longrightarrow> bounds_le st st')"
proof (induction rule: retention_step.induct)
  case (set_owner st read new_owner)
  then show ?case
    using setOwner_generation [of date_ok read new_owner st]
    by (auto simp: tombstones.later_refl)
next
  case (sync_turn call st call' st' t)
  then show ?case
    using sync_next_start by (fastforce simp: bounds_le_def minSeq_def store_simps)
next
  case (finish t st now answer)
  then show ?case by (simp add: store_simps batch_finish_bounds)
qed

lemma retention_run_generation:
  "retention_run date_ok st st' \<Longrightarrow>
     generation st \<le> generation st' \<and> (generation st' = generation st \<longrightarrow> bounds_le st st')"
proof (induction rule: retention_run.induct)
  case (done_run st)
  then show ?case by (simp add: tombstones.later_refl)
next
  case (step_run st st' st'')
  then show ?case
    using retention_step_generation [OF step_run.hyps(2)]
    by (auto intro: tombstones.later_trans)
qed

lemma retention_run_ok:
  "retention_run date_ok st st' \<Longrightarrow> retention_ok date_ok st \<Longrightarrow> retention_ok date_ok st'"
  by (induction rule: retention_run.induct) (auto intro: retention_step_ok)

section \<open>Lemmas of the properties\<close>

lemma chunks50_Nil [simp]: "chunks50 [] = []"
  by (simp add: chunks50.simps)

lemma concat_chunks50: "concat (chunks50 xs) = xs"
proof (induction xs rule: chunks50.induct)
  case (1 xs)
  then show ?case
    by (cases "xs = []") (simp_all add: chunks50.simps [of xs])
qed

lemma chunks50_bounded: "list_all (\<lambda>b. b \<noteq> [] \<and> length b \<le> 50) (chunks50 xs)"
proof (induction xs rule: chunks50.induct)
  case (1 xs)
  then show ?case
    by (cases "xs = []") (simp_all add: chunks50.simps [of xs])
qed

lemma distinct_js_sort_id [simp]: "distinct (js_sort c xs) = distinct xs"
  using distinct_js_sort [of id c xs] by simp

text \<open>The JSON object that storage keeps for a row.\<close>

definition encode_row :: "retention_state \<Rightarrow> jsval" where
  "encode_row row = JObj [(''conversationId'', JStr (conversationId row)),
     (''minVisibleSeq'', JInt (minVisibleSeq row)), (''revision'', JInt (revision row)),
     (''updatedAt'', JStr (updatedAt row))]"

lemma validState_encode: "row_ok date_ok row \<Longrightarrow> validState date_ok (encode_row row) = Some row"
  by (simp add: validState_def encode_row_def row_ok_def jget_def exact_safe_JInt)

lemma map_set_fresh: "k \<notin> fst ` set m \<Longrightarrow> map_set k v m = m @ [(k, v)]"
  by (induction m) auto

lemma merge_stored_encoded:
  "\<forall>row \<in> set rows. row_ok date_ok row \<Longrightarrow> distinct (map conversationId rows) \<Longrightarrow>
   fst ` set (states st) \<inter> conversationId ` set rows = {} \<Longrightarrow>
   states (merge_stored date_ok (map encode_row rows) st)
     = states st @ map (\<lambda>row. (conversationId row, row)) rows"
proof (induction rows arbitrary: st)
  case Nil
  then show ?case by simp
next
  case (Cons row rows)
  let ?st = "fst (merge_row row st)"
  have fresh: "conversationId row \<notin> fst ` set (states st)" using Cons.prems(3) by auto
  then have "map_of (states st) (conversationId row) = None"
    by (simp add: map_of_eq_None_iff)
  then have st: "states ?st = states st @ [(conversationId row, row)]"
    by (simp add: merge_row_def map_set_fresh [OF fresh])
  have "states (merge_stored date_ok (map encode_row rows) ?st)
     = states ?st @ map (\<lambda>row. (conversationId row, row)) rows"
    using Cons.prems by (intro Cons.IH) (auto simp: st)
  then show ?case using Cons.prems(1) by (simp add: validState_encode st)
qed

lemma retention_ok_rows:
  "retention_ok date_ok st \<Longrightarrow> (\<forall>row \<in> set (map snd (states st)). row_ok date_ok row)
     \<and> distinct (map conversationId (map snd (states st)))
     \<and> map (\<lambda>row. (conversationId row, row)) (map snd (states st)) = states st"
proof -
  assume ok: "retention_ok date_ok st"
  have keys: "map conversationId (map snd (states st)) = map fst (states st)"
    using ok by (auto simp: retention_ok_def)
  have "map (\<lambda>row. (conversationId row, row)) (map snd (states st)) = states st"
    using ok by (auto simp: retention_ok_def intro!: map_idI)
  moreover have "distinct (map conversationId (map snd (states st)))"
    using ok keys by (simp only: retention_ok_def keys_distinct_def)
  moreover have "\<forall>row \<in> set (map snd (states st)). row_ok date_ok row"
    using ok by (auto simp: retention_ok_def)
  ultimately show ?thesis by blast
qed

lemma seq_card: "0 < m \<Longrightarrow> max 0 (s - m + 1) = int (card {x :: int. m \<le> x \<and> x \<le> s})"
proof -
  have "{x :: int. m \<le> x \<and> x \<le> s} = {m..s}" by auto
  then show ?thesis by simp
qed

section \<open>Properties\<close>

text \<open>C1: Retention tombstones never move back. Whatever account-independent interleaving of sync
  turns and finished (successful, failed, malformed, late) fetches runs, as long as the account
  is the same a message that was hidden stays hidden.\<close>

theorem retention_never_resurrects:
  assumes "retention_run date_ok st st'" and "generation st' = generation st"
    and "removed st cid item"
  shows "removed st' cid item"
  using retention_run_generation [OF assms(1)] assms(2,3)
  by (blast intro: tombstones.hidden_later)

text \<open>C2: Every state the class can reach from the fresh one is well formed: one row per group, stored
  under its own id, a valid group id, safe non-negative boundary and revision, a date.\<close>

theorem retention_reachable_ok:
  assumes "retention_run date_ok new_retention st"
  shows "retention_ok date_ok st"
  using retention_run_ok [OF assms retention_ok_new] .

text \<open>C3: An answer that arrives after the account changed, or a rejected fetch, leaves the
  boundaries and the fetch times alone, writes nothing and tells no listener.\<close>

theorem stale_answer_is_dropped:
  assumes "task_generation t \<noteq> generation st \<or> answer = None"
  shows "states (fst (batch_finish date_ok now answer t st)) = states st
    \<and> fetchedAt (fst (batch_finish date_ok now answer t st)) = fetchedAt st
    \<and> snd (batch_finish date_ok now answer t st) = []"
  using assms by (auto simp: batch_finish_def store_simps split: option.split jsval.split)

text \<open>C4: An answer is committed as a whole or not at all: if it changed any boundary state or had any
  effect, every one of its rows was valid, about a requested group, and no group came twice.\<close>

theorem answer_all_or_nothing:
  assumes "answer = Some (JArr items)"
    and "states (fst (batch_finish date_ok now answer t st)) \<noteq> states st
      \<or> snd (batch_finish date_ok now answer t st) \<noteq> []"
  shows "\<exists>rows. map (validState date_ok) items = map Some rows
    \<and> set (map conversationId rows) \<subseteq> set (task_ids t) \<and> distinct (map conversationId rows)"
proof (cases rule: batch_finish_cases [of date_ok now answer t st])
  case dropped
  then show ?thesis using assms by (simp add: store_simps)
next
  case (committed items' rows)
  then have "items' = items" using assms(1) by simp
  then show ?thesis using accept_rows_Some [OF committed(4)] by auto
qed

text \<open>C5: The index written after a batch restores the same boundaries when the account signs in again:
  reading it back under the same key gives exactly the states that were written.\<close>

theorem written_index_restores:
  assumes "retention_ok date_ok st" and "valid_owner (owner st)"
    and "WriteIndex key rows \<in> set (snd (batch_finish date_ok now answer t st))"
    and "owner other \<noteq> owner st"
  shows "states (setOwner date_ok (\<lambda>k. if k = key then Some (JArr (map encode_row rows)) else None)
      (owner st) other) = states (fst (batch_finish date_ok now answer t st))"
proof (cases rule: batch_finish_cases [of date_ok now answer t st])
  case dropped
  then show ?thesis using assms(3) by simp
next
  case (committed items rows')
  let ?st = "fst (commit_rows rows' st)"
  have key: "key = retention_key st" and rows: "rows = map snd (states ?st)"
    using assms(3) committed(6) by (auto split: if_splits)
  have ok: "retention_ok date_ok ?st"
    using commit_rows_ok [OF assms(1)] accept_rows_Some [OF committed(4)] by blast
  let ?fresh = "other\<lparr>owner := owner st, generation := Suc (generation other), states := [],
      fetchedAt := [], pending := []\<rparr>"
  have "owner st \<noteq> []" using assms(2) by (auto simp: valid_owner_def)
  with assms(2,4) have "setOwner date_ok
      (\<lambda>k. if k = key then Some (JArr (map encode_row rows)) else None) (owner st) other
    = merge_stored date_ok (map encode_row rows) ?fresh"
    by (simp add: setOwner_def key retention_key_def)
  also have "states \<dots> = states ?st"
    using retention_ok_rows [OF ok] unfolding rows by (subst merge_stored_encoded) simp_all
  finally show ?thesis using committed(5) by simp
qed

text \<open>The unread badge of a group with a boundary is capped by the number of sequence numbers that are
  still visible, and it never exceeds the count of the SDK.\<close>

theorem unread_counts_visible_only:
  assumes "isRetentionGroup cid" and "0 < minSeq st cid" and "0 < retentionSeq latest"
  shows "unread st cid latest cnt
    = min cnt (int (card {s. minSeq st cid \<le> s \<and> s \<le> retentionSeq latest}))"
  using assms seq_card [of "minSeq st cid" "retentionSeq latest"] by (simp add: unread_def Let_def)

text \<open>One \<open>sync\<close> asks for exactly the retention groups among its ids that are due, each once, in
  requests of at most 50 ids; without an account it asks for nothing.\<close>

theorem sync_requests:
  "list_all (\<lambda>b. b \<noteq> [] \<and> length b \<le> 50) (call_batches (sync_begin st now ids force))
   \<and> distinct (concat (call_batches (sync_begin st now ids force)))
   \<and> set (concat (call_batches (sync_begin st now ids force)))
     = {cid \<in> set ids. owner st \<noteq> [] \<and> isRetentionGroup cid
          \<and> (force \<or> (case map_of (fetchedAt st) cid of None \<Rightarrow> True | Some t \<Rightarrow> 15000 \<le> now - t))}"
  by (cases "owner st = []")
    (auto simp: sync_begin_def concat_chunks50 chunks50_bounded wanted_ids_def simp del: set_concat)

section \<open>Witnesses\<close>

definition sample_group :: string where
  "sample_group = ''sg_'' @ replicate 32 CHR ''a''"

definition sample_row :: "int \<Rightarrow> int \<Rightarrow> retention_state" where
  "sample_row m r = \<lparr>conversationId = sample_group, minVisibleSeq = m, revision = r,
     updatedAt = ''2026-08-20T00:00:00Z''\<rparr>"

text \<open>Signed in as \<open>u1\<close> with a stored boundary of 5 for the sample group.\<close>

definition sample_state :: retention where
  "sample_state = setOwner (\<lambda>_. True) (\<lambda>_. Some (JArr [encode_row (sample_row 5 1)])) ''u1'' new_retention"

definition sample_task :: task where
  "sample_task = \<lparr>task_id = 0, task_ids = [sample_group], task_generation = 1\<rparr>"

definition sample_finish :: "retention \<times> retention_effect list" where
  "sample_finish = batch_finish (\<lambda>_. True) 100 (Some (JArr [encode_row (sample_row 9 2)]))
     sample_task (fst (batch_start [sample_group] sample_state))"

lemma sample_group_ok [simp]: "isRetentionGroup sample_group"
  by code_simp

lemma sample_row_ok: "row_ok (\<lambda>_. True) (sample_row 5 1)" "row_ok (\<lambda>_. True) (sample_row 9 2)"
  by (simp_all add: row_ok_def sample_row_def max_safe_def)

lemma sample_state_eq: "sample_state = \<lparr>owner = ''u1'', generation = 1,
    states = [(sample_group, sample_row 5 1)], fetchedAt = [], pending = [], tasks = [], next_task = 0\<rparr>"
  by code_simp

lemma sample_run: "retention_run (\<lambda>_. True) new_retention sample_state"
  unfolding sample_state_def by (rule step_run [OF done_run]) (rule set_owner)

lemma sample_run_finish: "retention_run (\<lambda>_. True) sample_state (fst sample_finish)"
proof -
  have start: "sync_next \<lparr>call_generation = 1, call_batches = [[sample_group]]\<rparr> sample_state
      = Some (\<lparr>call_generation = 1, call_batches = []\<rparr>, fst (batch_start [sample_group] sample_state), sample_task)"
    by code_simp
  have task: "sample_task \<in> set (tasks (fst (batch_start [sample_group] sample_state)))"
    by code_simp
  show ?thesis
    unfolding sample_finish_def
    by (rule step_run [OF step_run [OF done_run sync_turn [OF start]] finish [OF task]])
qed

lemma retention_never_resurrects_witness:
  "removed sample_state sample_group (JObj [(''seq'', JInt 3)])
   \<and> removed (fst sample_finish) sample_group (JObj [(''seq'', JInt 3)])
   \<and> minSeq (fst sample_finish) sample_group = 9"
proof -
  have before: "removed sample_state sample_group (JObj [(''seq'', JInt 3)])" by code_simp
  have same: "generation (fst sample_finish) = generation sample_state" by code_simp
  have "minSeq (fst sample_finish) sample_group = 9" by code_simp
  then show ?thesis
    using before retention_never_resurrects [OF sample_run_finish same before] by simp
qed

lemma retention_reachable_ok_witness: "retention_ok (\<lambda>_. True) sample_state"
  by (rule retention_reachable_ok [OF sample_run])

lemma stale_answer_is_dropped_witness:
  "states (fst (batch_finish (\<lambda>_. True) 100 (Some (JArr [encode_row (sample_row 9 2)]))
     (sample_task\<lparr>task_generation := 0\<rparr>) sample_state)) = [(sample_group, sample_row 5 1)]"
proof -
  have "task_generation (sample_task\<lparr>task_generation := 0\<rparr>) \<noteq> generation sample_state"
    by (simp add: sample_state_eq)
  then show ?thesis using stale_answer_is_dropped by (simp add: sample_state_eq)
qed

lemma answer_all_or_nothing_witness:
  "\<exists>rows. map (validState (\<lambda>_. True)) [encode_row (sample_row 9 2)] = map Some rows
    \<and> set (map conversationId rows) \<subseteq> set (task_ids sample_task) \<and> distinct (map conversationId rows)"
proof (rule answer_all_or_nothing [OF refl])
  show "states (fst (batch_finish (\<lambda>_. True) 100 (Some (JArr [encode_row (sample_row 9 2)])) sample_task
        sample_state)) \<noteq> states sample_state
      \<or> snd (batch_finish (\<lambda>_. True) 100 (Some (JArr [encode_row (sample_row 9 2)])) sample_task sample_state) \<noteq> []"
    by code_simp
qed

lemma written_index_restores_witness:
  "states (setOwner (\<lambda>_. True) (\<lambda>k. if k = ''im:group-retention:v1:u1''
      then Some (JArr (map encode_row [sample_row 9 2])) else None) ''u1'' new_retention)
    = states (fst sample_finish)"
proof -
  let ?st = "fst (batch_start [sample_group] sample_state)"
  have ok: "retention_ok (\<lambda>_. True) ?st"
    using retention_reachable_ok_witness by (simp add: retention_ok_def store_simps)
  have owner: "owner ?st = ''u1''" by code_simp
  have valid: "valid_owner (owner ?st)" by code_simp
  have other: "owner new_retention \<noteq> owner ?st" by code_simp
  have written: "WriteIndex ''im:group-retention:v1:u1'' [sample_row 9 2]
      \<in> set (snd (batch_finish (\<lambda>_. True) 100 (Some (JArr [encode_row (sample_row 9 2)])) sample_task ?st))"
    by code_simp
  show ?thesis
    using written_index_restores [OF ok valid written other] by (simp add: owner sample_finish_def)
qed

lemma unread_counts_visible_only_witness:
  "unread sample_state sample_group (JObj [(''seq'', JInt 7)]) 10
    = min 10 (int (card {s :: int. 5 \<le> s \<and> s \<le> 7}))"
proof -
  have b: "minSeq sample_state sample_group = 5" by code_simp
  have s: "retentionSeq (JObj [(''seq'', JInt 7)]) = 7" by code_simp
  show ?thesis
    using unread_counts_visible_only [of sample_group sample_state "JObj [(''seq'', JInt 7)]" 10]
    by (simp add: b s)
qed

end
