(* ===== verification/GroupAnnouncement.thy ===== *)
theory GroupAnnouncement
  imports JsText
begin

text \<open>
  Group announcements and the red preview tags
  (\<open>src/IM-APP-fronend/src/utils/group-announcement.ts\<close>). The app remembers per account,
  in the device storage, which announcement of a conversation the user closed and whether
  the latest one is unread. The storage is a map from keys to untyped values; a key that
  was never written reads as the empty string, as \<open>uni.getStorageSync\<close> does. Conversation
  ids are taken to be ordinary keys, different from the names every object inherits
  (\<open>toString\<close>, \<open>__proto__\<close>).
\<close>

type_synonym device_storage = "(string, jsval) jsmap"

definition storage_read :: "device_storage \<Rightarrow> string \<Rightarrow> jsval" where
  "storage_read s k = (case map_of s k of None \<Rightarrow> JStr [] | Some v \<Rightarrow> v)"

lemma storage_read_set [simp]:
  "storage_read (map_set k v s) j = (if j = k then v else storage_read s j)"
  by (simp add: storage_read_def)

section \<open>Reminder levels\<close>

datatype group_at = AtNormal | AtMe | AtAll | AtAllAtMe | AtGroupNotice

text \<open>The level as the SDK delivers it: absent, one of the five, or a number that is none.\<close>

fun group_at_code :: "group_at \<Rightarrow> int" where
  "group_at_code AtNormal = 0"
| "group_at_code AtMe = 1"
| "group_at_code AtAll = 2"
| "group_at_code AtAllAtMe = 3"
| "group_at_code AtGroupNotice = 4"

definition isAtMeType :: "int option \<Rightarrow> bool" where
  "isAtMeType t \<longleftrightarrow> t = Some (group_at_code AtMe) \<or> t = Some (group_at_code AtAll) \<or>
     t = Some (group_at_code AtAllAtMe)"

definition effectiveGroupAtType :: "int option \<Rightarrow> int option \<Rightarrow> int" where
  "effectiveGroupAtType t unreadCount =
     (if (case unreadCount of None \<Rightarrow> 0 | Some n \<Rightarrow> n) > 0
      then (case t of None \<Rightarrow> group_at_code AtNormal | Some n \<Rightarrow> n)
      else group_at_code AtNormal)"

text \<open>The two tag texts, "someone mentioned me" and "new announcement".\<close>

datatype preview_tag = TagMentioned | TagAnnouncement

definition highlightTagsOf :: "int option \<Rightarrow> bool \<Rightarrow> preview_tag list" where
  "highlightTagsOf t hasUnreadAnnouncement =
     (if isAtMeType t then [TagMentioned] else []) @
     (if t = Some (group_at_code AtGroupNotice) \<or> hasUnreadAnnouncement then [TagAnnouncement] else [])"

section \<open>The stored maps\<close>

text \<open>
  \<open>readStringMap\<close> and \<open>readFlagMap\<close> keep the well-typed entries of whatever the key holds;
  anything that is not a plain object reads as the empty map.
\<close>

fun text_entries :: "(string, jsval) jsmap \<Rightarrow> (string, string) jsmap" where
  "text_entries [] = []"
| "text_entries ((i, v) # fs) =
     (case v of JStr x \<Rightarrow> if i \<noteq> [] then (i, x) # text_entries fs else text_entries fs
      | _ \<Rightarrow> text_entries fs)"

definition readStringMap :: "device_storage \<Rightarrow> string \<Rightarrow> (string, string) jsmap" where
  "readStringMap s k = (case storage_read s k of
     JObj fs \<Rightarrow> text_entries fs
   | _ \<Rightarrow> [])"

fun flag_entries :: "(string, jsval) jsmap \<Rightarrow> (string, bool) jsmap" where
  "flag_entries [] = []"
| "flag_entries ((i, v) # fs) =
     (case v of JBool x \<Rightarrow> if i \<noteq> [] then (i, x) # flag_entries fs else flag_entries fs
      | _ \<Rightarrow> flag_entries fs)"

definition readFlagMap :: "device_storage \<Rightarrow> string \<Rightarrow> (string, bool) jsmap" where
  "readFlagMap s k = (case storage_read s k of
     JObj fs \<Rightarrow> flag_entries fs
   | _ \<Rightarrow> [])"

definition dismissedKey :: "string \<Rightarrow> string" where
  "dismissedKey u = ''im_announcement_dismissed_'' @ (if u = [] then ''anon'' else u)"

definition unreadKey :: "string \<Rightarrow> string" where
  "unreadKey u = ''im_announcement_unread_'' @ (if u = [] then ''anon'' else u)"

section \<open>Operations\<close>

definition isAnnouncementDismissed :: "device_storage \<Rightarrow> string \<Rightarrow> string \<Rightarrow> string \<Rightarrow> bool" where
  "isAnnouncementDismissed s u c content =
     (if c = [] \<or> content = [] then True
      else map_of (readStringMap s (dismissedKey u)) c = Some content)"

definition rememberDismissedAnnouncement ::
    "string \<Rightarrow> string \<Rightarrow> string \<Rightarrow> device_storage \<Rightarrow> device_storage" where
  "rememberDismissedAnnouncement u c content s =
     (if c = [] then s
      else let k = dismissedKey u; m = map_set c content (readStringMap s k) in
        map_set k (JObj (map (\<lambda>(i, t). (i, JStr t)) m)) s)"

definition unreadAnnouncementState :: "device_storage \<Rightarrow> string \<Rightarrow> string \<Rightarrow> bool option" where
  "unreadAnnouncementState s u c = map_of (readFlagMap s (unreadKey u)) c"

definition writeUnreadAnnouncement ::
    "string \<Rightarrow> string \<Rightarrow> bool \<Rightarrow> device_storage \<Rightarrow> device_storage" where
  "writeUnreadAnnouncement u c unread s =
     (if c = [] then s
      else let k = unreadKey u; m = map_set c unread (readFlagMap s k) in
        map_set k (JObj (map (\<lambda>(i, b). (i, JBool b)) m)) s)"

section \<open>Reading back what was written\<close>

lemma nonempty_keys_set:
  "c \<noteq> [] \<Longrightarrow> \<forall>p \<in> set m. fst p \<noteq> [] \<Longrightarrow> \<forall>p \<in> set (map_set c v m). fst p \<noteq> []"
  using set_map_set [of c v m] by fastforce

lemma text_entries_keys: "\<forall>p \<in> set (text_entries fs). fst p \<noteq> []"
  by (induction fs rule: text_entries.induct) (auto split: jsval.splits)

lemma text_entries_written:
  "\<forall>p \<in> set m. fst p \<noteq> [] \<Longrightarrow> text_entries (map (\<lambda>(i, x). (i, JStr x)) m) = m"
  by (induction m) auto

lemma readStringMap_keys: "\<forall>p \<in> set (readStringMap s k). fst p \<noteq> []"
  unfolding readStringMap_def using text_entries_keys by (cases "storage_read s k") simp_all

lemma flag_entries_keys: "\<forall>p \<in> set (flag_entries fs). fst p \<noteq> []"
  by (induction fs rule: flag_entries.induct) (auto split: jsval.splits)

lemma flag_entries_written:
  "\<forall>p \<in> set m. fst p \<noteq> [] \<Longrightarrow> flag_entries (map (\<lambda>(i, x). (i, JBool x)) m) = m"
  by (induction m) auto

lemma readFlagMap_keys: "\<forall>p \<in> set (readFlagMap s k). fst p \<noteq> []"
  unfolding readFlagMap_def using flag_entries_keys by (cases "storage_read s k") simp_all

lemma readStringMap_written [store_simps]:
  "\<forall>p \<in> set m. fst p \<noteq> [] \<Longrightarrow> storage_read s k = JObj (map (\<lambda>(i, t). (i, JStr t)) m) \<Longrightarrow>
   readStringMap s k = m"
  by (simp add: readStringMap_def text_entries_written)

lemma readFlagMap_written [store_simps]:
  "\<forall>p \<in> set m. fst p \<noteq> [] \<Longrightarrow> storage_read s k = JObj (map (\<lambda>(i, t). (i, JBool t)) m) \<Longrightarrow>
   readFlagMap s k = m"
  by (simp add: readFlagMap_def flag_entries_written)

lemma readFlagMap_frame:
  "storage_read s k = storage_read s' k \<Longrightarrow> readFlagMap s k = readFlagMap s' k"
  by (simp add: readFlagMap_def)

lemma readStringMap_frame:
  "storage_read s k = storage_read s' k \<Longrightarrow> readStringMap s k = readStringMap s' k"
  by (simp add: readStringMap_def)

lemma keys_disjoint [simp]: "dismissedKey u \<noteq> unreadKey v" "unreadKey v \<noteq> dismissedKey u"
  by (simp_all add: dismissedKey_def unreadKey_def)

lemma dismissedKey_eq: "dismissedKey u = dismissedKey v \<longleftrightarrow>
    (if u = [] then ''anon'' else u) = (if v = [] then ''anon'' else v)"
  by (simp add: dismissedKey_def)

lemma unreadKey_eq: "unreadKey u = unreadKey v \<longleftrightarrow>
    (if u = [] then ''anon'' else u) = (if v = [] then ''anon'' else v)"
  by (simp add: unreadKey_def)

lemma readFlagMap_write:
  "c \<noteq> [] \<Longrightarrow> readFlagMap (writeUnreadAnnouncement u c b s) k =
     (if k = unreadKey u then map_set c b (readFlagMap s k) else readFlagMap s k)"
  by (auto simp: writeUnreadAnnouncement_def Let_def
      intro!: readFlagMap_written readFlagMap_frame nonempty_keys_set [OF _ readFlagMap_keys])

lemma readStringMap_remember:
  "c \<noteq> [] \<Longrightarrow> readStringMap (rememberDismissedAnnouncement u c t s) k =
     (if k = dismissedKey u then map_set c t (readStringMap s k) else readStringMap s k)"
  by (auto simp: rememberDismissedAnnouncement_def Let_def
      intro!: readStringMap_written readStringMap_frame nonempty_keys_set [OF _ readStringMap_keys])

lemma readFlagMap_remember:
  "readFlagMap (rememberDismissedAnnouncement u c t s) (unreadKey v) = readFlagMap s (unreadKey v)"
  by (auto simp: rememberDismissedAnnouncement_def Let_def intro!: readFlagMap_frame)

lemma readStringMap_unread:
  "readStringMap (writeUnreadAnnouncement u c b s) (dismissedKey v) = readStringMap s (dismissedKey v)"
  by (auto simp: writeUnreadAnnouncement_def Let_def intro!: readStringMap_frame)

lemma unreadAnnouncementState_write [store_simps]:
  "c \<noteq> [] \<Longrightarrow> unreadAnnouncementState (writeUnreadAnnouncement u c b s) v d =
     (if unreadKey v = unreadKey u \<and> d = c then Some b else unreadAnnouncementState s v d)"
  by (simp add: unreadAnnouncementState_def readFlagMap_write)

lemma unreadAnnouncementState_remember [store_simps]:
  "unreadAnnouncementState (rememberDismissedAnnouncement u c t s) v d = unreadAnnouncementState s v d"
  by (simp add: unreadAnnouncementState_def readFlagMap_remember)

lemma isAnnouncementDismissed_write [store_simps]:
  "isAnnouncementDismissed (writeUnreadAnnouncement u c b s) v d t = isAnnouncementDismissed s v d t"
  by (simp add: isAnnouncementDismissed_def readStringMap_unread)

lemma no_unread_no_reminder [simp]:
  "effectiveGroupAtType t (Some 0) = 0" "effectiveGroupAtType t None = 0"
  by (simp_all add: effectiveGroupAtType_def)

section \<open>Properties\<close>

text \<open>C6: Closing an announcement is remembered exactly: after the user of account
  \<open>u\<close> closes the announcement \<open>t\<close> of a conversation, whatever the storage held before, an
  announcement \<open>t'\<close> of a conversation \<open>d\<close> counts as dismissed for account \<open>v\<close> iff it is
  that very text of that conversation under the same account key, or was dismissed before
  and is not the replaced entry (an edited announcement shows up again); and the unread
  flags of no account change.\<close>

theorem dismissal_is_remembered:
  assumes c: "c \<noteq> []" and d: "d \<noteq> []" and t': "t' \<noteq> []"
  shows "isAnnouncementDismissed (rememberDismissedAnnouncement u c t s) v d t' =
      (if dismissedKey v = dismissedKey u \<and> d = c then t = t' else isAnnouncementDismissed s v d t')
    \<and> unreadAnnouncementState (rememberDismissedAnnouncement u c t s) v d = unreadAnnouncementState s v d"
  using assms
  by (auto simp: isAnnouncementDismissed_def readStringMap_remember store_simps)

lemma dismissal_is_remembered_witness:
  "isAnnouncementDismissed (rememberDismissedAnnouncement ''u1'' ''sg_7'' ''new'' [(dismissedKey ''u1'', JArr [])])
     ''u1'' ''sg_7'' ''old'' = False"
  using dismissal_is_remembered [of "''sg_7''" "''sg_7''" "''old''" "''u1''" "''new''"
      "[(dismissedKey ''u1'', JArr [])]" "''u1''"]
  by simp

end
