(* ===== verification/ImIds.thy ===== *)
theory ImIds
  imports JsText
begin

text \<open>
  User, group and conversation identifiers (\<open>src/IM-APP-fronend/src/utils/openim.ts\<close>). The
  business backend names a user by a UUID with hyphens, the message server by the same
  UUID without them; a single chat's id is made of the two server ids, a group's of the
  group id. The functions here go between the three. The regular expressions of the source
  are written as recognisers.
\<close>

section \<open>The two spellings of a user id\<close>

definition hyphen :: char where "hyphen = CHR 0x2D"
definition underscore :: char where "underscore = CHR 0x5F"

definition im_user_id :: "string \<Rightarrow> bool" where
  "im_user_id s \<longleftrightarrow> length s = 32 \<and> list_all is_lower_hex s"

fun uuid_groups :: "nat list \<Rightarrow> string \<Rightarrow> bool" where
  "uuid_groups [] s = (s = [])"
| "uuid_groups [n] s = (length s = n \<and> list_all is_lower_hex s)"
| "uuid_groups (n # ns) s = (n < length s \<and> list_all is_lower_hex (take n s) \<and> s ! n = hyphen \<and>
     uuid_groups ns (drop (Suc n) s))"

definition business_uuid :: "string \<Rightarrow> bool" where
  "business_uuid s \<longleftrightarrow> uuid_groups [8, 4, 4, 4, 12] s"

text \<open>\<open>s.replace(/-/g, '')\<close>.\<close>

definition without_hyphens :: "string \<Rightarrow> string" where
  "without_hyphens s = filter (\<lambda>c. c \<noteq> hyphen) s"

definition slice :: "nat \<Rightarrow> nat \<Rightarrow> string \<Rightarrow> string" where
  "slice i j s = take (j - i) (drop i s)"

definition businessUserIdFromIM :: "string \<Rightarrow> string" where
  "businessUserIdFromIM openIMUserID =
     (let n = to_lower (trim openIMUserID) in
      if business_uuid n then n
      else if \<not> im_user_id n then []
      else slice 0 8 n @ [hyphen] @ slice 8 12 n @ [hyphen] @ slice 12 16 n @ [hyphen] @
           slice 16 20 n @ [hyphen] @ drop 20 n)"

text \<open>\<open>a || b\<close> on strings.\<close>

definition or_else :: "string \<Rightarrow> string \<Rightarrow> string" where
  "or_else a b = (if a = [] then b else a)"

definition sameBusinessUserId :: "string option \<Rightarrow> string option \<Rightarrow> bool" where
  "sameBusinessUserId a b = (case (a, b) of
     (Some x, Some y) \<Rightarrow>
       if x = [] \<or> y = [] then False
       else let l = or_else (businessUserIdFromIM x) (to_lower (without_hyphens x));
                r = or_else (businessUserIdFromIM y) (to_lower (without_hyphens y)) in
         to_lower (without_hyphens l) = to_lower (without_hyphens r)
   | _ \<Rightarrow> False)"

definition toOpenIMID :: "string \<Rightarrow> string" where
  "toOpenIMID i = (let n = to_lower (trim i) in
     if business_uuid n then without_hyphens n else trim i)"

definition peerIdFromSingleConversation :: "string \<Rightarrow> string \<Rightarrow> string" where
  "peerIdFromSingleConversation c selfId =
     (if \<not> starts_with c ''si_'' then []
      else let parts = filter (\<lambda>p. p \<noteq> []) (split_on underscore (drop 3 c)) in
        if length parts < 2 then []
        else case find (\<lambda>i. i \<noteq> [] \<and> i \<noteq> toOpenIMID selfId) (map toOpenIMID parts) of
               None \<Rightarrow> [] | Some i \<Rightarrow> i)"

section \<open>The conversation a message belongs to\<close>

datatype session_type = SingleSession | GroupSession | NotificationSession | OtherSession

text \<open>
  What the SDK may put on a message, in either of the two spellings its platforms use; a
  field that is \<open>null\<close> or \<open>undefined\<close> is \<open>None\<close>.
\<close>

record im_address =
  conversationID :: "string option"
  conversationID_pascal :: "string option"
  sessionType :: "session_type option"
  sessionType_pascal :: "session_type option"
  sendID :: "string option"
  sendID_pascal :: "string option"
  recvID :: "string option"
  recvID_pascal :: "string option"
  groupID :: "string option"
  groupID_pascal :: "string option"

fun coalesce :: "'a option \<Rightarrow> 'a option \<Rightarrow> 'a \<Rightarrow> 'a" where
  "coalesce (Some x) _ _ = x"
| "coalesce None (Some y) _ = y"
| "coalesce None None d = d"

text \<open>\<open>[a, b].sort()\<close>: the order of the character codes.\<close>

fun text_le :: "string \<Rightarrow> string \<Rightarrow> bool" where
  "text_le [] t = True"
| "text_le (c # s) [] = False"
| "text_le (c # s) (d # t) = (code c < code d \<or> code c = code d \<and> text_le s t)"

definition conversationIdOf :: "im_address \<Rightarrow> string" where
  "conversationIdOf m =
     (let fromSdk = trim (coalesce (conversationID m) (conversationID_pascal m) []);
          st = coalesce (sessionType m) (sessionType_pascal m) OtherSession;
          s = trim (coalesce (sendID m) (sendID_pascal m) []);
          r = trim (coalesce (recvID m) (recvID_pascal m) []);
          g = trim (coalesce (groupID m) (groupID_pascal m) []) in
      if fromSdk \<noteq> [] then fromSdk
      else if st = SingleSession then
        (if s = [] \<or> r = [] then []
         else ''si_'' @ (if text_le s r then s @ [underscore] @ r else r @ [underscore] @ s))
      else if st = NotificationSession then ''sn_'' @ s @ [underscore] @ r
      else if g = [] then [] else ''sg_'' @ g)"

definition groupIdFromConversationId :: "string \<Rightarrow> string" where
  "groupIdFromConversationId c = (if starts_with c ''sg_'' then drop 3 c else [])"

section \<open>Errors that mean "not in the group"\<close>

text \<open>\<open>/errCode=1002\b/\<close>: the text, not followed by a word character.\<close>

fun err_1002 :: "string \<Rightarrow> bool" where
  "err_1002 [] = False"
| "err_1002 (c # s) =
     (starts_with (c # s) ''errCode=1002'' \<and>
        (case drop 12 (c # s) of [] \<Rightarrow> True | d # _ \<Rightarrow> \<not> is_word d)
      \<or> err_1002 s)"

definition isNotInGroupIMError :: "string \<Rightarrow> bool" where
  "isNotInGroupIMError t \<longleftrightarrow>
     err_1002 t \<or>
     contains_text (to_lower t) ''nopermissionerror'' \<or>
     contains_text (to_lower t) ''not in group'' \<or>
     contains_text (to_lower t) ''op user not in group''"

definition isIMNotification :: "int \<Rightarrow> bool" where
  "isIMNotification contentType \<longleftrightarrow> 1000 \<le> contentType"

section \<open>Lemmas\<close>

lemma hyphen_not_hex [simp]: "\<not> is_lower_hex hyphen"
  by (simp add: hyphen_def is_lower_hex_def is_digit_def)

lemma hex_not_upper: "is_lower_hex c \<Longrightarrow> \<not> is_upper c"
  by (auto simp: is_lower_hex_def is_digit_def is_upper_def)

lemma hex_not_space: "is_lower_hex c \<Longrightarrow> \<not> is_space c"
  by (auto simp: is_lower_hex_def is_digit_def is_space_def)

lemma hex_not_underscore: "is_lower_hex c \<Longrightarrow> c \<noteq> underscore"
  by (auto simp: is_lower_hex_def is_digit_def underscore_def)

lemma to_lower_id: "\<forall>c \<in> set s. \<not> is_upper c \<Longrightarrow> to_lower s = s"
  by (induction s) (simp_all add: to_lower_def lower_char_def)

lemma dropWhile_none: "\<forall>c \<in> set s. \<not> P c \<Longrightarrow> dropWhile P s = s"
  by (cases s) auto

lemma trim_id: "\<forall>c \<in> set s. \<not> is_space c \<Longrightarrow> trim s = s"
  by (simp add: trim_def trim_start_def trim_end_def dropWhile_none)

lemma without_hyphens_id: "\<forall>c \<in> set s. c \<noteq> hyphen \<Longrightarrow> without_hyphens s = s"
  by (simp add: without_hyphens_def)

lemma without_hyphens_append [text_simps]:
  "without_hyphens (s @ t) = without_hyphens s @ without_hyphens t"
  by (simp add: without_hyphens_def)

lemma uuid_groups_Cons:
  "uuid_groups (n # m # ns) s \<longleftrightarrow>
   (\<exists>a t. s = a @ hyphen # t \<and> length a = n \<and> list_all is_lower_hex a \<and> uuid_groups (m # ns) t)"
  (is "?l = ?r")
proof
  assume l: ?l
  then have "s = take n s @ hyphen # drop (Suc n) s"
    by (metis id_take_nth_drop uuid_groups.simps(3))
  then show ?r
    using l by (intro exI [of _ "take n s"] exI [of _ "drop (Suc n) s"]) simp
next
  assume ?r
  then show ?l by auto
qed

lemma business_uuid_iff:
  "business_uuid s \<longleftrightarrow> (\<exists>a b c d e. s = a @ hyphen # b @ hyphen # c @ hyphen # d @ hyphen # e \<and>
     length a = 8 \<and> length b = 4 \<and> length c = 4 \<and> length d = 4 \<and> length e = 12 \<and>
     list_all is_lower_hex (a @ b @ c @ d @ e))"
  (is "?l = ?r")
proof
  assume ?l
  then show ?r
    unfolding business_uuid_def uuid_groups_Cons by (simp, blast)
next
  assume ?r
  then show ?l
    unfolding business_uuid_def by (elim exE conjE) (simp add: nth_append)
qed

lemma business_uuid_chars:
  "business_uuid s \<Longrightarrow> c \<in> set s \<Longrightarrow> is_lower_hex c \<or> c = hyphen"
  by (auto simp: business_uuid_iff list_all_iff)

lemma hyphen_class [simp]: "\<not> is_space hyphen" "\<not> is_upper hyphen" "hyphen \<noteq> underscore"
  by (simp_all add: hyphen_def is_space_def is_upper_def underscore_def)

lemma normal_id:
  assumes "\<forall>c \<in> set s. is_lower_hex c \<or> c = hyphen"
  shows "trim s = s" and "to_lower s = s"
  using assms hex_not_space hex_not_upper by (auto intro!: trim_id to_lower_id)

lemma im_user_id_chars: "im_user_id s \<Longrightarrow> c \<in> set s \<Longrightarrow> is_lower_hex c"
  by (auto simp: im_user_id_def list_all_iff)

lemma im_user_id_not_uuid: "im_user_id s \<Longrightarrow> \<not> business_uuid s"
  by (auto simp: business_uuid_iff im_user_id_def)

lemma im_user_id_normal [simp]: "im_user_id s \<Longrightarrow> trim s = s" "im_user_id s \<Longrightarrow> to_lower s = s"
  using im_user_id_chars normal_id by blast+

lemma business_uuid_normal [simp]: "business_uuid s \<Longrightarrow> trim s = s" "business_uuid s \<Longrightarrow> to_lower s = s"
  using business_uuid_chars normal_id by blast+

lemma without_hyphens_hex: "list_all is_lower_hex s \<Longrightarrow> without_hyphens s = s"
  by (rule without_hyphens_id) (auto simp: list_all_iff)

lemma without_hyphens_Cons [text_simps]: "without_hyphens (hyphen # s) = without_hyphens s"
  by (simp add: without_hyphens_def)

lemma businessUserIdFromIM_uuid [simp]: "business_uuid u \<Longrightarrow> businessUserIdFromIM u = u"
  by (simp add: businessUserIdFromIM_def)

lemma toOpenIMID_uuid [simp]: "business_uuid u \<Longrightarrow> toOpenIMID u = without_hyphens u"
  by (simp add: toOpenIMID_def)

lemma toOpenIMID_im [simp]: "im_user_id i \<Longrightarrow> toOpenIMID i = i"
  by (simp add: toOpenIMID_def im_user_id_not_uuid)

lemma slice_drop: "j \<le> k \<Longrightarrow> slice j k s @ drop k s = drop j s"
  using append_take_drop_id [of "k - j" "drop j s"] by (simp add: slice_def)

lemma uuid_to_im:
  assumes "business_uuid u"
  shows "im_user_id (without_hyphens u) \<and> businessUserIdFromIM (without_hyphens u) = u"
proof -
  obtain a b c d e where u: "u = a @ hyphen # b @ hyphen # c @ hyphen # d @ hyphen # e"
    and len: "length a = 8" "length b = 4" "length c = 4" "length d = 4" "length e = 12"
    and hex: "list_all is_lower_hex (a @ b @ c @ d @ e)"
    using assms unfolding business_uuid_iff by blast
  have w: "without_hyphens u = a @ b @ c @ d @ e"
    using hex by (simp add: u text_simps without_hyphens_hex)
  with len hex have im: "im_user_id (without_hyphens u)"
    by (simp add: im_user_id_def)
  moreover have "businessUserIdFromIM (without_hyphens u) = u"
    using len by (simp add: businessUserIdFromIM_def Let_def im im_user_id_not_uuid [OF im])
      (simp add: w slice_def, simp add: u)
  ultimately show ?thesis by simp
qed

lemma im_to_uuid:
  assumes "im_user_id i"
  shows "business_uuid (businessUserIdFromIM i) \<and> without_hyphens (businessUserIdFromIM i) = i"
proof -
  define a b c d e where "a = slice 0 8 i" and "b = slice 8 12 i" and "c = slice 12 16 i"
    and "d = slice 16 20 i" and "e = drop 20 i"
  note parts = a_def b_def c_def d_def e_def
  have len: "length i = 32" and hex: "list_all is_lower_hex i"
    using assms by (auto simp: im_user_id_def)
  have i: "i = a @ b @ c @ d @ e"
    unfolding parts by (simp add: slice_drop slice_drop [of 0, simplified])
  have b: "businessUserIdFromIM i = a @ hyphen # b @ hyphen # c @ hyphen # d @ hyphen # e"
    using assms by (simp add: businessUserIdFromIM_def Let_def im_user_id_not_uuid parts)
  have "list_all is_lower_hex (a @ b @ c @ d @ e)" using hex i by metis
  then have hx: "list_all is_lower_hex a" "list_all is_lower_hex b" "list_all is_lower_hex c"
    "list_all is_lower_hex d" "list_all is_lower_hex e" by simp_all
  have ln: "length a = 8" "length b = 4" "length c = 4" "length d = 4" "length e = 12"
    using len by (simp_all add: parts slice_def)
  have "without_hyphens (businessUserIdFromIM i) = i"
    unfolding b using i by (simp only: text_simps hx without_hyphens_hex)
  moreover have "business_uuid (businessUserIdFromIM i)"
    unfolding b business_uuid_iff using ln hx
    by (intro conjI exI [of _ a] exI [of _ b] exI [of _ c] exI [of _ d] exI [of _ e])
      (simp_all only: list_all_append refl simp_thms)
  ultimately show ?thesis by simp
qed

lemma split_on_none: "\<forall>x \<in> set s. x \<noteq> c \<Longrightarrow> split_on c s = [s]"
  by (induction s) auto

lemma split_on_append: "\<forall>x \<in> set s. x \<noteq> c \<Longrightarrow> split_on c (s @ c # t) = s # split_on c t"
  by (induction s) auto

lemma im_user_id_no_underscore: "im_user_id s \<Longrightarrow> \<forall>x \<in> set s. x \<noteq> underscore"
  using im_user_id_chars hex_not_underscore by blast

lemma im_user_id_not_Nil [simp]: "im_user_id s \<Longrightarrow> s \<noteq> []"
  by (auto simp: im_user_id_def)

lemma business_uuid_not_Nil [simp]: "business_uuid s \<Longrightarrow> s \<noteq> []"
  by (auto simp: business_uuid_iff)

lemma text_le_total: "text_le s t \<or> text_le t s"
  by (induction s t rule: text_le.induct) auto

lemma text_le_antisym: "text_le s t \<Longrightarrow> text_le t s \<Longrightarrow> s = t"
  by (induction s t rule: text_le.induct) (auto, (case_tac t; simp)?)

lemma single_parts:
  "im_user_id a \<Longrightarrow> im_user_id b \<Longrightarrow>
   filter (\<lambda>p. p \<noteq> []) (split_on underscore (a @ underscore # b)) = [a, b]"
  by (simp add: split_on_append split_on_none im_user_id_no_underscore)

text \<open>A single-chat message as the native bridges deliver it: no conversation id, camel case.\<close>

definition single_message :: "string \<Rightarrow> string \<Rightarrow> im_address" where
  "single_message s r = \<lparr>conversationID = None, conversationID_pascal = None,
     sessionType = Some SingleSession, sessionType_pascal = None, sendID = Some s, sendID_pascal = None,
     recvID = Some r, recvID_pascal = None, groupID = None, groupID_pascal = None\<rparr>"

lemma conversationIdOf_single:
  "im_user_id a \<Longrightarrow> im_user_id b \<Longrightarrow> conversationIdOf (single_message a b) =
     ''si_'' @ (if text_le a b then a @ [underscore] @ b else b @ [underscore] @ a)"
  by (simp add: conversationIdOf_def single_message_def Let_def)

lemma toOpenIMID_self: "im_user_id a \<Longrightarrow> self = a \<or> self = businessUserIdFromIM a \<Longrightarrow> toOpenIMID self = a"
  using im_to_uuid by auto

section \<open>Properties\<close>

text \<open>C7: The two spellings of a user id are a bijection: a business UUID sent to the message
  server and read back is the same UUID, a server id turned into a UUID and sent back is the
  same server id, and the two name the same user exactly when one is the other's spelling.\<close>

theorem user_id_roundtrip:
  assumes u: "business_uuid u" and i: "im_user_id i"
  shows "im_user_id (toOpenIMID u) \<and> businessUserIdFromIM (toOpenIMID u) = u \<and>
     business_uuid (businessUserIdFromIM i) \<and> toOpenIMID (businessUserIdFromIM i) = i \<and>
     (sameBusinessUserId (Some u) (Some i) \<longleftrightarrow> toOpenIMID u = i)"
  using uuid_to_im [OF u] im_to_uuid [OF i] u i
  by (simp add: sameBusinessUserId_def or_else_def)

lemma user_id_roundtrip_witness:
  "businessUserIdFromIM (toOpenIMID ''0123abcd-0000-4000-8000-0123456789ab'') = ''0123abcd-0000-4000-8000-0123456789ab''"
proof -
  have u: "business_uuid ''0123abcd-0000-4000-8000-0123456789ab''" by code_simp
  have i: "im_user_id ''0123abcd0000400080000123456789ab''" by code_simp
  show ?thesis using user_id_roundtrip [OF u i] by blast
qed

text \<open>A single chat has one conversation id: a message from \<open>a\<close> to \<open>b\<close> and one from \<open>b\<close> to
  \<open>a\<close> belong to the same conversation, and from that id each side, knowing its own account
  in either spelling, recovers the other one as the receiver to send to.\<close>

theorem single_chat_peer:
  assumes a: "im_user_id a" and b: "im_user_id b" and ab: "a \<noteq> b"
    and self: "self = a \<or> self = businessUserIdFromIM a"
  shows "conversationIdOf (single_message a b) = conversationIdOf (single_message b a) \<and>
     peerIdFromSingleConversation (conversationIdOf (single_message a b)) self = b"
proof
  show "conversationIdOf (single_message a b) = conversationIdOf (single_message b a)"
    using a b text_le_total [of a b] text_le_antisym [of a b] by (auto simp: conversationIdOf_single)
  show "peerIdFromSingleConversation (conversationIdOf (single_message a b)) self = b"
    using a b ab single_parts [OF a b] single_parts [OF b a] toOpenIMID_self [OF a self]
    by (auto simp: conversationIdOf_single peerIdFromSingleConversation_def starts_with_def Let_def)
qed

lemma single_chat_peer_witness:
  "peerIdFromSingleConversation (conversationIdOf
     (single_message ''ffffabcd0000400080000123456789ab'' ''0123abcd0000400080000123456789ab''))
     ''ffffabcd-0000-4000-8000-0123456789ab'' = ''0123abcd0000400080000123456789ab''"
proof -
  have a: "im_user_id ''ffffabcd0000400080000123456789ab''" by code_simp
  have b: "im_user_id ''0123abcd0000400080000123456789ab''" by code_simp
  have s: "''ffffabcd-0000-4000-8000-0123456789ab'' = businessUserIdFromIM ''ffffabcd0000400080000123456789ab''"
    by code_simp
  show ?thesis by (rule single_chat_peer [OF a b _ disjI2 [OF s], THEN conjunct2]) simp
qed

end
