(* ===== verification/ChatConversations.thy ===== *)
theory ChatConversations
  imports GroupRetention GroupAnnouncement ImIds
begin

text \<open>
  The conversation list of the chat store, \<open>src/IM-APP-fronend/src/stores/chat.ts\<close>: the data
  model (\<open>src/IM-APP-fronend/src/types/chat.ts\<close>), the state of the store, the local sets of hidden,
  exited and blocked conversations with their storage, and how a conversation row is made from
  the SDK's item, decorated, merged with the row already shown, and sorted.

  Dates: the code keeps \<open>lastMessageAt\<close> as an ISO string written by \<open>toISOString\<close>, or the empty
  string; here it is the millisecond the string stands for, \<open>None\<close> for the empty string
  (whose \<open>getTime()\<close> is \<open>NaN\<close>). The avatar of a row is only carried along and left out.
\<close>

section \<open>Data\<close>

datatype message_kind = KText | KImage | KVoice | KVideo | KFile | KCard | KGroupInvite | KSystem

datatype message_status = Sending | Sent | Failed

text \<open>\<open>status?\<close>, \<open>seq?\<close> and \<open>quote?\<close> are optional; presentation-only fields are not kept.\<close>

record chat_message =
  m_id :: string
  m_conversation :: string
  senderId :: string
  senderNickname :: "string option"
  m_type :: message_kind
  m_content :: string
  createdAt :: int
  notificationKind :: "string option"
  quoted_id :: "string option"
  hasRead :: bool
  m_seq :: "int option"
  trackGroupRead :: bool
  m_status :: "message_status option"

record pin =
  pin_id :: string
  pin_preview :: string
  pin_sender :: string
  pin_kind :: string
  pin_shared :: bool
  pinnedAt :: int

text \<open>\<open>pinnedMessage?: ... | null\<close>.\<close>

datatype pin_field = PinUndefined | PinNull | PinSet pin

datatype conversation_kind = PrivateChat | GroupChat

record conversation =
  c_id :: string
  c_type :: conversation_kind
  title :: string
  lastMessage :: string
  lastMessageAt :: "int option"
  lastMessageSeq :: "int option"
  lastMessageId :: "string option"
  unreadCount :: int
  highlightTags :: "preview_tag list"
  groupAtType :: "int option"
  pinned :: bool
  pinnedMessage :: pin_field
  recvMsgOpt :: "int option"
  peerUserId :: "string option"
  c_group :: "string option"

text \<open>
  A raw SDK message as the store reads it: its id, its addressing fields, its content type,
  the object the retention class reads the sequence number from, the number \<open>seqOf\<close> reads,
  the pin payload if it is a pin synchronisation message, and what the content decoders
  make of it (the fields of \<open>view\<close> that \<open>toChatMessage\<close> below does not set itself).
\<close>

datatype pin_payload = PayloadPin pin | PayloadUnpin

record message_item =
  clientMsgID :: string
  address :: im_address
  contentType :: int
  raw :: jsval
  seq_of :: int
  pin_of :: "pin_payload option"
  view :: chat_message

text \<open>A raw SDK conversation as \<open>toConversation\<close> reads it, in either spelling of the fields.\<close>

record conversation_item =
  item_conversation :: string
  item_single :: bool
  item_group :: string
  item_remark :: string
  item_show_name :: string
  item_unread :: int
  item_group_at :: int
  item_latest :: jsval
  item_latest_id :: string
  item_summary :: string
  item_send_time :: int
  item_pinned :: bool
  item_pin :: "pin option"
  item_recv_opt :: int
  item_user :: string

section \<open>The state of the store\<close>

text \<open>
  \<open>retained\<close> is the retention singleton, \<open>storage\<close> the device storage, \<open>imUserId\<close> the
  account the message server knows us by, \<open>remarks\<close> the contact store's \<open>remarkByUserId\<close>.
  The sets keep their insertion order, which is the order \<open>Array.from\<close> writes them in.
\<close>

record chat_state =
  conversations :: "conversation list"
  messagesMap :: "(string, chat_message list) jsmap"
  rawMessages :: "(string, message_item) jsmap"
  historyEnd :: "(string, bool) jsmap"
  hiddenIds :: "string list"
  exitedGroupIds :: "string list"
  blockedPeerKeys :: "string list"
  storage :: device_storage
  retained :: retention
  imUserId :: string
  remarks :: "(string, string) jsmap"
  activeConversationId :: string
  sessionGeneration :: nat
  placeholderSeq :: nat

definition set_add :: "'a \<Rightarrow> 'a list \<Rightarrow> 'a list" where
  "set_add x xs = (if x \<in> set xs then xs else xs @ [x])"

definition set_remove :: "'a \<Rightarrow> 'a list \<Rightarrow> 'a list" where
  "set_remove x xs = filter (\<lambda>y. y \<noteq> x) xs"

text \<open>What the retention class sees of \<open>{ seq }\<close> and of a chat message.\<close>

definition seq_view :: "int option \<Rightarrow> jsval" where
  "seq_view s = (case s of None \<Rightarrow> JObj [] | Some n \<Rightarrow> JObj [(''seq'', JInt n)])"

abbreviation message_view :: "chat_message \<Rightarrow> jsval" where
  "message_view m \<equiv> seq_view (m_seq m)"

abbreviation messages_of :: "chat_state \<Rightarrow> string \<Rightarrow> chat_message list" where
  "messages_of st c \<equiv> map_list (messagesMap st) c"

definition conversation_at :: "chat_state \<Rightarrow> string \<Rightarrow> conversation option" where
  "conversation_at st c = find (\<lambda>x. c_id x = c) (conversations st)"

section \<open>Hidden, exited and blocked\<close>

definition storage_user :: "chat_state \<Rightarrow> string" where
  "storage_user st = (if imUserId st = [] then ''anon'' else imUserId st)"

definition hiddenStorageKey :: "chat_state \<Rightarrow> string" where
  "hiddenStorageKey st = ''chat:hidden-conversations:'' @ storage_user st"

definition exitedGroupStorageKey :: "chat_state \<Rightarrow> string" where
  "exitedGroupStorageKey st = ''chat:exited-group-conversations:'' @ storage_user st"

definition blockedPeerStorageKey :: "chat_state \<Rightarrow> string" where
  "blockedPeerStorageKey st = ''chat:blocked-peers:'' @ storage_user st"

definition normalizePeerKey :: "string \<Rightarrow> string" where
  "normalizePeerKey i = to_lower (without_hyphens (or_else (businessUserIdFromIM i) i))"

text \<open>\<open>parse\<close> is \<open>JSON.parse\<close>, \<open>None\<close> when it throws.\<close>

fun text_items :: "jsval list \<Rightarrow> string list" where
  "text_items [] = []"
| "text_items (v # vs) = (case v of JStr s \<Rightarrow> if s \<noteq> [] then s # text_items vs else text_items vs
                                  | _ \<Rightarrow> text_items vs)"

definition normalizeHiddenIdList :: "(string \<Rightarrow> jsval option) \<Rightarrow> jsval \<Rightarrow> string list" where
  "normalizeHiddenIdList parse v = (case v of
     JArr vs \<Rightarrow> text_items vs
   | JStr s \<Rightarrow>
       if s = [] then []
       else (case parse s of
               Some (JArr vs) \<Rightarrow> text_items vs
             | Some (JStr t) \<Rightarrow> (case parse t of Some (JArr vs) \<Rightarrow> text_items vs | _ \<Rightarrow> [])
             | _ \<Rightarrow> [])
   | _ \<Rightarrow> [])"

text \<open>\<open>readHiddenIds\<close>, \<open>readExitedGroupIds\<close>, \<open>readBlockedPeerKeys\<close> and their writers, by key.\<close>

definition read_id_set :: "(string \<Rightarrow> jsval option) \<Rightarrow> device_storage \<Rightarrow> string \<Rightarrow> string list" where
  "read_id_set parse s k = js_uniq (normalizeHiddenIdList parse (storage_read s k))"

definition write_id_set :: "string \<Rightarrow> string list \<Rightarrow> device_storage \<Rightarrow> device_storage" where
  "write_id_set k ids s = map_set k (JArr (map JStr ids)) s"

definition set_hidden :: "string list \<Rightarrow> chat_state \<Rightarrow> chat_state" where
  "set_hidden ids st = st\<lparr>hiddenIds := ids, storage := write_id_set (hiddenStorageKey st) ids (storage st)\<rparr>"

definition set_exited :: "string list \<Rightarrow> chat_state \<Rightarrow> chat_state" where
  "set_exited ids st =
     st\<lparr>exitedGroupIds := ids, storage := write_id_set (exitedGroupStorageKey st) ids (storage st)\<rparr>"

definition set_blocked :: "string list \<Rightarrow> chat_state \<Rightarrow> chat_state" where
  "set_blocked ids st =
     st\<lparr>blockedPeerKeys := ids, storage := write_id_set (blockedPeerStorageKey st) ids (storage st)\<rparr>"

text \<open>\<open>isBlockedPeer(peerUserId?)\<close>; \<open>undefined\<close> and the empty id are not blocked.\<close>

definition isBlockedPeer :: "chat_state \<Rightarrow> string option \<Rightarrow> bool" where
  "isBlockedPeer st p = (case p of None \<Rightarrow> False
     | Some i \<Rightarrow> i \<noteq> [] \<and> normalizePeerKey i \<in> set (blockedPeerKeys st))"

definition markPeerBlocked :: "string \<Rightarrow> chat_state \<Rightarrow> chat_state" where
  "markPeerBlocked contactId st =
     (if contactId = [] then st
      else set_blocked (set_add (normalizePeerKey contactId) (blockedPeerKeys st)) st)"

definition markPeerUnblocked :: "string \<Rightarrow> chat_state \<Rightarrow> chat_state" where
  "markPeerUnblocked contactId st =
     (if contactId = [] then st
      else set_blocked (set_remove (normalizePeerKey contactId) (blockedPeerKeys st)) st)"

definition syncHiddenIdsFromStorage :: "(string \<Rightarrow> jsval option) \<Rightarrow> chat_state \<Rightarrow> chat_state" where
  "syncHiddenIdsFromStorage parse st =
     st\<lparr>hiddenIds := read_id_set parse (storage st) (hiddenStorageKey st)\<rparr>"

definition syncExitedGroupIdsFromStorage :: "(string \<Rightarrow> jsval option) \<Rightarrow> chat_state \<Rightarrow> chat_state" where
  "syncExitedGroupIdsFromStorage parse st =
     st\<lparr>exitedGroupIds := read_id_set parse (storage st) (exitedGroupStorageKey st)\<rparr>"

definition syncBlockedPeerKeysFromStorage :: "(string \<Rightarrow> jsval option) \<Rightarrow> chat_state \<Rightarrow> chat_state" where
  "syncBlockedPeerKeysFromStorage parse st =
     st\<lparr>blockedPeerKeys := read_id_set parse (storage st) (blockedPeerStorageKey st)\<rparr>"

definition shouldShowConversation :: "chat_state \<Rightarrow> conversation \<Rightarrow> bool" where
  "shouldShowConversation st c =
     (if c_id c \<in> set (hiddenIds st) \<or> c_id c \<in> set (exitedGroupIds st) then False
      else if c_type c = PrivateChat \<and> isBlockedPeer st (peerUserId c) then False
      else True)"

definition unhideConversation :: "string \<Rightarrow> chat_state \<Rightarrow> chat_state" where
  "unhideConversation c st =
     (if c = [] \<or> c \<notin> set (hiddenIds st) then st
      else let peer = or_else (case conversation_at st c of
                                 Some x \<Rightarrow> (case peerUserId x of Some p \<Rightarrow> p | None \<Rightarrow> [])
                               | None \<Rightarrow> [])
                        (peerIdFromSingleConversation c (imUserId st)) in
        if peer \<noteq> [] \<and> isBlockedPeer st (Some peer) then st
        else set_hidden (set_remove c (hiddenIds st)) st)"

text \<open>The watcher of \<open>imUserId\<close>: another account's sets, then the list filtered by them.\<close>

definition user_changed :: "(string \<Rightarrow> jsval option) \<Rightarrow> string \<Rightarrow> chat_state \<Rightarrow> chat_state" where
  "user_changed parse u st =
     (let st' = syncBlockedPeerKeysFromStorage parse (syncExitedGroupIdsFromStorage parse
                  (syncHiddenIdsFromStorage parse (st\<lparr>imUserId := u\<rparr>))) in
      st'\<lparr>conversations := filter (shouldShowConversation st') (conversations st')\<rparr>)"

text \<open>\<open>syncBlockedPeersFromServer\<close> after its \<open>await\<close>: \<open>None\<close> when the request failed.\<close>

definition blocked_from_server :: "string list option \<Rightarrow> chat_state \<Rightarrow> chat_state" where
  "blocked_from_server answer st = (case answer of
     None \<Rightarrow> st
   | Some ids \<Rightarrow>
       let st' = set_blocked (js_uniq (map normalizePeerKey (filter (\<lambda>i. i \<noteq> []) ids))) st in
       if conversations st' \<noteq> [] \<and> blockedPeerKeys st' \<noteq> []
       then st'\<lparr>conversations := filter (shouldShowConversation st') (conversations st')\<rparr>
       else st')"

section \<open>Lemmas\<close>

lemma set_set_add [simp]: "set (set_add x xs) = insert x (set xs)"
  by (auto simp: set_add_def)

lemma set_set_remove [simp]: "set (set_remove x xs) = set xs - {x}"
  by (auto simp: set_remove_def)

lemma distinct_set_add [simp]: "distinct xs \<Longrightarrow> distinct (set_add x xs)"
  by (simp add: set_add_def)

lemma distinct_set_remove [simp]: "distinct xs \<Longrightarrow> distinct (set_remove x xs)"
  by (simp add: set_remove_def)

text \<open>A set the storage can hold: no duplicates, no empty id.\<close>

definition storable :: "string list \<Rightarrow> bool" where
  "storable ids \<longleftrightarrow> distinct ids \<and> [] \<notin> set ids"

lemma storable_add [simp]: "storable ids \<Longrightarrow> i \<noteq> [] \<Longrightarrow> storable (set_add i ids)"
  by (simp add: storable_def)

lemma storable_remove [simp]: "storable ids \<Longrightarrow> storable (set_remove i ids)"
  by (auto simp: storable_def)

lemma text_items_strings: "text_items (map JStr ids) = filter (\<lambda>i. i \<noteq> []) ids"
  by (induction ids) auto

lemma text_items_nonempty: "[] \<notin> set (text_items vs)"
  by (induction vs) (auto split: jsval.splits)

lemma storable_read [simp]: "storable (read_id_set parse s k)"
  by (auto simp: storable_def read_id_set_def normalizeHiddenIdList_def text_items_nonempty
      split: jsval.splits option.splits)

lemma read_written_id_set:
  "storable ids \<Longrightarrow> read_id_set parse (write_id_set k ids s) k = ids"
proof -
  assume "storable ids"
  then have "distinct ids" "filter (\<lambda>i. i \<noteq> []) ids = ids"
    by (auto simp: storable_def intro!: filter_True)
  then show ?thesis
    by (simp add: read_id_set_def write_id_set_def normalizeHiddenIdList_def text_items_strings)
qed

lemma storage_read_write_other [simp]:
  "k \<noteq> j \<Longrightarrow> storage_read (write_id_set k ids s) j = storage_read s j"
  by (simp add: write_id_set_def)

lemma read_id_set_other [simp]:
  "k \<noteq> j \<Longrightarrow> read_id_set parse (write_id_set k ids s) j = read_id_set parse s j"
  by (simp add: read_id_set_def)

lemma id_keys_disjoint [simp]:
  "hiddenStorageKey st \<noteq> exitedGroupStorageKey st'" "exitedGroupStorageKey st' \<noteq> hiddenStorageKey st"
  "hiddenStorageKey st \<noteq> blockedPeerStorageKey st'" "blockedPeerStorageKey st' \<noteq> hiddenStorageKey st"
  "exitedGroupStorageKey st \<noteq> blockedPeerStorageKey st'" "blockedPeerStorageKey st' \<noteq> exitedGroupStorageKey st"
  by (simp_all add: hiddenStorageKey_def exitedGroupStorageKey_def blockedPeerStorageKey_def)

lemma id_keys_user:
  "imUserId st = imUserId st' \<Longrightarrow> hiddenStorageKey st = hiddenStorageKey st'"
  "imUserId st = imUserId st' \<Longrightarrow> exitedGroupStorageKey st = exitedGroupStorageKey st'"
  "imUserId st = imUserId st' \<Longrightarrow> blockedPeerStorageKey st = blockedPeerStorageKey st'"
  by (simp_all add: hiddenStorageKey_def exitedGroupStorageKey_def blockedPeerStorageKey_def storage_user_def)

lemma id_keys_update [simp]:
  "hiddenStorageKey (st\<lparr>hiddenIds := ids\<rparr>) = hiddenStorageKey st"
  "exitedGroupStorageKey (st\<lparr>hiddenIds := ids\<rparr>) = exitedGroupStorageKey st"
  "blockedPeerStorageKey (st\<lparr>hiddenIds := ids\<rparr>) = blockedPeerStorageKey st"
  "exitedGroupStorageKey (st\<lparr>exitedGroupIds := ids\<rparr>) = exitedGroupStorageKey st"
  "blockedPeerStorageKey (st\<lparr>exitedGroupIds := ids\<rparr>) = blockedPeerStorageKey st"
  by (simp_all add: hiddenStorageKey_def exitedGroupStorageKey_def blockedPeerStorageKey_def storage_user_def)

lemma set_hidden_frame [store_simps]:
  "hiddenIds (set_hidden ids st) = ids"
  "exitedGroupIds (set_hidden ids st) = exitedGroupIds st"
  "blockedPeerKeys (set_hidden ids st) = blockedPeerKeys st"
  "conversations (set_hidden ids st) = conversations st"
  "messagesMap (set_hidden ids st) = messagesMap st"
  "rawMessages (set_hidden ids st) = rawMessages st"
  "historyEnd (set_hidden ids st) = historyEnd st"
  "retained (set_hidden ids st) = retained st"
  "imUserId (set_hidden ids st) = imUserId st"
  "activeConversationId (set_hidden ids st) = activeConversationId st"
  "sessionGeneration (set_hidden ids st) = sessionGeneration st"
  "placeholderSeq (set_hidden ids st) = placeholderSeq st"
  "storage (set_hidden ids st) = write_id_set (hiddenStorageKey st) ids (storage st)"
  by (simp_all add: set_hidden_def)

lemma set_exited_frame [store_simps]:
  "exitedGroupIds (set_exited ids st) = ids"
  "hiddenIds (set_exited ids st) = hiddenIds st"
  "blockedPeerKeys (set_exited ids st) = blockedPeerKeys st"
  "conversations (set_exited ids st) = conversations st"
  "messagesMap (set_exited ids st) = messagesMap st"
  "rawMessages (set_exited ids st) = rawMessages st"
  "historyEnd (set_exited ids st) = historyEnd st"
  "retained (set_exited ids st) = retained st"
  "imUserId (set_exited ids st) = imUserId st"
  "activeConversationId (set_exited ids st) = activeConversationId st"
  "sessionGeneration (set_exited ids st) = sessionGeneration st"
  "placeholderSeq (set_exited ids st) = placeholderSeq st"
  "storage (set_exited ids st) = write_id_set (exitedGroupStorageKey st) ids (storage st)"
  by (simp_all add: set_exited_def)

lemma set_blocked_frame [store_simps]:
  "blockedPeerKeys (set_blocked ids st) = ids"
  "hiddenIds (set_blocked ids st) = hiddenIds st"
  "exitedGroupIds (set_blocked ids st) = exitedGroupIds st"
  "conversations (set_blocked ids st) = conversations st"
  "messagesMap (set_blocked ids st) = messagesMap st"
  "rawMessages (set_blocked ids st) = rawMessages st"
  "historyEnd (set_blocked ids st) = historyEnd st"
  "retained (set_blocked ids st) = retained st"
  "imUserId (set_blocked ids st) = imUserId st"
  "activeConversationId (set_blocked ids st) = activeConversationId st"
  "sessionGeneration (set_blocked ids st) = sessionGeneration st"
  "placeholderSeq (set_blocked ids st) = placeholderSeq st"
  "storage (set_blocked ids st) = write_id_set (blockedPeerStorageKey st) ids (storage st)"
  by (simp_all add: set_blocked_def)

lemma isBlockedPeer_cong:
  "blockedPeerKeys st = blockedPeerKeys st' \<Longrightarrow> isBlockedPeer st = isBlockedPeer st'"
  by (auto simp: isBlockedPeer_def fun_eq_iff split: option.split)

lemma shouldShowConversation_cong:
  "hiddenIds st = hiddenIds st' \<Longrightarrow> exitedGroupIds st = exitedGroupIds st' \<Longrightarrow>
   blockedPeerKeys st = blockedPeerKeys st' \<Longrightarrow> shouldShowConversation st = shouldShowConversation st'"
  using isBlockedPeer_cong [of st st'] by (simp add: shouldShowConversation_def fun_eq_iff)

lemma shouldShowConversation_list [simp]:
  "shouldShowConversation (st\<lparr>conversations := cs\<rparr>) = shouldShowConversation st"
  by (rule shouldShowConversation_cong) simp_all

lemma shouldShowConversation_iff:
  "shouldShowConversation st c \<longleftrightarrow> c_id c \<notin> set (hiddenIds st) \<and> c_id c \<notin> set (exitedGroupIds st) \<and>
     \<not> (c_type c = PrivateChat \<and> isBlockedPeer st (peerUserId c))"
  by (auto simp: shouldShowConversation_def)

lemma user_changed_list:
  "set (conversations (user_changed parse u st)) =
     {c \<in> set (conversations st). shouldShowConversation (user_changed parse u st) c}"
  by (auto simp: user_changed_def Let_def syncHiddenIdsFromStorage_def syncExitedGroupIdsFromStorage_def
      syncBlockedPeerKeysFromStorage_def)

lemma user_changed_sets:
  assumes "imUserId st0 = u"
  shows "hiddenIds (user_changed parse u st) = read_id_set parse (storage st) (hiddenStorageKey st0)"
    and "exitedGroupIds (user_changed parse u st) = read_id_set parse (storage st) (exitedGroupStorageKey st0)"
    and "blockedPeerKeys (user_changed parse u st) = read_id_set parse (storage st) (blockedPeerStorageKey st0)"
  using assms
  by (auto simp: user_changed_def Let_def syncHiddenIdsFromStorage_def syncExitedGroupIdsFromStorage_def
      syncBlockedPeerKeysFromStorage_def hiddenStorageKey_def exitedGroupStorageKey_def
      blockedPeerStorageKey_def storage_user_def)

end
