(* ===== verification/ChatPreview.thy ===== *)
theory ChatPreview
  imports ChatConversations
begin

text \<open>
  The rows of the conversation list in \<open>src/IM-APP-fronend/src/stores/chat.ts\<close>: how the SDK's item
  becomes a row (\<open>toConversation\<close> of \<open>utils/openim.ts\<close>), how retention and announcements decorate
  it, how a row already shown and one from the SDK merge (\<open>keepNewerPreview\<close>), and the order of
  the list.
\<close>

section \<open>Retention applied to a preview\<close>

definition sanitizeRetentionPreview :: "retention \<Rightarrow> conversation \<Rightarrow> conversation" where
  "sanitizeRetentionPreview r conv =
     (let latest = seq_view (lastMessageSeq conv) in
      if removed r (c_id conv) latest
      then conv\<lparr>lastMessage := [], lastMessageAt := None, unreadCount := 0, groupAtType := Some 0,
                highlightTags := []\<rparr>
      else conv\<lparr>unreadCount := unread r (c_id conv) latest (unreadCount conv)\<rparr>)"

section \<open>A row from the SDK's item\<close>

text \<open>\<open>x || undefined\<close>.\<close>

definition nonempty :: "string \<Rightarrow> string option" where
  "nonempty s = (if s = [] then None else Some s)"

definition nonzero :: "int \<Rightarrow> int option" where
  "nonzero n = (if n = 0 then None else Some n)"

text \<open>\<open>now\<close> is \<open>Date.now()\<close>, which a missing send time falls back to.\<close>

definition toConversation :: "int \<Rightarrow> chat_state \<Rightarrow> conversation_item \<Rightarrow> conversation" where
  "toConversation now st item =
     (let i = item_conversation item;
          isGroup = (\<not> item_single item);
          g = or_else (item_group item) (groupIdFromConversationId i);
          remark = (if isGroup then item_remark item else []);
          atType = effectiveGroupAtType (Some (item_group_at item)) (Some (item_unread item));
          latest = item_latest item;
          latestRemoved = removed (retained st) i latest;
          u = (if \<not> isGroup \<and> item_user item = [] then peerIdFromSingleConversation i (imUserId st)
               else item_user item)
      in \<lparr>c_id = i, c_type = (if isGroup then GroupChat else PrivateChat),
          title = or_else remark (item_show_name item),
          lastMessage = (if latestRemoved then [] else item_summary item),
          lastMessageAt = (if latestRemoved then None
                           else Some (if item_send_time item = 0 then now else item_send_time item)),
          lastMessageSeq = nonzero (retentionSeq latest),
          lastMessageId = nonempty (item_latest_id item),
          unreadCount = (if latestRemoved then 0 else unread (retained st) i latest (item_unread item)),
          highlightTags = (if latestRemoved then [] else highlightTagsOf (Some atType) False),
          groupAtType = Some (if latestRemoved then 0 else item_group_at item),
          pinned = item_pinned item,
          pinnedMessage = (case item_pin item of None \<Rightarrow> PinNull | Some p \<Rightarrow> PinSet p),
          recvMsgOpt = Some (item_recv_opt item),
          peerUserId = nonempty u,
          c_group = nonempty g\<rparr>)"

section \<open>Decoration\<close>

text \<open>\<open>text.replace(/p/g, r)\<close> for a literal \<open>p\<close> and an \<open>r\<close> without \<open>$\<close>.\<close>

function replace_all :: "string \<Rightarrow> string \<Rightarrow> string \<Rightarrow> string" where
  "replace_all p r s =
     (if s = [] \<or> p = [] then s
      else if starts_with s p then r @ replace_all p r (drop (length p) s)
      else hd s # replace_all p r (tl s))"
  by pat_completeness auto
termination
  by (relation "measure (\<lambda>(p, r, s). length s)") auto

declare replace_all.simps [simp del]

text \<open>The label of the group owner, in UTF-8.\<close>

definition owner_label :: string where
  "owner_label = [CHR 0xE7, CHR 0xBE, CHR 0xA4, CHR 0xE4, CHR 0xB8, CHR 0xBB]"

definition replaceOpenIMAdminLabel :: "string \<Rightarrow> string" where
  "replaceOpenIMAdminLabel t =
     (if \<not> contains_text t ''imAdmin'' then t else replace_all ''imAdmin'' owner_label t)"

definition announcementOwnerId :: "chat_state \<Rightarrow> string" where
  "announcementOwnerId st = or_else (imUserId st) ''anon''"

definition normalizeUserKey :: "string \<Rightarrow> string" where
  "normalizeUserKey i = without_hyphens (to_lower (trim i))"

definition remarkOf :: "chat_state \<Rightarrow> string \<Rightarrow> string" where
  "remarkOf st u = (if u = [] then [] else case map_of (remarks st) (normalizeUserKey u) of
     None \<Rightarrow> [] | Some r \<Rightarrow> r)"

text \<open>Whether \<open>decorateConversation\<close> finds an unread announcement, and the flag it stores for one it sees first.\<close>

definition announcement_unread :: "chat_state \<Rightarrow> conversation \<Rightarrow> bool" where
  "announcement_unread st conv =
     (let stored = unreadAnnouncementState (storage st) (announcementOwnerId st) (c_id conv) in
      stored = Some True \<or> stored \<noteq> Some False \<and> groupAtType conv = Some (group_at_code AtGroupNotice))"

definition announcement_noted :: "conversation \<Rightarrow> chat_state \<Rightarrow> chat_state" where
  "announcement_noted conv st =
     (if unreadAnnouncementState (storage st) (announcementOwnerId st) (c_id conv) = None \<and>
         groupAtType conv = Some (group_at_code AtGroupNotice)
      then st\<lparr>storage := writeUnreadAnnouncement (announcementOwnerId st) (c_id conv) True (storage st)\<rparr>
      else st)"

definition private_identity :: "chat_state \<Rightarrow> conversation \<Rightarrow> conversation" where
  "private_identity st conv =
     (if c_type conv \<noteq> PrivateChat then conv
      else let conv1 =
             (if peerUserId conv = None \<or> peerUserId conv = Some []
              then let derived = peerIdFromSingleConversation (c_id conv) (imUserId st) in
                if derived \<noteq> [] then conv\<lparr>peerUserId := Some derived\<rparr> else conv
              else conv)
        in case peerUserId conv1 of
             None \<Rightarrow> conv1
           | Some p \<Rightarrow> if remarkOf st p \<noteq> [] then conv1\<lparr>title := remarkOf st p\<rparr> else conv1)"

definition decorateConversation :: "conversation \<Rightarrow> chat_state \<Rightarrow> conversation \<times> chat_state" where
  "decorateConversation c st =
     (let conv = sanitizeRetentionPreview (retained st) c;
          next_row = conv\<lparr>highlightTags :=
            highlightTagsOf (Some (effectiveGroupAtType (groupAtType conv) (Some (unreadCount conv))))
              (announcement_unread st conv)\<rparr>;
          labelled = (if lastMessage next_row \<noteq> []
                      then next_row\<lparr>lastMessage := replaceOpenIMAdminLabel (lastMessage next_row)\<rparr>
                      else next_row)
      in (sanitizeRetentionPreview (retained st) (private_identity st labelled),
          announcement_noted conv st))"

text \<open>\<open>list.map((c) => decorateConversation(c))\<close>, the storage threaded through.\<close>

fun decorate_all :: "conversation list \<Rightarrow> chat_state \<Rightarrow> conversation list \<times> chat_state" where
  "decorate_all [] st = ([], st)"
| "decorate_all (c # cs) st =
     (let d = decorateConversation c st; r = decorate_all cs (snd d) in (fst d # fst r, snd r))"

definition applyContactRemarks :: "chat_state \<Rightarrow> chat_state" where
  "applyContactRemarks st =
     (if conversations st = [] then st
      else let r = decorate_all (conversations st) st in (snd r)\<lparr>conversations := fst r\<rparr>)"

section \<open>The order of the list\<close>

text \<open>
  The comparator of \<open>sortConversations\<close>: pinned rows first, then the later date. With an empty
  date the difference is \<open>NaN\<close>, which a sort treats as 0.
\<close>

definition conversation_cmp :: "conversation \<Rightarrow> conversation \<Rightarrow> int" where
  "conversation_cmp a b =
     (if pinned a \<noteq> pinned b then (if pinned a then -1 else 1)
      else case (lastMessageAt a, lastMessageAt b) of
             (Some s, Some t) \<Rightarrow> t - s
           | _ \<Rightarrow> 0)"

definition sortConversations :: "conversation list \<Rightarrow> conversation list" where
  "sortConversations cs = js_sort conversation_cmp cs"

text \<open>\<open>copy[idx] = \<dots>\<close> at the first row with the id, then sorted; nothing when there is none.\<close>

definition patchConversation :: "string \<Rightarrow> (conversation \<Rightarrow> conversation) \<Rightarrow> chat_state \<Rightarrow> chat_state" where
  "patchConversation c f st =
     (case find_index (\<lambda>x. c_id x = c) (conversations st) of
        None \<Rightarrow> st
      | Some i \<Rightarrow> st\<lparr>conversations :=
          sortConversations ((conversations st)[i := f (conversations st ! i)])\<rparr>)"

definition setUnreadAnnouncement :: "string \<Rightarrow> bool \<Rightarrow> chat_state \<Rightarrow> chat_state" where
  "setUnreadAnnouncement c flag st =
     (if c = [] then st
      else let st' = st\<lparr>storage := writeUnreadAnnouncement (announcementOwnerId st) c flag (storage st)\<rparr> in
        case conversation_at st' c of
          None \<Rightarrow> st'
        | Some conv \<Rightarrow> patchConversation c
            (\<lambda>x. x\<lparr>highlightTags := highlightTagsOf
               (Some (effectiveGroupAtType (groupAtType conv) (Some (unreadCount conv)))) flag\<rparr>) st')"

section \<open>Merging with the row already shown\<close>

definition time_of :: "conversation \<Rightarrow> int" where
  "time_of c = (case lastMessageAt c of None \<Rightarrow> 0 | Some t \<Rightarrow> t)"

definition pin_time :: "conversation \<Rightarrow> int" where
  "pin_time c = (case pinnedMessage c of PinSet p \<Rightarrow> pinnedAt p | _ \<Rightarrow> 0)"

definition newer_text :: "conversation \<Rightarrow> conversation \<Rightarrow> conversation" where
  "newer_text prev new =
     (if lastMessage prev \<noteq> [] \<and> time_of new < time_of prev
      then new\<lparr>lastMessage := lastMessage prev, lastMessageAt := lastMessageAt prev,
               lastMessageSeq := lastMessageSeq prev, lastMessageId := lastMessageId prev\<rparr>
      else new)"

definition newer_unread :: "string \<Rightarrow> conversation \<Rightarrow> conversation \<Rightarrow> conversation \<Rightarrow> conversation" where
  "newer_unread active prev new merged =
     (if active \<noteq> [] \<and> c_id merged = active then merged\<lparr>unreadCount := 0\<rparr>
      else if unreadCount prev = 0 \<and> 0 < unreadCount merged then
        (if time_of new \<le> time_of prev then merged\<lparr>unreadCount := 0\<rparr> else merged)
      else merged)"

definition newer_pin :: "conversation \<Rightarrow> conversation \<Rightarrow> conversation \<Rightarrow> conversation" where
  "newer_pin prev new merged =
     (case pinnedMessage prev of
        PinSet p \<Rightarrow> if pin_time new \<le> pin_time prev then merged\<lparr>pinnedMessage := PinSet p\<rparr> else merged
      | PinNull \<Rightarrow> (case pinnedMessage new of
                      PinSet _ \<Rightarrow> merged | _ \<Rightarrow> merged\<lparr>pinnedMessage := PinNull\<rparr>)
      | PinUndefined \<Rightarrow> merged)"

definition newer_reminder :: "bool \<Rightarrow> conversation \<Rightarrow> conversation \<Rightarrow> conversation" where
  "newer_reminder hasUnreadAnn prev merged =
     (if c_type merged \<noteq> GroupChat then merged
      else let atType = effectiveGroupAtType (groupAtType merged) (Some (unreadCount merged));
               prevAtType = effectiveGroupAtType (groupAtType prev) (Some (unreadCount prev));
               clearedLocally = (\<not> isAtMeType (Some prevAtType) \<and> isAtMeType (Some atType));
               cleared = merged\<lparr>groupAtType := Some (group_at_code AtNormal),
                 highlightTags := highlightTagsOf (Some (group_at_code AtNormal)) hasUnreadAnn\<rparr>
        in if unreadCount merged = 0 \<and> isAtMeType (groupAtType merged) then cleared
           else if clearedLocally \<and> unreadCount merged = 0 then cleared
           else if Some atType \<noteq> groupAtType merged
             then merged\<lparr>highlightTags := highlightTagsOf (Some atType) hasUnreadAnn\<rparr>
           else merged)"

definition keepNewerPreview :: "chat_state \<Rightarrow> conversation \<Rightarrow> conversation \<Rightarrow> conversation" where
  "keepNewerPreview st prev new =
     (let merged1 = newer_text prev new;
          merged2 = newer_unread (activeConversationId st) prev new merged1;
          merged3 = newer_pin prev new merged2;
          hasUnreadAnn = (unreadAnnouncementState (storage st) (announcementOwnerId st) (c_id merged3) = Some True)
      in sanitizeRetentionPreview (retained st) (newer_reminder hasUnreadAnn prev merged3))"

section \<open>Rows from the SDK into the list\<close>

fun decorate_items :: "int \<Rightarrow> conversation_item list \<Rightarrow> chat_state \<Rightarrow> conversation list \<times> chat_state" where
  "decorate_items now [] st = ([], st)"
| "decorate_items now (i # is) st =
     (let d = decorateConversation (toConversation now st i) st; r = decorate_items now is (snd d)
      in (fst d # fst r, snd r))"

definition upsert_row :: "chat_state \<Rightarrow> conversation \<Rightarrow> conversation list \<Rightarrow> conversation list" where
  "upsert_row st conv merged =
     (case find_index (\<lambda>x. c_id x = c_id conv) merged of
        Some i \<Rightarrow> merged[i := keepNewerPreview st (merged ! i) conv]
      | None \<Rightarrow> merged @ [conv])"

definition upsertConversations :: "int \<Rightarrow> conversation_item list \<Rightarrow> chat_state \<Rightarrow> chat_state" where
  "upsertConversations now items st =
     (let d = decorate_items now items st; st' = snd d;
          incoming = filter (shouldShowConversation st') (fst d) in
      if items = [] \<or> incoming = [] then st'
      else st'\<lparr>conversations := sortConversations (filter (shouldShowConversation st')
             (fold (upsert_row st') incoming (conversations st')))\<rparr>)"

text \<open>
  The end of \<open>loadConversations\<close>, after its awaits: the whole list from the SDK, each row merged
  with the one shown before (\<open>new Map\<close> keeps the last row of an id).
\<close>

fun merge_loaded ::
    "int \<Rightarrow> (string \<Rightarrow> conversation option) \<Rightarrow> conversation_item list \<Rightarrow> chat_state \<Rightarrow>
     conversation list \<times> chat_state" where
  "merge_loaded now prev [] st = ([], st)"
| "merge_loaded now prev (i # is) st =
     (let d = decorateConversation (toConversation now st i) st; mapped = fst d; st1 = snd d;
          row = (case prev (c_id mapped) of Some p \<Rightarrow> keepNewerPreview st1 p mapped | None \<Rightarrow> mapped);
          r = merge_loaded now prev is st1
      in (row # fst r, snd r))"

definition loaded_conversations :: "int \<Rightarrow> conversation_item list \<Rightarrow> chat_state \<Rightarrow> chat_state" where
  "loaded_conversations now items st =
     (let prev = map_of (rev (map (\<lambda>c. (c_id c, c)) (conversations st)));
          r = merge_loaded now prev items st; st' = snd r
      in st'\<lparr>conversations := sortConversations (filter (shouldShowConversation st') (fst r))\<rparr>)"

text \<open>\<open>totalUnread\<close>: 1 is "do not receive", 2 is "receive silently".\<close>

definition muted :: "conversation \<Rightarrow> bool" where
  "muted c \<longleftrightarrow> recvMsgOpt c = Some 1 \<or> recvMsgOpt c = Some 2"

definition totalUnread :: "chat_state \<Rightarrow> int" where
  "totalUnread st = foldl (\<lambda>s c. if muted c then s else s + unreadCount c) 0 (conversations st)"

section \<open>Lemmas\<close>

lemma sanitize_frame [store_simps]:
  "c_id (sanitizeRetentionPreview r c) = c_id c"
  "c_type (sanitizeRetentionPreview r c) = c_type c"
  "peerUserId (sanitizeRetentionPreview r c) = peerUserId c"
  "lastMessageSeq (sanitizeRetentionPreview r c) = lastMessageSeq c"
  "pinned (sanitizeRetentionPreview r c) = pinned c"
  "pinnedMessage (sanitizeRetentionPreview r c) = pinnedMessage c"
  by (simp_all add: sanitizeRetentionPreview_def Let_def)

lemma private_identity_frame [store_simps]:
  "c_id (private_identity st c) = c_id c"
  "c_type (private_identity st c) = c_type c"
  "lastMessageSeq (private_identity st c) = lastMessageSeq c"
  by (auto simp: private_identity_def Let_def split: option.split)

lemma decorate_frame [store_simps]:
  "c_id (fst (decorateConversation c st)) = c_id c"
  "c_type (fst (decorateConversation c st)) = c_type c"
  by (simp_all add: decorateConversation_def Let_def store_simps)

lemma announcement_noted_frame [store_simps]:
  "\<exists>s. announcement_noted c st = st\<lparr>storage := s\<rparr>"
  by (cases st) (auto simp: announcement_noted_def)

lemma decorate_all_frame:
  "\<exists>s. snd (decorate_all cs st) = st\<lparr>storage := s\<rparr>"
proof (induction cs arbitrary: st)
  case Nil
  then show ?case by (cases st) auto
next
  case (Cons c cs)
  obtain s where "snd (decorateConversation c st) = st\<lparr>storage := s\<rparr>"
    using announcement_noted_frame by (auto simp: decorateConversation_def Let_def)
  moreover obtain s' where "snd (decorate_all cs (st\<lparr>storage := s\<rparr>)) = st\<lparr>storage := s\<rparr>\<lparr>storage := s'\<rparr>"
    using Cons by blast
  ultimately show ?case by (auto simp: Let_def)
qed

lemma decorate_items_frame:
  "\<exists>s. snd (decorate_items now is st) = st\<lparr>storage := s\<rparr>"
proof (induction "is" arbitrary: st)
  case Nil
  then show ?case by (cases st) auto
next
  case (Cons i "is")
  let ?c = "toConversation now st i"
  obtain s where "snd (decorateConversation ?c st) = st\<lparr>storage := s\<rparr>"
    using announcement_noted_frame by (auto simp: decorateConversation_def Let_def)
  moreover obtain s' where "snd (decorate_items now is (st\<lparr>storage := s\<rparr>)) = st\<lparr>storage := s\<rparr>\<lparr>storage := s'\<rparr>"
    using Cons by blast
  ultimately show ?case by (auto simp: Let_def)
qed

lemma merge_loaded_frame:
  "\<exists>s. snd (merge_loaded now prev is st) = st\<lparr>storage := s\<rparr>"
proof (induction "is" arbitrary: st)
  case Nil
  then show ?case by (cases st) auto
next
  case (Cons i "is")
  let ?c = "toConversation now st i"
  obtain s where "snd (decorateConversation ?c st) = st\<lparr>storage := s\<rparr>"
    using announcement_noted_frame by (auto simp: decorateConversation_def Let_def)
  moreover obtain s' where "snd (merge_loaded now prev is (st\<lparr>storage := s\<rparr>)) = st\<lparr>storage := s\<rparr>\<lparr>storage := s'\<rparr>"
    using Cons by blast
  ultimately show ?case by (auto simp: Let_def)
qed

lemma newer_parts [store_simps]:
  "c_id (newer_text p n) = c_id n" "c_id (newer_unread a p n m) = c_id m"
  "c_id (newer_pin p n m) = c_id m" "c_id (newer_reminder b p m) = c_id m"
  "c_type (newer_text p n) = c_type n" "c_type (newer_unread a p n m) = c_type m"
  "c_type (newer_pin p n m) = c_type m" "c_type (newer_reminder b p m) = c_type m"
  "lastMessageAt (newer_unread a p n m) = lastMessageAt m"
  "lastMessageAt (newer_pin p n m) = lastMessageAt m" "lastMessageAt (newer_reminder b p m) = lastMessageAt m"
  "lastMessage (newer_unread a p n m) = lastMessage m"
  "lastMessage (newer_pin p n m) = lastMessage m" "lastMessage (newer_reminder b p m) = lastMessage m"
  "unreadCount (newer_text p n) = unreadCount n" "unreadCount (newer_pin p n m) = unreadCount m"
  "unreadCount (newer_reminder b p m) = unreadCount m"
  "groupAtType (newer_text p n) = groupAtType n" "groupAtType (newer_unread a p n m) = groupAtType m"
  "groupAtType (newer_pin p n m) = groupAtType m"
  "highlightTags (newer_text p n) = highlightTags n" "highlightTags (newer_unread a p n m) = highlightTags m"
  "highlightTags (newer_pin p n m) = highlightTags m"
  "pinnedMessage (newer_text p n) = pinnedMessage n" "pinnedMessage (newer_unread a p n m) = pinnedMessage m"
  "pinnedMessage (newer_reminder b p m) = pinnedMessage m"
  "peerUserId (newer_text p n) = peerUserId n" "peerUserId (newer_unread a p n m) = peerUserId m"
  "peerUserId (newer_pin p n m) = peerUserId m" "peerUserId (newer_reminder b p m) = peerUserId m"
  by (auto simp: newer_text_def newer_unread_def newer_pin_def newer_reminder_def Let_def split: pin_field.split)

lemma keepNewerPreview_frame [store_simps]:
  "c_id (keepNewerPreview st p n) = c_id n"
  "c_type (keepNewerPreview st p n) = c_type n"
  "peerUserId (keepNewerPreview st p n) = peerUserId n"
  by (simp_all add: keepNewerPreview_def Let_def store_simps)

lemma keepNewerPreview_storage [simp]:
  "shouldShowConversation st (keepNewerPreview st' p n) = shouldShowConversation st n"
  by (simp add: shouldShowConversation_def store_simps)

text \<open>Sorting and patching keep the ids.\<close>

lemma set_sortConversations [simp]: "set (sortConversations cs) = set cs"
  by (simp add: sortConversations_def)

lemma distinct_sortConversations [simp]:
  "distinct (map c_id (sortConversations cs)) = distinct (map c_id cs)"
  by (simp add: sortConversations_def)

definition keeps_id :: "(conversation \<Rightarrow> conversation) \<Rightarrow> bool" where
  "keeps_id f \<longleftrightarrow> (\<forall>x. c_id (f x) = c_id x)"

lemma map_id_update:
  "i < length cs \<Longrightarrow> c_id y = c_id (cs ! i) \<Longrightarrow> map c_id (cs[i := y]) = map c_id cs"
  by (metis list_update_id map_update nth_map)

lemma patchConversation_frame [store_simps]:
  "messagesMap (patchConversation c f st) = messagesMap st"
  "rawMessages (patchConversation c f st) = rawMessages st"
  "historyEnd (patchConversation c f st) = historyEnd st"
  "hiddenIds (patchConversation c f st) = hiddenIds st"
  "exitedGroupIds (patchConversation c f st) = exitedGroupIds st"
  "blockedPeerKeys (patchConversation c f st) = blockedPeerKeys st"
  "storage (patchConversation c f st) = storage st"
  "retained (patchConversation c f st) = retained st"
  "imUserId (patchConversation c f st) = imUserId st"
  "activeConversationId (patchConversation c f st) = activeConversationId st"
  "sessionGeneration (patchConversation c f st) = sessionGeneration st"
  "placeholderSeq (patchConversation c f st) = placeholderSeq st"
  by (simp_all add: patchConversation_def split: option.split)

lemma patchConversation_ids:
  assumes "\<And>x. x \<in> set (conversations st) \<Longrightarrow> c_id x = c \<Longrightarrow> c_id (f x) = c"
  shows "distinct (map c_id (conversations (patchConversation c f st))) = distinct (map c_id (conversations st))"
    and "c_id ` set (conversations (patchConversation c f st)) = c_id ` set (conversations st)"
proof -
  have "distinct (map c_id (conversations (patchConversation c f st))) = distinct (map c_id (conversations st))
    \<and> c_id ` set (conversations (patchConversation c f st)) = c_id ` set (conversations st)"
  proof (cases "find_index (\<lambda>x. c_id x = c) (conversations st)")
    case None
    then show ?thesis by (simp add: patchConversation_def)
  next
    case (Some i)
    then have i: "i < length (conversations st)" "c_id (conversations st ! i) = c"
      using find_index_Some by blast+
    then have "map c_id ((conversations st)[i := f (conversations st ! i)]) = map c_id (conversations st)"
      using assms by (intro map_id_update) simp_all
    then show ?thesis
      using Some by (simp add: patchConversation_def) (metis set_map)
  qed
  then show "distinct (map c_id (conversations (patchConversation c f st))) = distinct (map c_id (conversations st))"
    and "c_id ` set (conversations (patchConversation c f st)) = c_id ` set (conversations st)" by blast+
qed

text \<open>Inserting rows keeps ids unique; afterwards every row is one that may be shown.\<close>

lemma upsert_row_ids:
  "distinct (map c_id m) \<Longrightarrow> distinct (map c_id (upsert_row st c m))"
  "c_id ` set (upsert_row st c m) = insert (c_id c) (c_id ` set m)"
proof -
  have "(distinct (map c_id m) \<longrightarrow> distinct (map c_id (upsert_row st c m))) \<and>
    c_id ` set (upsert_row st c m) = insert (c_id c) (c_id ` set m)"
  proof (cases "find_index (\<lambda>x. c_id x = c_id c) m")
    case None
    then have "c_id c \<notin> c_id ` set m" by (auto simp: find_index_None)
    with None show ?thesis by (auto simp: upsert_row_def)
  next
    case (Some i)
    then have i: "i < length m" "c_id (m ! i) = c_id c" using find_index_Some by blast+
    then have "map c_id (m[i := keepNewerPreview st (m ! i) c]) = map c_id m"
      by (intro map_id_update) (simp_all add: store_simps)
    moreover from i have "c_id c \<in> c_id ` set m" by (metis image_eqI nth_mem)
    ultimately show ?thesis
      using Some by (simp add: upsert_row_def) (metis insert_absorb set_map)
  qed
  then show "distinct (map c_id m) \<Longrightarrow> distinct (map c_id (upsert_row st c m))"
    and "c_id ` set (upsert_row st c m) = insert (c_id c) (c_id ` set m)" by blast+
qed

lemma fold_upsert_distinct:
  "distinct (map c_id m) \<Longrightarrow> distinct (map c_id (fold (upsert_row st) cs m))"
  by (induction cs arbitrary: m) (simp_all add: upsert_row_ids)

lemma upsert_frame [store_simps]:
  "messagesMap (upsertConversations now is st) = messagesMap st"
  "rawMessages (upsertConversations now is st) = rawMessages st"
  "historyEnd (upsertConversations now is st) = historyEnd st"
  "hiddenIds (upsertConversations now is st) = hiddenIds st"
  "exitedGroupIds (upsertConversations now is st) = exitedGroupIds st"
  "blockedPeerKeys (upsertConversations now is st) = blockedPeerKeys st"
  "retained (upsertConversations now is st) = retained st"
  "imUserId (upsertConversations now is st) = imUserId st"
  "activeConversationId (upsertConversations now is st) = activeConversationId st"
  "sessionGeneration (upsertConversations now is st) = sessionGeneration st"
  using decorate_items_frame [of now "is" st] by (auto simp: upsertConversations_def Let_def)

lemma loaded_frame [store_simps]:
  "messagesMap (loaded_conversations now is st) = messagesMap st"
  "rawMessages (loaded_conversations now is st) = rawMessages st"
  "hiddenIds (loaded_conversations now is st) = hiddenIds st"
  "exitedGroupIds (loaded_conversations now is st) = exitedGroupIds st"
  "blockedPeerKeys (loaded_conversations now is st) = blockedPeerKeys st"
  "retained (loaded_conversations now is st) = retained st"
  "imUserId (loaded_conversations now is st) = imUserId st"
  "sessionGeneration (loaded_conversations now is st) = sessionGeneration st"
  using merge_loaded_frame [of now "map_of (rev (map (\<lambda>c. (c_id c, c)) (conversations st)))" "is" st]
  by (auto simp: loaded_conversations_def Let_def)

lemma shouldShow_storage [simp]:
  "shouldShowConversation (st\<lparr>storage := s\<rparr>) = shouldShowConversation st"
  by (rule shouldShowConversation_cong) simp_all

lemma distinct_map_filter_ids: "distinct (map c_id cs) \<Longrightarrow> distinct (map c_id (filter P cs))"
  by (induction cs) auto

lemma upsert_rows:
  assumes "distinct (map c_id (conversations st))"
  shows "distinct (map c_id (conversations (upsertConversations now is st)))"
    and "\<forall>c \<in> set (conversations (upsertConversations now is st)).
      c \<in> set (conversations st) \<or> shouldShowConversation st c"
proof -
  obtain s where s: "snd (decorate_items now is st) = st\<lparr>storage := s\<rparr>"
    using decorate_items_frame by blast
  show "distinct (map c_id (conversations (upsertConversations now is st)))"
    using assms fold_upsert_distinct
    by (auto simp: upsertConversations_def Let_def s intro!: distinct_map_filter_ids)
  show "\<forall>c \<in> set (conversations (upsertConversations now is st)).
      c \<in> set (conversations st) \<or> shouldShowConversation st c"
    by (auto simp: upsertConversations_def Let_def s)
qed

lemma merge_loaded_ids:
  "(\<And>i p. prev i = Some p \<Longrightarrow> c_id p = i) \<Longrightarrow>
   map c_id (fst (merge_loaded now prev is st)) = map item_conversation is"
proof (induction "is" arbitrary: st)
  case Nil
  then show ?case by simp
next
  case (Cons i "is")
  then show ?case
    by (auto simp: Let_def store_simps toConversation_def split: option.split)
qed

lemma loaded_rows:
  assumes "distinct (map item_conversation is)"
  shows "distinct (map c_id (conversations (loaded_conversations now is st)))"
    and "\<forall>c \<in> set (conversations (loaded_conversations now is st)). shouldShowConversation st c"
proof -
  define prev where "prev = map_of (rev (map (\<lambda>c. (c_id c, c)) (conversations st)))"
  obtain s where s: "snd (merge_loaded now prev is st) = st\<lparr>storage := s\<rparr>"
    using merge_loaded_frame by blast
  have "prev i = Some p \<Longrightarrow> c_id p = i" for i p
    by (auto simp: prev_def dest!: map_of_SomeD)
  then have "map c_id (fst (merge_loaded now prev is st)) = map item_conversation is"
    by (rule merge_loaded_ids)
  then show "distinct (map c_id (conversations (loaded_conversations now is st)))"
    using assms by (auto simp: loaded_conversations_def Let_def s simp flip: prev_def
        intro!: distinct_map_filter_ids)
  show "\<forall>c \<in> set (conversations (loaded_conversations now is st)). shouldShowConversation st c"
    by (auto simp: loaded_conversations_def Let_def s simp flip: prev_def)
qed

text \<open>Counts under retention.\<close>

lemma unread_zero [simp]: "unread r c l 0 = 0"
  by (simp add: unread_def Let_def)

lemma unread_bounds: "0 \<le> n \<Longrightarrow> 0 \<le> unread r c l n \<and> unread r c l n \<le> n"
  by (simp add: unread_def Let_def)

lemma retentionSeq_nonneg [simp]: "0 \<le> retentionSeq l"
  by (simp add: retentionSeq_def Let_def)

lemma unread_positive:
  assumes "0 < n" and "\<not> removed r c l"
  shows "0 < unread r c l n"
  using assms retentionSeq_nonneg [of l] by (auto simp: unread_def removed_def Let_def)

lemma newer_unread_zero:
  assumes "a \<noteq> [] \<and> c_id m = a \<or> unreadCount p = 0 \<and> time_of n \<le> time_of p \<and> 0 \<le> unreadCount m"
  shows "unreadCount (newer_unread a p n m) = 0"
  using assms by (auto simp: newer_unread_def)

text \<open>A mention tag comes with an unread mention.\<close>

definition tags_ok :: "conversation \<Rightarrow> bool" where
  "tags_ok c \<longleftrightarrow> (TagMentioned \<in> set (highlightTags c) \<longrightarrow> isAtMeType (groupAtType c) \<and> unreadCount c \<noteq> 0)"

lemma mention_tag: "TagMentioned \<in> set (highlightTagsOf t b) \<longleftrightarrow> isAtMeType t"
  by (simp add: highlightTagsOf_def)

lemma isAtMeType_normal [simp]: "\<not> isAtMeType (Some 0)" "\<not> isAtMeType None"
  by (simp_all add: isAtMeType_def)

lemma effective_mention:
  "isAtMeType (Some (effectiveGroupAtType t (Some n))) \<longleftrightarrow> 0 < n \<and> isAtMeType t"
  by (auto simp: effectiveGroupAtType_def split: option.split)

lemma tags_ok_sanitize: "tags_ok c \<Longrightarrow> 0 \<le> unreadCount c \<Longrightarrow> tags_ok (sanitizeRetentionPreview r c)"
  using unread_positive [of "unreadCount c" r "c_id c" "seq_view (lastMessageSeq c)"]
  by (auto simp: tags_ok_def sanitizeRetentionPreview_def Let_def)

lemma tags_ok_reminder:
  assumes "c_type m = GroupChat" "0 \<le> unreadCount m"
    and "TagMentioned \<in> set (highlightTags m) \<longrightarrow> isAtMeType (groupAtType m)"
  shows "tags_ok (newer_reminder b p m)"
  using assms
  by (auto simp: tags_ok_def newer_reminder_def Let_def mention_tag effective_mention)

text \<open>Where every row has a date the comparator is a consistent order.\<close>

definition dated_cmp :: "conversation \<Rightarrow> conversation \<Rightarrow> int" where
  "dated_cmp a b =
     (if pinned a \<noteq> pinned b then (if pinned a then -1 else 1) else time_of b - time_of a)"

lemma dated_cmp_consistent: "consistent_cmp dated_cmp"
  by (auto simp: consistent_cmp_def dated_cmp_def split: if_splits)

lemma conversation_cmp_dated:
  "lastMessageAt a \<noteq> None \<Longrightarrow> lastMessageAt b \<noteq> None \<Longrightarrow> conversation_cmp a b = dated_cmp a b"
  by (auto simp: conversation_cmp_def dated_cmp_def time_of_def)

lemma totalUnread_sum: "totalUnread st = sum_list (map unreadCount (filter (\<lambda>c. \<not> muted c) (conversations st)))"
proof -
  have "foldl (\<lambda>s c. if muted c then s else s + unreadCount c) k cs
      = k + sum_list (map unreadCount (filter (\<lambda>c. \<not> muted c) cs))" for k cs
    by (induction cs arbitrary: k) auto
  then show ?thesis by (simp add: totalUnread_def)
qed

lemma sum_unmuted_mset:
  "sum_list (map unreadCount (filter (\<lambda>c. \<not> muted c) cs))
   = sum_mset (image_mset unreadCount (filter_mset (\<lambda>c. \<not> muted c) (mset cs)))"
  by (simp flip: sum_mset_sum_list)

lemma sum_unmuted_sort [simp]:
  "sum_list (map unreadCount (filter (\<lambda>c. \<not> muted c) (sortConversations cs)))
   = sum_list (map unreadCount (filter (\<lambda>c. \<not> muted c) cs))"
  unfolding sum_unmuted_mset by (simp add: sortConversations_def)

lemma sum_unmuted_update:
  "i < length cs \<Longrightarrow> muted y \<Longrightarrow>
   sum_list (map unreadCount (filter (\<lambda>c. \<not> muted c) (cs[i := y])))
     = sum_list (map unreadCount (filter (\<lambda>c. \<not> muted c) cs)) - (if muted (cs ! i) then 0 else unreadCount (cs ! i))"
  by (induction cs arbitrary: i) (auto simp: nth_Cons split: nat.split)

section \<open>Properties\<close>

text \<open>C8: Merging the SDK's row \<open>new\<close> into the row \<open>prev\<close> on screen never goes back. Unless retention
  blanks the row, the preview's date is the later of the two (when \<open>prev\<close> shows a text); the
  unread count of the open conversation is zero, and so is that of a conversation already read
  for which the SDK brings nothing newer; a banner set later than the SDK's stays; and a group
  row carries the mention tag only with an unread mention.\<close>

theorem newer_preview_wins:
  assumes id: "c_id prev = c_id new" and count: "0 \<le> unreadCount new"
    and tags: "TagMentioned \<in> set (highlightTags new) \<longrightarrow> isAtMeType (groupAtType new)"
  shows "(lastMessage prev \<noteq> [] \<and> \<not> removed (retained st) (c_id new) (seq_view (lastMessageSeq (keepNewerPreview st prev new)))
           \<longrightarrow> time_of (keepNewerPreview st prev new) = max (time_of prev) (time_of new)) \<and>
     (c_id new = activeConversationId st \<and> c_id new \<noteq> [] \<or> unreadCount prev = 0 \<and> time_of new \<le> time_of prev
           \<longrightarrow> unreadCount (keepNewerPreview st prev new) = 0) \<and>
     (\<forall>p. pinnedMessage prev = PinSet p \<and> pin_time new \<le> pinnedAt p
           \<longrightarrow> pinnedMessage (keepNewerPreview st prev new) = PinSet p) \<and>
     (c_type new = GroupChat \<longrightarrow> tags_ok (keepNewerPreview st prev new))"
proof (intro conjI)
  let ?m = "newer_pin prev new (newer_unread (activeConversationId st) prev new (newer_text prev new))"
  let ?k = "newer_reminder (unreadAnnouncementState (storage st) (announcementOwnerId st) (c_id ?m) = Some True) prev ?m"
  have k: "keepNewerPreview st prev new = sanitizeRetentionPreview (retained st) ?k"
    by (simp add: keepNewerPreview_def Let_def)
  have t: "time_of (newer_text prev new) = max (time_of prev) (time_of new)" if "lastMessage prev \<noteq> []"
    using that by (auto simp: newer_text_def time_of_def)
  have time: "time_of ?k = time_of (newer_text prev new)" by (simp add: time_of_def store_simps)
  show "lastMessage prev \<noteq> [] \<and> \<not> removed (retained st) (c_id new) (seq_view (lastMessageSeq (keepNewerPreview st prev new)))
           \<longrightarrow> time_of (keepNewerPreview st prev new) = max (time_of prev) (time_of new)"
    unfolding k using t time
    by (auto simp: store_simps sanitizeRetentionPreview_def Let_def time_of_def)
  show "c_id new = activeConversationId st \<and> c_id new \<noteq> [] \<or> unreadCount prev = 0 \<and> time_of new \<le> time_of prev
           \<longrightarrow> unreadCount (keepNewerPreview st prev new) = 0"
  proof
    assume "c_id new = activeConversationId st \<and> c_id new \<noteq> [] \<or> unreadCount prev = 0 \<and> time_of new \<le> time_of prev"
    then have "unreadCount ?k = 0"
      using count by (auto simp: store_simps intro!: newer_unread_zero)
    then show "unreadCount (keepNewerPreview st prev new) = 0"
      unfolding k by (simp add: sanitizeRetentionPreview_def Let_def)
  qed
  show "\<forall>p. pinnedMessage prev = PinSet p \<and> pin_time new \<le> pinnedAt p
           \<longrightarrow> pinnedMessage (keepNewerPreview st prev new) = PinSet p"
    unfolding k by (auto simp: store_simps newer_pin_def pin_time_def)
  have "0 \<le> unreadCount ?k"
    using count by (auto simp: store_simps newer_unread_def)
  then show "c_type new = GroupChat \<longrightarrow> tags_ok (keepNewerPreview st prev new)"
    unfolding k using tags by (auto simp: store_simps intro!: tags_ok_sanitize tags_ok_reminder)
qed

text \<open>The list is a rearrangement of its rows, and when every row has a date the pinned rows
  come first and within each group the later date comes first.\<close>

theorem list_order:
  "mset (sortConversations cs) = mset cs \<and>
   ((\<forall>c \<in> set cs. lastMessageAt c \<noteq> None) \<longrightarrow>
      sorted_wrt (\<lambda>a b. pinned a \<and> \<not> pinned b \<or> pinned a = pinned b \<and> time_of b \<le> time_of a)
        (sortConversations cs))"
proof (intro conjI impI)
  show "mset (sortConversations cs) = mset cs" by (simp add: sortConversations_def)
  assume dated: "\<forall>c \<in> set cs. lastMessageAt c \<noteq> None"
  then have "sortConversations cs = js_sort dated_cmp cs"
    unfolding sortConversations_def by (intro js_sort_cong conversation_cmp_dated) blast+
  then have "sorted_wrt (\<lambda>a b. dated_cmp a b \<le> 0) (sortConversations cs)"
    using js_sort_sorted [OF dated_cmp_consistent] by simp
  then show "sorted_wrt (\<lambda>a b. pinned a \<and> \<not> pinned b \<or> pinned a = pinned b \<and> time_of b \<le> time_of a)
        (sortConversations cs)"
    by (rule sorted_wrt_mono_rel [rotated]) (auto simp: dated_cmp_def split: if_splits)
qed

text \<open>The badge counts the unread messages of the rows that may notify, each once, and muting
  a conversation takes exactly its own unread messages out of the badge.\<close>

theorem badge_counts_unmuted:
  assumes "opt = 1 \<or> opt = 2"
  shows "totalUnread st = sum_list (map unreadCount (filter (\<lambda>c. \<not> muted c) (conversations st))) \<and>
    totalUnread (patchConversation c (\<lambda>x. x\<lparr>recvMsgOpt := Some opt\<rparr>) st) = totalUnread st -
      (case find_index (\<lambda>x. c_id x = c) (conversations st) of None \<Rightarrow> 0
       | Some i \<Rightarrow> if muted (conversations st ! i) then 0 else unreadCount (conversations st ! i))"
proof
  show "totalUnread st = sum_list (map unreadCount (filter (\<lambda>c. \<not> muted c) (conversations st)))"
    by (rule totalUnread_sum)
  have m: "muted (x\<lparr>recvMsgOpt := Some opt\<rparr>)" for x :: conversation
    using assms by (auto simp: muted_def)
  show "totalUnread (patchConversation c (\<lambda>x. x\<lparr>recvMsgOpt := Some opt\<rparr>) st) = totalUnread st -
      (case find_index (\<lambda>x. c_id x = c) (conversations st) of None \<Rightarrow> 0
       | Some i \<Rightarrow> if muted (conversations st ! i) then 0 else unreadCount (conversations st ! i))"
    unfolding totalUnread_sum patchConversation_def
    using m by (auto simp: sum_unmuted_update dest!: find_index_length split: option.split)
qed

section \<open>Samples\<close>

definition sample_row_of :: "string \<Rightarrow> conversation_kind \<Rightarrow> int \<Rightarrow> int \<Rightarrow> conversation" where
  "sample_row_of i k t n = \<lparr>c_id = i, c_type = k, title = ''t'', lastMessage = ''hi'', lastMessageAt = Some t,
     lastMessageSeq = None, lastMessageId = None, unreadCount = n, highlightTags = [], groupAtType = None,
     pinned = False, pinnedMessage = PinUndefined, recvMsgOpt = None, peerUserId = None, c_group = None\<rparr>"

definition empty_store :: chat_state where
  "empty_store = \<lparr>conversations = [], messagesMap = [], rawMessages = [], historyEnd = [], hiddenIds = [],
     exitedGroupIds = [], blockedPeerKeys = [], storage = [], retained = new_retention, imUserId = ''u1'',
     remarks = [], activeConversationId = [], sessionGeneration = 0, placeholderSeq = 0\<rparr>"

lemma newer_preview_wins_witness:
  "time_of (keepNewerPreview empty_store (sample_row_of ''si_1'' PrivateChat 9 0) (sample_row_of ''si_1'' PrivateChat 5 2)) = 9"
  using newer_preview_wins [of "sample_row_of ''si_1'' PrivateChat 9 0" "sample_row_of ''si_1'' PrivateChat 5 2" empty_store]
  by (simp add: sample_row_of_def time_of_def removed_def isRetentionGroup_def starts_with_def)

lemma badge_counts_unmuted_witness:
  "totalUnread (patchConversation ''a'' (\<lambda>x. x\<lparr>recvMsgOpt := Some 2\<rparr>)
     (empty_store\<lparr>conversations := [sample_row_of ''a'' PrivateChat 5 3, sample_row_of ''b'' GroupChat 4 1]\<rparr>)) = 1"
  using badge_counts_unmuted [of 2 "empty_store\<lparr>conversations :=
      [sample_row_of ''a'' PrivateChat 5 3, sample_row_of ''b'' GroupChat 4 1]\<rparr>" "''a''"]
  by (simp add: sample_row_of_def muted_def)

lemma list_order_witness:
  "sorted_wrt (\<lambda>a b. pinned a \<and> \<not> pinned b \<or> pinned a = pinned b \<and> time_of b \<le> time_of a)
     (sortConversations [sample_row_of ''a'' PrivateChat 5 3,
        (sample_row_of ''b'' GroupChat 4 1)\<lparr>pinned := True\<rparr>])"
  using list_order [of "[sample_row_of ''a'' PrivateChat 5 3,
      (sample_row_of ''b'' GroupChat 4 1)\<lparr>pinned := True\<rparr>]"]
  by (simp add: sample_row_of_def)

end
