(* ===== verification/ChatHistory.thy ===== *)
theory ChatHistory
  imports ChatPreview
begin

text \<open>
  Messages and history of the chat store (\<open>src/IM-APP-fronend/src/stores/chat.ts\<close>): the raw SDK
  messages kept for quoting and forwarding, the memory windows, the history pages, and the
  operations on one conversation. An asynchronous function is split at its awaits: the part
  after an await is a definition of its own that takes the SDK's answer as an argument.
\<close>

section \<open>Window sizes\<close>

definition PAGE_SIZE :: nat where "PAGE_SIZE = 20"
definition MESSAGE_WINDOW_SIZE :: nat where "MESSAGE_WINDOW_SIZE = 200"
definition RAW_MESSAGE_WINDOW_SIZE :: nat where "RAW_MESSAGE_WINDOW_SIZE = 300"

section \<open>Retention applied to what is loaded\<close>

abbreviation filter_messages :: "retention \<Rightarrow> string \<Rightarrow> chat_message list \<Rightarrow> chat_message list" where
  "filter_messages r c ms \<equiv> filter_visible message_view r c ms"

fun prune_messages ::
    "retention \<Rightarrow> string list \<Rightarrow> (string, chat_message list) jsmap \<Rightarrow> (string, chat_message list) jsmap" where
  "prune_messages r [] m = m"
| "prune_messages r (c # cs) m = prune_messages r cs (case map_of m c of
     None \<Rightarrow> m | Some ms \<Rightarrow> map_set c (filter_messages r c ms) m)"

definition conversation_of_item :: "message_item \<Rightarrow> string" where
  "conversation_of_item i = conversationIdOf (address i)"

definition pruneRetainedHistory :: "string list \<Rightarrow> chat_state \<Rightarrow> chat_state" where
  "pruneRetainedHistory ids st =
     st\<lparr>messagesMap := prune_messages (retained st) ids (messagesMap st),
        rawMessages := filter (\<lambda>(k, i). \<not> removed (retained st) (conversation_of_item i) (raw i)) (rawMessages st),
        conversations := map (sanitizeRetentionPreview (retained st)) (conversations st)\<rparr>"

section \<open>Raw messages and windows\<close>

definition set_messages :: "string \<Rightarrow> chat_message list \<Rightarrow> chat_state \<Rightarrow> chat_state" where
  "set_messages c ms st = st\<lparr>messagesMap := map_set c ms (messagesMap st)\<rparr>"

definition set_history_end :: "string \<Rightarrow> bool \<Rightarrow> chat_state \<Rightarrow> chat_state" where
  "set_history_end c e st = st\<lparr>historyEnd := map_set c e (historyEnd st)\<rparr>"

definition at_history_end :: "chat_state \<Rightarrow> string \<Rightarrow> bool" where
  "at_history_end st c = (map_of (historyEnd st) c = Some True)"

definition drop_raw :: "string list \<Rightarrow> chat_state \<Rightarrow> chat_state" where
  "drop_raw ids st = st\<lparr>rawMessages := map_delete_all ids (rawMessages st)\<rparr>"

definition trimRawMessagesWindow :: "string \<Rightarrow> chat_state \<Rightarrow> chat_state" where
  "trimRawMessagesWindow c st =
     (if c = [] then st
      else let list = messages_of st c in
        if length list \<le> RAW_MESSAGE_WINDOW_SIZE then st
        else let keepIds = map m_id (slice_last RAW_MESSAGE_WINDOW_SIZE list) in
          st\<lparr>rawMessages := filter (\<lambda>(k, i). \<not> (conversation_of_item i = c \<and> k \<notin> set keepIds))
               (rawMessages st)\<rparr>)"

definition rememberRaw :: "message_item \<Rightarrow> chat_state \<Rightarrow> chat_state" where
  "rememberRaw item st =
     (if clientMsgID item = [] then st
      else if removed (retained st) (conversation_of_item item) (raw item) then st
      else let st' = st\<lparr>rawMessages := map_set (clientMsgID item) item (rawMessages st)\<rparr> in
        if conversation_of_item item \<noteq> activeConversationId st'
        then trimRawMessagesWindow (conversation_of_item item) st' else st')"

definition trimMessageWindow :: "string \<Rightarrow> chat_state \<Rightarrow> chat_state" where
  "trimMessageWindow c st =
     (case map_of (messagesMap st) c of
        None \<Rightarrow> st
      | Some list \<Rightarrow>
          if length list \<le> MESSAGE_WINDOW_SIZE then st
          else let removedIds = map m_id (take (length list - MESSAGE_WINDOW_SIZE) list) in
            set_history_end c False
              (drop_raw removedIds (set_messages c (slice_last MESSAGE_WINDOW_SIZE list) st)))"

fun trim_memory :: "string \<Rightarrow> string list \<Rightarrow> chat_state \<Rightarrow> chat_state" where
  "trim_memory active [] st = st"
| "trim_memory active (c # cs) st = trim_memory active cs
     (if c \<noteq> active
      then drop_raw (map m_id (messages_of st c)) (st\<lparr>messagesMap := map_delete c (messagesMap st)\<rparr>)
      else trimRawMessagesWindow c (trimMessageWindow c st))"

text \<open>The keys are those of the map when the loop starts.\<close>

definition trimConversationMemory :: "string \<Rightarrow> chat_state \<Rightarrow> chat_state" where
  "trimConversationMemory active st =
     (if active = [] then st else trim_memory active (map fst (messagesMap st)) st)"

section \<open>Messages from the SDK\<close>

definition toChatMessage :: "message_item \<Rightarrow> chat_message" where
  "toChatMessage item = (view item)\<lparr>m_id := clientMsgID item,
     m_conversation := conversation_of_item item,
     senderId := coalesce (sendID (address item)) (sendID_pascal (address item)) [],
     m_seq := nonzero (seq_of item), trackGroupRead := False\<rparr>"

fun remember_all :: "message_item list \<Rightarrow> chat_state \<Rightarrow> chat_state" where
  "remember_all [] st = st"
| "remember_all (i # is) st = remember_all is (rememberRaw i st)"

text \<open>\<open>messageList.filter((item) => !messagePinPayloadOf(item) && !removed(\<dots>)).map(toChatMessage)\<close>.\<close>

definition visible_page :: "chat_state \<Rightarrow> string \<Rightarrow> message_item list \<Rightarrow> chat_message list" where
  "visible_page st c page =
     map toChatMessage (filter (\<lambda>i. pin_of i = None \<and> \<not> removed (retained st) c (raw i)) page)"

definition mergeLocalPending :: "int \<Rightarrow> chat_message list \<Rightarrow> chat_message list \<Rightarrow> chat_message list" where
  "mergeLocalPending now history existing =
     history @ filter (\<lambda>m.
       if m_id m \<in> m_id ` set history then False
       else if m_status m = Some Sending \<or> m_status m = Some Failed then True
       else if m_status m \<noteq> Some Sent then False
       else 0 \<le> now - createdAt m \<and> now - createdAt m < 60000) existing"

text \<open>
  \<open>markAsRead\<close>: the SDK call is only awaited, its failure swallowed; this is the part after it.
\<close>

definition clear_unread :: "string \<Rightarrow> chat_state \<Rightarrow> chat_state" where
  "clear_unread c st =
     (case find_index (\<lambda>x. c_id x = c) (conversations st) of
        None \<Rightarrow> st
      | Some i \<Rightarrow> st\<lparr>conversations := (conversations st)[i := (conversations st ! i)\<lparr>unreadCount := 0\<rparr>]\<rparr>)"

definition markAsRead :: "string \<Rightarrow> chat_state \<Rightarrow> chat_state" where
  "markAsRead c st =
     (case conversation_at st c of
        None \<Rightarrow> st
      | Some conv \<Rightarrow>
          let st1 = clear_unread c st in
          if c_type conv \<noteq> GroupChat then st1
          else let st2 = st1\<lparr>storage := writeUnreadAnnouncement (announcementOwnerId st) c False (storage st1)\<rparr> in
            if isAtMeType (groupAtType conv)
            then patchConversation c (\<lambda>x. x\<lparr>groupAtType := Some (group_at_code AtNormal),
                   highlightTags := highlightTagsOf (Some (group_at_code AtNormal)) False\<rparr>) st2
            else patchConversation c (\<lambda>x. x\<lparr>highlightTags :=
                   highlightTagsOf (Some (effectiveGroupAtType (groupAtType conv) (Some 0))) False\<rparr>) st2)"

text \<open>
  \<open>loadMessages\<close>: \<open>before\<close> is the list it read before the request; the rest runs on the
  answer up to the await of \<open>markAsRead\<close>, which follows it in \<open>loadMessages\<close> as a further step.
\<close>

definition with_read :: "chat_message list \<Rightarrow> chat_message list \<Rightarrow> chat_message list" where
  "with_read existing mapped =
     map (\<lambda>m. if hasRead m \<or> m_id m \<notin> m_id ` set (filter hasRead existing) then m else m\<lparr>hasRead := True\<rparr>) mapped"

definition messages_loaded ::
    "int \<Rightarrow> string \<Rightarrow> chat_message list \<Rightarrow> message_item list \<Rightarrow> bool \<Rightarrow> chat_state \<Rightarrow> chat_state" where
  "messages_loaded now c before page isEnd st =
     (let existing = filter_messages (retained st) c before;
          st1 = remember_all page st;
          mapped = visible_page st1 c page in
      if mapped = [] \<and> existing \<noteq> [] then set_history_end c False st1
      else trimMessageWindow c (set_history_end c isEnd
             (set_messages c (filter_messages (retained st1) c
                (mergeLocalPending now (with_read existing mapped) existing)) st1)))"

text \<open>
  \<open>loadMoreMessages\<close>: \<open>list\<close> is the list it read before the request (its first id is the cursor),
  the result is the state and whether anything was added.
\<close>

definition load_more_begin :: "string \<Rightarrow> chat_state \<Rightarrow> (string \<times> chat_message list) option" where
  "load_more_begin c st =
     (if at_history_end st c then None
      else case messages_of st c of [] \<Rightarrow> None | m # ms \<Rightarrow> Some (m_id m, m # ms))"

definition more_loaded ::
    "string \<Rightarrow> chat_message list \<Rightarrow> message_item list \<Rightarrow> bool \<Rightarrow> chat_state \<Rightarrow> chat_state \<times> bool" where
  "more_loaded c list page isEnd st =
     (let st1 = set_history_end c isEnd st in
      if page = [] then (st1, False)
      else let st2 = remember_all page st1; older = visible_page st2 c page in
        if older = [] then (st2, False)
        else (set_messages c (filter_messages (retained st2) c (older @ list)) st2, True))"

definition retainFromMessage :: "string \<Rightarrow> string \<Rightarrow> chat_state \<Rightarrow> chat_state" where
  "retainFromMessage c mid st =
     (let list = messages_of st c in
      case find_index (\<lambda>m. m_id m = mid) list of
        None \<Rightarrow> st
      | Some i \<Rightarrow>
          if i = 0 then st
          else set_history_end c False (drop_raw (map m_id (take i list)) (set_messages c (drop i list) st)))"

text \<open>
  One page of the loop of \<open>locateMessage\<close>: nothing to ask when the history ended or the list is
  empty; else the answer either decides (\<open>Some found\<close>) or asks for another page.
\<close>

definition has_message :: "chat_state \<Rightarrow> string \<Rightarrow> string \<Rightarrow> bool" where
  "has_message st c mid = (mid \<in> m_id ` set (messages_of st c))"

definition locate_page ::
    "string \<Rightarrow> string \<Rightarrow> chat_message list \<Rightarrow> message_item list \<Rightarrow> bool \<Rightarrow> chat_state \<Rightarrow> chat_state \<times> bool option" where
  "locate_page c mid list page isEnd st =
     (let st1 = set_history_end c isEnd st in
      if page = [] then (st1, Some False)
      else let st2 = remember_all page st1;
               merged = filter_messages (retained st2) c (visible_page st2 c page @ list);
               st3 = set_messages c merged st2 in
        if mid \<in> m_id ` set merged then (retainFromMessage c mid st3, Some True)
        else if isEnd \<or> 500 < length merged then (st3, Some False)
        else (st3, None))"

text \<open>
  The loop itself when no other handler runs during its requests: \<open>fetch\<close> answers a cursor with
  a page and whether the history ends there. The bound is the 20 pages of the code.
\<close>

fun locate_loop ::
    "nat \<Rightarrow> (string \<Rightarrow> message_item list \<times> bool) \<Rightarrow> string \<Rightarrow> string \<Rightarrow> chat_state \<Rightarrow> chat_state \<times> bool" where
  "locate_loop 0 fetch c mid st = (st, False)"
| "locate_loop (Suc n) fetch c mid st =
     (case load_more_begin c st of
        None \<Rightarrow> (st, False)
      | Some (cursor, list) \<Rightarrow>
          if cursor = [] then (st, False)
          else let ans = fetch cursor; r = locate_page c mid list (fst ans) (snd ans) st in
          case snd r of Some found \<Rightarrow> (fst r, found) | None \<Rightarrow> locate_loop n fetch c mid (fst r))"

section \<open>Revocation, read receipts, local deletion\<close>

definition dropRevokedMessage :: "string \<Rightarrow> string \<Rightarrow> string \<Rightarrow> chat_state \<Rightarrow> chat_state" where
  "dropRevokedMessage c mid tip st =
     (case map_of (messagesMap st) c of
        None \<Rightarrow> st
      | Some list \<Rightarrow> set_messages c
          (map (\<lambda>m. if m_id m = mid then m\<lparr>m_type := KSystem, m_content := tip\<rparr> else m) list) st)"

definition findConversationIdByMsgId :: "string \<Rightarrow> chat_state \<Rightarrow> string" where
  "findConversationIdByMsgId mid st =
     (case find (\<lambda>(c, ms). mid \<in> m_id ` set ms) (messagesMap st) of None \<Rightarrow> [] | Some (c, ms) \<Rightarrow> c)"

definition markLoadedMessagesRead :: "string list \<Rightarrow> chat_state \<Rightarrow> chat_state" where
  "markLoadedMessagesRead ids st =
     st\<lparr>messagesMap := map (\<lambda>(c, ms). (c,
        if \<exists>m \<in> set ms. m_id m \<in> set ids \<and> \<not> hasRead m
        then map (\<lambda>m. if m_id m \<in> set ids then m\<lparr>hasRead := True\<rparr> else m) ms else ms)) (messagesMap st)\<rparr>"

definition ingestReadReceipts :: "string list list \<Rightarrow> chat_state \<Rightarrow> chat_state" where
  "ingestReadReceipts receipts st =
     (let ids = js_uniq (filter (\<lambda>i. i \<noteq> []) (concat receipts)) in
      if ids = [] then st else markLoadedMessagesRead ids st)"

text \<open>\<open>removeLocal\<close>, \<open>clearHistory\<close> and \<open>removeExitedGroupConversation\<close> after or before their SDK calls.\<close>

definition removeLocal :: "string \<Rightarrow> string \<Rightarrow> chat_state \<Rightarrow> chat_state" where
  "removeLocal c mid st =
     drop_raw [mid] (set_messages c (filter (\<lambda>m. m_id m \<noteq> mid) (messages_of st c)) st)"

definition clearHistory :: "string \<Rightarrow> chat_state \<Rightarrow> chat_state" where
  "clearHistory c st =
     patchConversation c (\<lambda>x. x\<lparr>lastMessage := [], lastMessageAt := None, lastMessageSeq := None,
         lastMessageId := None\<rparr>)
       (drop_raw (map m_id (messages_of st c)) (set_history_end c True (set_messages c [] st)))"

definition hideConversationLocal :: "string \<Rightarrow> chat_state \<Rightarrow> chat_state" where
  "hideConversationLocal c st =
     (let st1 = st\<lparr>conversations := filter (\<lambda>x. c_id x \<noteq> c) (conversations st)\<rparr> in
      set_hidden (set_add c (hiddenIds st1)) st1)"

definition is_private_with :: "string \<Rightarrow> conversation \<Rightarrow> bool" where
  "is_private_with contactId c \<longleftrightarrow> c_type c = PrivateChat \<and>
     sameBusinessUserId (Some (case peerUserId c of None \<Rightarrow> [] | Some p \<Rightarrow> p)) (Some contactId)"

definition hidePrivateConversationByContactId :: "string \<Rightarrow> chat_state \<Rightarrow> chat_state" where
  "hidePrivateConversationByContactId contactId st =
     (if contactId = [] then st
      else case find (is_private_with contactId) (conversations st) of
        Some c \<Rightarrow> hideConversationLocal (c_id c) st
      | None \<Rightarrow> st\<lparr>conversations := filter (\<lambda>c. \<not> is_private_with contactId c) (conversations st)\<rparr>)"

definition hideConversationForBlockedContact :: "string \<Rightarrow> chat_state \<Rightarrow> chat_state" where
  "hideConversationForBlockedContact contactId st =
     (if contactId = [] then st
      else hidePrivateConversationByContactId contactId (markPeerBlocked contactId st))"

definition allowGroupConversation :: "string \<Rightarrow> chat_state \<Rightarrow> chat_state" where
  "allowGroupConversation c st =
     (if c = [] \<or> c \<notin> set (exitedGroupIds st) then st
      else unhideConversation c (set_exited (set_remove c (exitedGroupIds st)) st))"

definition removeExitedGroupConversation :: "string \<Rightarrow> chat_state \<Rightarrow> chat_state" where
  "removeExitedGroupConversation c st =
     (if c = [] then st
      else let ids = map m_id (messages_of st c);
               st1 = st\<lparr>conversations := filter (\<lambda>x. c_id x \<noteq> c) (conversations st)\<rparr>;
               st2 = drop_raw ids (set_history_end c True (set_messages c [] st1)) in
        set_exited (set_add c (exitedGroupIds st2)) (set_hidden (set_add c (hiddenIds st2)) st2))"

text \<open>\<open>togglePin\<close>: the optimistic part, and the rollback when the SDK call failed.\<close>

definition togglePin_begin :: "string \<Rightarrow> chat_state \<Rightarrow> (chat_state \<times> bool) option" where
  "togglePin_begin c st = (case conversation_at st c of
     None \<Rightarrow> None
   | Some conv \<Rightarrow> Some (patchConversation c (\<lambda>x. x\<lparr>pinned := \<not> pinned conv\<rparr>) st, \<not> pinned conv))"

definition togglePin_failed :: "string \<Rightarrow> bool \<Rightarrow> chat_state \<Rightarrow> chat_state" where
  "togglePin_failed c target st = patchConversation c (\<lambda>x. x\<lparr>pinned := \<not> target\<rparr>) st"

definition dismissGroupAnnouncement :: "string \<Rightarrow> chat_state \<Rightarrow> chat_state" where
  "dismissGroupAnnouncement c st =
     (let conv = conversation_at st c;
          at = (case conv of None \<Rightarrow> None | Some x \<Rightarrow> groupAtType x);
          st1 = st\<lparr>storage := writeUnreadAnnouncement (announcementOwnerId st) c False (storage st)\<rparr>;
          keepAt = (if isAtMeType at then at else Some (group_at_code AtNormal)) in
      patchConversation c (\<lambda>x. x\<lparr>groupAtType := keepAt, highlightTags := highlightTagsOf keepAt False\<rparr>) st1)"

text \<open>\<open>reset\<close>: everything of the previous account goes, and its callbacks become stale.\<close>

definition reset :: "chat_state \<Rightarrow> chat_state" where
  "reset st = st\<lparr>sessionGeneration := Suc (sessionGeneration st), conversations := [], messagesMap := [],
     rawMessages := [], historyEnd := []\<rparr>"

section \<open>What the operations leave alone\<close>

lemma set_messages_frame [store_simps]:
  "messagesMap (set_messages c ms st) = map_set c ms (messagesMap st)"
  "conversations (set_messages c ms st) = conversations st"
  "rawMessages (set_messages c ms st) = rawMessages st"
  "historyEnd (set_messages c ms st) = historyEnd st"
  "hiddenIds (set_messages c ms st) = hiddenIds st"
  "exitedGroupIds (set_messages c ms st) = exitedGroupIds st"
  "blockedPeerKeys (set_messages c ms st) = blockedPeerKeys st"
  "storage (set_messages c ms st) = storage st"
  "retained (set_messages c ms st) = retained st"
  "imUserId (set_messages c ms st) = imUserId st"
  "activeConversationId (set_messages c ms st) = activeConversationId st"
  "sessionGeneration (set_messages c ms st) = sessionGeneration st"
  "placeholderSeq (set_messages c ms st) = placeholderSeq st"
  by (simp_all add: set_messages_def)

lemma set_history_end_frame [store_simps]:
  "messagesMap (set_history_end c e st) = messagesMap st"
  "conversations (set_history_end c e st) = conversations st"
  "rawMessages (set_history_end c e st) = rawMessages st"
  "historyEnd (set_history_end c e st) = map_set c e (historyEnd st)"
  "hiddenIds (set_history_end c e st) = hiddenIds st"
  "exitedGroupIds (set_history_end c e st) = exitedGroupIds st"
  "blockedPeerKeys (set_history_end c e st) = blockedPeerKeys st"
  "storage (set_history_end c e st) = storage st"
  "retained (set_history_end c e st) = retained st"
  "imUserId (set_history_end c e st) = imUserId st"
  "activeConversationId (set_history_end c e st) = activeConversationId st"
  "sessionGeneration (set_history_end c e st) = sessionGeneration st"
  "placeholderSeq (set_history_end c e st) = placeholderSeq st"
  by (simp_all add: set_history_end_def)

lemma drop_raw_frame [store_simps]:
  "messagesMap (drop_raw ids st) = messagesMap st"
  "conversations (drop_raw ids st) = conversations st"
  "rawMessages (drop_raw ids st) = map_delete_all ids (rawMessages st)"
  "historyEnd (drop_raw ids st) = historyEnd st"
  "hiddenIds (drop_raw ids st) = hiddenIds st"
  "exitedGroupIds (drop_raw ids st) = exitedGroupIds st"
  "blockedPeerKeys (drop_raw ids st) = blockedPeerKeys st"
  "storage (drop_raw ids st) = storage st"
  "retained (drop_raw ids st) = retained st"
  "imUserId (drop_raw ids st) = imUserId st"
  "activeConversationId (drop_raw ids st) = activeConversationId st"
  "sessionGeneration (drop_raw ids st) = sessionGeneration st"
  "placeholderSeq (drop_raw ids st) = placeholderSeq st"
  by (simp_all add: drop_raw_def)

text \<open>
  Remembering raw messages and trimming the raw window change the raw messages only; trimming
  a message window also changes that conversation's list.
\<close>

lemma raw_self [simp]: "\<exists>r. st = st\<lparr>rawMessages := r\<rparr>"
  by (rule exI [of _ "rawMessages st"]) simp

lemma trimRaw_only: "\<exists>r. trimRawMessagesWindow c st = st\<lparr>rawMessages := r\<rparr>"
  by (cases st) (auto simp: trimRawMessagesWindow_def Let_def)

lemma rememberRaw_only: "\<exists>r. rememberRaw i st = st\<lparr>rawMessages := r\<rparr>"
proof -
  obtain r where r: "trimRawMessagesWindow (conversation_of_item i)
      (st\<lparr>rawMessages := map_set (clientMsgID i) i (rawMessages st)\<rparr>)
      = st\<lparr>rawMessages := map_set (clientMsgID i) i (rawMessages st)\<rparr>\<lparr>rawMessages := r\<rparr>"
    using trimRaw_only by blast
  then show ?thesis by (auto simp: rememberRaw_def Let_def)
qed

lemma remember_all_only: "\<exists>r. remember_all is st = st\<lparr>rawMessages := r\<rparr>"
proof (induction "is" arbitrary: st)
  case Nil
  then show ?case by (cases st) auto
next
  case (Cons i "is")
  obtain r where "rememberRaw i st = st\<lparr>rawMessages := r\<rparr>" using rememberRaw_only by blast
  then show ?case using Cons [of "st\<lparr>rawMessages := r\<rparr>"] by auto
qed

lemma rememberRaw_frame [store_simps]:
  "messagesMap (rememberRaw i st) = messagesMap st" "conversations (rememberRaw i st) = conversations st"
  "historyEnd (rememberRaw i st) = historyEnd st" "hiddenIds (rememberRaw i st) = hiddenIds st"
  "exitedGroupIds (rememberRaw i st) = exitedGroupIds st" "blockedPeerKeys (rememberRaw i st) = blockedPeerKeys st"
  "storage (rememberRaw i st) = storage st" "retained (rememberRaw i st) = retained st"
  "imUserId (rememberRaw i st) = imUserId st" "activeConversationId (rememberRaw i st) = activeConversationId st"
  "sessionGeneration (rememberRaw i st) = sessionGeneration st" "placeholderSeq (rememberRaw i st) = placeholderSeq st"
  using rememberRaw_only [of i st] by auto

lemma remember_all_frame [store_simps]:
  "messagesMap (remember_all is st) = messagesMap st" "conversations (remember_all is st) = conversations st"
  "historyEnd (remember_all is st) = historyEnd st" "hiddenIds (remember_all is st) = hiddenIds st"
  "exitedGroupIds (remember_all is st) = exitedGroupIds st" "blockedPeerKeys (remember_all is st) = blockedPeerKeys st"
  "storage (remember_all is st) = storage st" "retained (remember_all is st) = retained st"
  "imUserId (remember_all is st) = imUserId st" "activeConversationId (remember_all is st) = activeConversationId st"
  "sessionGeneration (remember_all is st) = sessionGeneration st" "placeholderSeq (remember_all is st) = placeholderSeq st"
  using remember_all_only [of "is" st] by auto

lemma trimRaw_frame [store_simps]:
  "messagesMap (trimRawMessagesWindow c st) = messagesMap st"
  "conversations (trimRawMessagesWindow c st) = conversations st"
  "historyEnd (trimRawMessagesWindow c st) = historyEnd st" "hiddenIds (trimRawMessagesWindow c st) = hiddenIds st"
  "exitedGroupIds (trimRawMessagesWindow c st) = exitedGroupIds st"
  "blockedPeerKeys (trimRawMessagesWindow c st) = blockedPeerKeys st"
  "storage (trimRawMessagesWindow c st) = storage st" "retained (trimRawMessagesWindow c st) = retained st"
  "imUserId (trimRawMessagesWindow c st) = imUserId st"
  "activeConversationId (trimRawMessagesWindow c st) = activeConversationId st"
  "sessionGeneration (trimRawMessagesWindow c st) = sessionGeneration st"
  "placeholderSeq (trimRawMessagesWindow c st) = placeholderSeq st"
  using trimRaw_only [of c st] by auto

lemma trimMessageWindow_frame [store_simps]:
  "conversations (trimMessageWindow c st) = conversations st" "hiddenIds (trimMessageWindow c st) = hiddenIds st"
  "exitedGroupIds (trimMessageWindow c st) = exitedGroupIds st"
  "blockedPeerKeys (trimMessageWindow c st) = blockedPeerKeys st"
  "storage (trimMessageWindow c st) = storage st" "retained (trimMessageWindow c st) = retained st"
  "imUserId (trimMessageWindow c st) = imUserId st"
  "activeConversationId (trimMessageWindow c st) = activeConversationId st"
  "sessionGeneration (trimMessageWindow c st) = sessionGeneration st"
  "placeholderSeq (trimMessageWindow c st) = placeholderSeq st"
  by (simp_all add: trimMessageWindow_def Let_def store_simps split: option.split)

lemma trimMessageWindow_messages [store_simps]:
  "map_of (messagesMap (trimMessageWindow c st)) d =
     (if d = c then map_option (slice_last MESSAGE_WINDOW_SIZE) (map_of (messagesMap st) c)
      else map_of (messagesMap st) d)"
  by (auto simp: trimMessageWindow_def Let_def store_simps split: option.split)

lemma messages_of_trim [store_simps]:
  "messages_of (trimMessageWindow c st) d =
     (if d = c then slice_last MESSAGE_WINDOW_SIZE (messages_of st c) else messages_of st d)"
  by (simp add: map_list_def trimMessageWindow_messages split: option.split)

lemma trim_memory_messages:
  "map_of (messagesMap (trim_memory active cs st)) d =
     (if d = active then (if active \<in> set cs then map_option (slice_last MESSAGE_WINDOW_SIZE) (map_of (messagesMap st) d)
                          else map_of (messagesMap st) d)
      else if d \<in> set cs then None else map_of (messagesMap st) d)"
  by (induction cs arbitrary: st) (auto simp: store_simps option.map_comp comp_def)

lemma map_of_filter_None: "map_of m k = None \<Longrightarrow> map_of (filter P m) k = None"
  by (auto simp: map_of_eq_None_iff)

lemma trimRaw_shrinks:
  "map_of (rawMessages st) k = None \<Longrightarrow> map_of (rawMessages (trimRawMessagesWindow c st)) k = None"
  by (simp add: trimRawMessagesWindow_def Let_def map_of_filter_None)

lemma trimMessageWindow_shrinks:
  "map_of (rawMessages st) k = None \<Longrightarrow> map_of (rawMessages (trimMessageWindow c st)) k = None"
  by (simp add: trimMessageWindow_def Let_def store_simps split: option.split)

lemma trim_memory_shrinks:
  "map_of (rawMessages st) k = None \<Longrightarrow> map_of (rawMessages (trim_memory active cs st)) k = None"
  by (induction cs arbitrary: st) (simp_all add: store_simps trimRaw_shrinks trimMessageWindow_shrinks)

lemma trim_memory_raw:
  "c \<in> set cs \<Longrightarrow> c \<noteq> active \<Longrightarrow> m \<in> set (messages_of st c) \<Longrightarrow>
   map_of (rawMessages (trim_memory active cs st)) (m_id m) = None"
proof (induction cs arbitrary: st)
  case Nil
  then show ?case by simp
next
  case (Cons d cs)
  show ?case
  proof (cases "d = c")
    case True
    then show ?thesis using Cons.prems by (simp add: store_simps trim_memory_shrinks)
  next
    case False
    then show ?thesis using Cons by (simp add: store_simps)
  qed
qed

text \<open>A page from the SDK.\<close>

lemma toChatMessage_frame [store_simps]:
  "m_id (toChatMessage i) = clientMsgID i" "m_conversation (toChatMessage i) = conversation_of_item i"
  "m_seq (toChatMessage i) = nonzero (seq_of i)"
  by (simp_all add: toChatMessage_def)

lemma removed_no_seq [simp]: "\<not> removed r c (seq_view None)"
  by (simp add: removed_def seq_view_def retentionSeq_def Let_def jget_def positiveSafeInteger_def)

lemma with_read_ids [simp]: "m_id ` set (with_read e ms) = m_id ` set ms"
  unfolding with_read_def set_map image_image by (rule image_cong) auto

lemma visible_page_ids: "m_id ` set (visible_page st c page) \<subseteq> clientMsgID ` set page"
  by (auto simp: visible_page_def store_simps)

lemma set_mergeLocalPending:
  "set (mergeLocalPending now h e) \<subseteq> set h \<union> set e"
  by (auto simp: mergeLocalPending_def)

lemma messages_loaded_list:
  assumes "visible_page st c page \<noteq> [] \<or> filter_messages (retained st) c before = []"
  shows "messages_of (messages_loaded now c before page e st) c =
    slice_last MESSAGE_WINDOW_SIZE (filter_messages (retained st) c
      (mergeLocalPending now (with_read (filter_messages (retained st) c before) (visible_page st c page))
        (filter_messages (retained st) c before)))"
  using assms by (auto simp: messages_loaded_def Let_def store_simps visible_page_def)

lemma messages_loaded_skip:
  assumes "visible_page st c page = []" and "filter_messages (retained st) c before \<noteq> []"
  shows "messages_of (messages_loaded now c before page e st) d = messages_of st d"
  using assms by (auto simp: messages_loaded_def Let_def store_simps visible_page_def)

lemma retain_head:
  assumes "mid \<in> m_id ` set (messages_of st c)"
  shows "\<exists>m ms. messages_of (retainFromMessage c mid st) c = m # ms \<and> m_id m = mid \<and>
    set (m # ms) \<subseteq> set (messages_of st c)"
proof -
  have "find_index (\<lambda>m. m_id m = mid) (messages_of st c) \<noteq> None"
    using assms by (auto simp: find_index_None)
  then obtain i where f: "find_index (\<lambda>m. m_id m = mid) (messages_of st c) = Some i" by blast
  then have i: "i < length (messages_of st c)" "m_id (messages_of st c ! i) = mid"
    using find_index_Some by blast+
  have "messages_of (retainFromMessage c mid st) c = drop i (messages_of st c)"
    using f by (simp add: retainFromMessage_def Let_def store_simps)
  then show ?thesis
    using i Cons_nth_drop_Suc [OF i(1)] set_drop_subset by metis
qed

lemma locate_page_found:
  assumes "snd (locate_page c mid list page e st) = Some True"
  shows "\<exists>m ms. messages_of (fst (locate_page c mid list page e st)) c = m # ms \<and> m_id m = mid"
proof -
  define st2 where "st2 = remember_all page (set_history_end c e st)"
  define merged where "merged = filter_messages (retained st2) c (visible_page st2 c page @ list)"
  have "mid \<in> m_id ` set merged" and p: "page \<noteq> []"
    using assms by (auto simp: locate_page_def Let_def merged_def st2_def split: if_splits)
  then have "mid \<in> m_id ` set (messages_of (set_messages c merged st2) c)"
    by (simp add: store_simps)
  then show ?thesis
    using retain_head [of mid "set_messages c merged st2" c] p \<open>mid \<in> m_id ` set merged\<close>
    by (simp add: locate_page_def Let_def flip: merged_def st2_def) blast
qed

lemma locate_loop_found:
  "snd (locate_loop n fetch c mid st) \<Longrightarrow>
   \<exists>m ms. messages_of (fst (locate_loop n fetch c mid st)) c = m # ms \<and> m_id m = mid"
proof (induction n arbitrary: st)
  case 0
  then show ?case by simp
next
  case (Suc n)
  then obtain cursor list where b: "load_more_begin c st = Some (cursor, list)" "cursor \<noteq> []"
    by (auto simp: Let_def split: option.splits if_splits prod.splits)
  show ?case
  proof (cases "snd (locate_page c mid list (fst (fetch cursor)) (snd (fetch cursor)) st)")
    case None
    then show ?thesis using Suc b by (simp add: Let_def)
  next
    case (Some found)
    then show ?thesis using Suc.prems b locate_page_found by (simp add: Let_def)
  qed
qed

text \<open>Marking a conversation read.\<close>

lemma conversation_at_index:
  "conversation_at st c = (case find_index (\<lambda>x. c_id x = c) (conversations st) of
     None \<Rightarrow> None | Some i \<Rightarrow> Some (conversations st ! i))"
proof -
  have "find P xs = (case find_index P xs of None \<Rightarrow> None | Some i \<Rightarrow> Some (xs ! i))" for P and xs :: "conversation list"
    by (induction xs) (auto split: option.split)
  then show ?thesis by (simp add: conversation_at_def)
qed

lemma conversation_at_Some: "conversation_at st c = Some x \<Longrightarrow> x \<in> set (conversations st) \<and> c_id x = c"
  by (auto simp: conversation_at_def find_Some_iff)

lemma conversation_at_unique:
  "distinct (map c_id (conversations st)) \<Longrightarrow>
   conversation_at st c = Some x \<longleftrightarrow> x \<in> set (conversations st) \<and> c_id x = c"
proof -
  assume d: "distinct (map c_id (conversations st))"
  have "find (\<lambda>x. c_id x = c) xs = Some x \<longleftrightarrow> x \<in> set xs \<and> c_id x = c"
    if "distinct (map c_id xs)" for xs using that by (induction xs) auto
  with d show ?thesis by (simp add: conversation_at_def)
qed

lemma conversation_at_patch:
  assumes d: "distinct (map c_id (conversations st))" and f: "\<And>x. c_id x = c \<Longrightarrow> c_id (f x) = c"
  shows "conversation_at (patchConversation c f st) e =
    (if e = c then map_option f (conversation_at st c) else conversation_at st e)"
proof (cases "find_index (\<lambda>x. c_id x = c) (conversations st)")
  case None
  then show ?thesis by (simp add: patchConversation_def conversation_at_index)
next
  case (Some i)
  let ?cs = "conversations st" and ?st = "patchConversation c f st"
  have i: "i < length ?cs" "c_id (?cs ! i) = c" using find_index_Some [OF Some] by blast+
  have at: "conversation_at st c = Some (?cs ! i)" using Some by (simp add: conversation_at_index)
  have ids: "map c_id (?cs[i := f (?cs ! i)]) = map c_id ?cs"
    using i f by (intro map_id_update) simp_all
  have dst: "distinct (map c_id (conversations ?st))"
    using patchConversation_ids(1) [of st c f] d f by simp
  have set: "set (conversations ?st) = insert (f (?cs ! i)) (set ?cs - {?cs ! i})"
    using Some i d by (simp add: patchConversation_def set_update_distinct distinct_map)
  have uniq: "x \<in> set ?cs \<Longrightarrow> c_id x = c \<Longrightarrow> x = ?cs ! i" for x
    using at conversation_at_unique [OF d] by (metis option.inject)
  show ?thesis
  proof (cases "e = c")
    case True
    then show ?thesis using conversation_at_unique [OF dst, of c "f (?cs ! i)"] set at f i by simp
  next
    case False
    have "conversation_at ?st e = Some x \<longleftrightarrow> conversation_at st e = Some x" for x
      unfolding conversation_at_unique [OF dst] conversation_at_unique [OF d] set
      using False f i by auto
    then show ?thesis using False by (metis not_Some_eq)
  qed
qed

lemma find_id_update:
  "distinct (map c_id cs) \<Longrightarrow> i < length cs \<Longrightarrow> c_id y = c_id (cs ! i) \<Longrightarrow>
   find (\<lambda>x. c_id x = e) (cs[i := y]) = (if e = c_id y then Some y else find (\<lambda>x. c_id x = e) cs)"
proof (induction cs arbitrary: i)
  case Nil
  then show ?case by simp
next
  case (Cons x xs)
  show ?case
  proof (cases i)
    case 0
    then show ?thesis using Cons.prems by simp
  next
    case (Suc k)
    then have "k < length xs" "c_id y = c_id (xs ! k)" using Cons.prems by simp_all
    moreover from this have "c_id x \<noteq> c_id y" using Cons.prems by (auto simp: image_iff)
    ultimately show ?thesis using Cons.IH [of k] Cons.prems Suc by auto
  qed
qed

lemma conversation_at_clear:
  assumes "distinct (map c_id (conversations st))"
  shows "conversation_at (clear_unread c st) e =
    (if e = c then map_option (\<lambda>x. x\<lparr>unreadCount := 0\<rparr>) (conversation_at st c) else conversation_at st e)"
proof (cases "find_index (\<lambda>x. c_id x = c) (conversations st)")
  case None
  then show ?thesis by (simp add: clear_unread_def conversation_at_index)
next
  case (Some i)
  have "i < length (conversations st)" "c_id (conversations st ! i) = c" using find_index_Some [OF Some] by blast+
  then show ?thesis
    using Some assms find_id_update [of "conversations st" i "(conversations st ! i)\<lparr>unreadCount := 0\<rparr>" e]
    by (simp add: clear_unread_def conversation_at_def conversation_at_index [of st c, unfolded conversation_at_def])
qed

lemma clear_unread_frame [store_simps]:
  "storage (clear_unread c st) = storage st" "imUserId (clear_unread c st) = imUserId st"
  "messagesMap (clear_unread c st) = messagesMap st" "retained (clear_unread c st) = retained st"
  "rawMessages (clear_unread c st) = rawMessages st" "sessionGeneration (clear_unread c st) = sessionGeneration st"
  "hiddenIds (clear_unread c st) = hiddenIds st" "exitedGroupIds (clear_unread c st) = exitedGroupIds st"
  "blockedPeerKeys (clear_unread c st) = blockedPeerKeys st"
  "activeConversationId (clear_unread c st) = activeConversationId st"
  by (simp_all add: clear_unread_def split: option.split)

lemma clear_unread_ids:
  "map c_id (conversations (clear_unread c st)) = map c_id (conversations st)"
proof (cases "find_index (\<lambda>x. c_id x = c) (conversations st)")
  case None
  then show ?thesis by (simp add: clear_unread_def)
next
  case (Some i)
  then show ?thesis
    using find_index_length [OF Some] by (simp add: clear_unread_def map_id_update)
qed

text \<open>What the removals leave in the sets and in the storage.\<close>

lemma hide_storage:
  "storage (hideConversationLocal c st) = write_id_set (hiddenStorageKey st) (set_add c (hiddenIds st)) (storage st)"
  by (simp add: hideConversationLocal_def Let_def store_simps hiddenStorageKey_def storage_user_def)

lemma hide_private_storage:
  "k \<noteq> hiddenStorageKey st \<Longrightarrow>
   storage_read (storage (hidePrivateConversationByContactId i st)) k = storage_read (storage st) k"
  by (auto simp: hidePrivateConversationByContactId_def hide_storage split: option.split)

lemma block_storage:
  assumes "i \<noteq> []" and "storable (blockedPeerKeys st)" and "normalizePeerKey i \<noteq> []"
  shows "read_id_set parse (storage (hideConversationForBlockedContact i st)) (blockedPeerStorageKey st)
    = set_add (normalizePeerKey i) (blockedPeerKeys st)"
proof -
  have "storage_read (storage (hideConversationForBlockedContact i st)) (blockedPeerStorageKey st)
      = storage_read (storage (markPeerBlocked i st)) (blockedPeerStorageKey st)"
    using assms(1) by (simp add: hideConversationForBlockedContact_def hide_private_storage)
  then show ?thesis
    using assms read_written_id_set [of "set_add (normalizePeerKey i) (blockedPeerKeys st)" parse
        "blockedPeerStorageKey st" "storage st"]
    by (simp add: read_id_set_def markPeerBlocked_def store_simps)
qed

lemma exit_storage:
  "storage (removeExitedGroupConversation c st) = (if c = [] then storage st
     else write_id_set (exitedGroupStorageKey st) (set_add c (exitedGroupIds st))
            (write_id_set (hiddenStorageKey st) (set_add c (hiddenIds st)) (storage st)))"
  by (simp add: removeExitedGroupConversation_def Let_def store_simps hiddenStorageKey_def
      exitedGroupStorageKey_def storage_user_def)

section \<open>Properties\<close>

text \<open>C9: Leaving a room bounds the memory: of all loaded messages only the last 200 of the room stay,
  no other conversation keeps a list, and the raw messages of the freed lists are gone.\<close>

theorem memory_is_bounded:
  assumes active: "active \<noteq> []"
  shows "messages_of (trimConversationMemory active st) active = slice_last 200 (messages_of st active) \<and>
    (\<forall>c. c \<noteq> active \<longrightarrow> map_of (messagesMap (trimConversationMemory active st)) c = None \<and>
       (\<forall>m \<in> set (messages_of st c). map_of (rawMessages (trimConversationMemory active st)) (m_id m) = None))"
proof -
  let ?ks = "map fst (messagesMap st)"
  have absent: "k \<notin> set ?ks \<Longrightarrow> map_of (messagesMap st) k = None" for k
    by (simp add: map_of_eq_None_iff)
  have t: "trimConversationMemory active st = trim_memory active ?ks st"
    using active by (simp add: trimConversationMemory_def)
  have "messages_of (trim_memory active ?ks st) active = slice_last 200 (messages_of st active)"
    using absent [of active]
    by (cases "map_of (messagesMap st) active")
      (auto simp: map_list_def trim_memory_messages MESSAGE_WINDOW_SIZE_def split: if_splits)
  moreover have "c \<noteq> active \<Longrightarrow> map_of (messagesMap (trim_memory active ?ks st)) c = None" for c
    using absent [of c] by (simp add: trim_memory_messages)
  moreover have "map_of (rawMessages (trim_memory active ?ks st)) (m_id m) = None"
    if "c \<noteq> active" "m \<in> set (messages_of st c)" for c m
  proof (rule trim_memory_raw [OF _ that])
    show "c \<in> set ?ks" using absent [of c] that(2) by (cases "c \<in> set ?ks") (auto simp: map_list_def)
  qed
  ultimately show ?thesis unfolding t by blast
qed


text \<open>C11: Loading pages overwrites the list it read before its request: a message that arrived while
  the request was under way, and that the answer does not contain, is gone from the list once
  the answer is processed, both for a reload with a non-empty answer and for an older page.\<close>

theorem arrival_during_load_is_lost:
  assumes new: "m_id m \<notin> m_id ` set before" "m_id m \<notin> clientMsgID ` set page"
    and page: "visible_page st c page \<noteq> []"
  shows "m_id m \<notin> m_id ` set (messages_of (messages_loaded now c before page e st) c) \<and>
    m_id m \<notin> m_id ` set (messages_of (fst (more_loaded c before page e st)) c)"
proof
  let ?ex = "filter_messages (retained st) c before" and ?vp = "visible_page st c page"
  have ids: "m_id m \<notin> m_id ` set (with_read ?ex ?vp)" "m_id m \<notin> m_id ` set ?ex" "m_id m \<notin> m_id ` set ?vp"
    using new visible_page_ids [of st c page] by (auto simp: filter_visible_def)
  have sub: "set (messages_of (messages_loaded now c before page e st) c) \<subseteq> set (with_read ?ex ?vp) \<union> set ?ex"
    using page set_slice_last set_mergeLocalPending [of now "with_read ?ex ?vp" ?ex]
    by (subst messages_loaded_list) (fastforce simp: filter_visible_def)+
  show "m_id m \<notin> m_id ` set (messages_of (messages_loaded now c before page e st) c)"
    using ids image_mono [OF sub, of m_id] unfolding image_Un by blast
  have p: "page \<noteq> []" using page by (auto simp: visible_page_def)
  have "visible_page (remember_all page (set_history_end c e st)) c page = ?vp"
    by (simp add: visible_page_def store_simps)
  then have "set (messages_of (fst (more_loaded c before page e st)) c) \<subseteq> set ?vp \<union> set before"
    using page p by (auto simp: more_loaded_def Let_def store_simps filter_visible_def)
  then show "m_id m \<notin> m_id ` set (messages_of (fst (more_loaded c before page e st)) c)"
    using ids new by auto
qed

text \<open>When jumping to a search result succeeds, the message it looked for is in the room and is
  the first of the list, however many of the at most 20 pages it took.\<close>

theorem locate_shows_target:
  "snd (locate_loop 20 fetch c mid st) \<Longrightarrow>
   \<exists>m ms. messages_of (fst (locate_loop 20 fetch c mid st)) c = m # ms \<and> m_id m = mid"
  by (rule locate_loop_found)

text \<open>Entering a conversation settles its row: nothing unread, and for a group neither reminder
  tag nor an unread announcement is left; every other row is the one it was.\<close>

theorem mark_read_settles:
  assumes d: "distinct (map c_id (conversations st))" and c: "c \<noteq> []"
    and conv: "conversation_at st c = Some conv"
  shows "(\<exists>x. conversation_at (markAsRead c st) c = Some x \<and> unreadCount x = 0 \<and>
       (c_type conv = GroupChat \<longrightarrow> highlightTags x = [] \<and> \<not> isAtMeType (groupAtType x) \<and>
          unreadAnnouncementState (storage (markAsRead c st)) (announcementOwnerId st) c = Some False)) \<and>
    (\<forall>e. e \<noteq> c \<longrightarrow> conversation_at (markAsRead c st) e = conversation_at st e)"
proof -
  let ?s = "writeUnreadAnnouncement (announcementOwnerId st) c False (storage st)"
  let ?st2 = "(clear_unread c st)\<lparr>storage := ?s\<rparr>"
  have d1: "distinct (map c_id (conversations (clear_unread c st)))" using d clear_unread_ids by simp
  have at2: "conversation_at (st'\<lparr>storage := s\<rparr>) e = conversation_at st' e" for st' s e
    by (simp add: conversation_at_def)
  have id: "c_id conv = c" using conv conversation_at_Some by blast
  have tags: "highlightTagsOf (Some 0) False = []" by (simp add: highlightTagsOf_def isAtMeType_def)
  show ?thesis
    using conv id c tags
    by (auto simp: markAsRead_def Let_def conversation_at_clear [OF d] at2 store_simps
        conversation_at_patch [of ?st2, simplified, OF d1])
qed

text \<open>C12: What the user removed stays removed across a restart: when the app comes up again with the
  same account and the storage that hiding a conversation, leaving a group, or blocking a
  contact left behind, no row of that conversation, group or contact is listed, whatever list
  it starts from.\<close>

theorem local_removal_survives_restart:
  assumes c: "c \<noteq> []" and i: "normalizePeerKey i \<noteq> []" "i \<noteq> []"
    and sets: "storable (hiddenIds st)" "storable (exitedGroupIds st)" "storable (blockedPeerKeys st)"
  shows "(storage new = storage (hideConversationLocal c st) \<longrightarrow>
        c \<notin> c_id ` set (conversations (user_changed parse (imUserId st) new))) \<and>
     (storage new = storage (removeExitedGroupConversation c st) \<longrightarrow>
        c \<notin> c_id ` set (conversations (user_changed parse (imUserId st) new))) \<and>
     (storage new = storage (hideConversationForBlockedContact i st) \<longrightarrow>
        (\<forall>x \<in> set (conversations (user_changed parse (imUserId st) new)).
           c_type x = PrivateChat \<longrightarrow> (\<forall>p. peerUserId x = Some p \<and> p \<noteq> [] \<longrightarrow>
             normalizePeerKey p \<noteq> normalizePeerKey i)))"
proof -
  note ch = user_changed_sets [of st "imUserId st" parse new, OF refl]
  have shown: "x \<in> set (conversations (user_changed parse (imUserId st) new)) \<Longrightarrow>
      shouldShowConversation (user_changed parse (imUserId st) new) x" for x
    by (simp add: user_changed_list)
  have hidden: "c \<notin> c_id ` set (conversations (user_changed parse (imUserId st) new))"
    if "c \<in> set (hiddenIds (user_changed parse (imUserId st) new)) \<or>
        c \<in> set (exitedGroupIds (user_changed parse (imUserId st) new))"
    using that shown shouldShowConversation_iff by blast
  show ?thesis
  proof (intro conjI impI)
    assume "storage new = storage (hideConversationLocal c st)"
    then show "c \<notin> c_id ` set (conversations (user_changed parse (imUserId st) new))"
      using c sets by (intro hidden disjI1) (simp add: ch hide_storage read_written_id_set)
  next
    assume "storage new = storage (removeExitedGroupConversation c st)"
    then show "c \<notin> c_id ` set (conversations (user_changed parse (imUserId st) new))"
      using c sets by (intro hidden disjI2) (simp add: ch exit_storage read_written_id_set)
  next
    assume "storage new = storage (hideConversationForBlockedContact i st)"
    then have "blockedPeerKeys (user_changed parse (imUserId st) new) = set_add (normalizePeerKey i) (blockedPeerKeys st)"
      using i sets by (simp add: ch block_storage)
    then show "\<forall>x \<in> set (conversations (user_changed parse (imUserId st) new)).
           c_type x = PrivateChat \<longrightarrow> (\<forall>p. peerUserId x = Some p \<and> p \<noteq> [] \<longrightarrow>
             normalizePeerKey p \<noteq> normalizePeerKey i)"
      using shown shouldShowConversation_iff by (fastforce simp: isBlockedPeer_def)
  qed
qed

section \<open>Samples\<close>

definition sample_address :: im_address where
  "sample_address = \<lparr>conversationID = Some ''sg_1'', conversationID_pascal = None,
     sessionType = None, sessionType_pascal = None, sendID = Some ''u2'', sendID_pascal = None,
     recvID = None, recvID_pascal = None, groupID = None, groupID_pascal = None\<rparr>"

definition sample_message :: "string \<Rightarrow> message_status \<Rightarrow> chat_message" where
  "sample_message i s = \<lparr>m_id = i, m_conversation = ''sg_1'', senderId = ''u2'', senderNickname = None,
     m_type = KText, m_content = ''hi'', createdAt = 5, notificationKind = None, quoted_id = None,
     hasRead = False, m_seq = None, trackGroupRead = False, m_status = Some s\<rparr>"

definition sample_item :: "string \<Rightarrow> message_item" where
  "sample_item i = \<lparr>clientMsgID = i, address = sample_address, contentType = 101, raw = JObj [],
     seq_of = 0, pin_of = None, view = sample_message i Sent\<rparr>"

definition sample_store :: chat_state where
  "sample_store = empty_store\<lparr>conversations := [sample_row_of ''sg_1'' GroupChat 5 3],
     messagesMap := [(''sg_1'', [sample_message ''m1'' Sent, sample_message ''l1'' Sending]),
                     (''sg_2'', [sample_message ''m9'' Sent])],
     rawMessages := [(''m9'', sample_item ''m9'')]\<rparr>"

lemma memory_is_bounded_witness:
  "map_of (rawMessages (trimConversationMemory ''sg_1'' sample_store)) (m_id (sample_message ''m9'' Sent)) = None"
proof -
  have m: "sample_message ''m9'' Sent \<in> set (messages_of sample_store ''sg_2'')"
    by (simp add: sample_store_def map_list_def)
  have ne: "''sg_2'' \<noteq> ''sg_1''" "''sg_1'' \<noteq> []" by simp_all
  show ?thesis
    by (rule memory_is_bounded [OF ne(2), THEN conjunct2, rule_format, OF ne(1), THEN conjunct2, rule_format, OF m])
qed


lemma arrival_during_load_is_lost_witness:
  "''m3'' \<notin> m_id ` set (messages_of (messages_loaded 99 ''sg_1'' (messages_of sample_store ''sg_1'')
     [sample_item ''m1'', sample_item ''m2''] False
     (set_messages ''sg_1'' (messages_of sample_store ''sg_1'' @ [sample_message ''m3'' Sent]) sample_store)) ''sg_1'')"
proof -
  let ?st = "set_messages ''sg_1'' (messages_of sample_store ''sg_1'' @ [sample_message ''m3'' Sent]) sample_store"
  have "visible_page ?st ''sg_1'' [sample_item ''m1'', sample_item ''m2''] \<noteq> []" by code_simp
  then show ?thesis
    using arrival_during_load_is_lost [of "sample_message ''m3'' Sent" "messages_of sample_store ''sg_1''"
        "[sample_item ''m1'', sample_item ''m2'']" ?st "''sg_1''" 99 False]
    by (simp add: sample_store_def sample_message_def sample_item_def map_list_def)
qed

lemma locate_shows_target_witness:
  "\<exists>m ms. messages_of (fst (locate_loop 20 (\<lambda>_. ([sample_item ''m0''], False)) ''sg_1'' ''m0'' sample_store)) ''sg_1'' = m # ms
     \<and> m_id m = ''m0''"
  by (rule locate_shows_target) code_simp

lemma mark_read_settles_witness:
  "\<exists>x. conversation_at (markAsRead ''sg_1'' sample_store) ''sg_1'' = Some x \<and> unreadCount x = 0"
  using mark_read_settles [of sample_store "''sg_1''" "sample_row_of ''sg_1'' GroupChat 5 3"]
  by (auto simp: sample_store_def conversation_at_def sample_row_of_def)

lemma local_removal_survives_restart_witness:
  "''sg_1'' \<notin> c_id ` set (conversations (user_changed (\<lambda>_. None) ''u1''
     (sample_store\<lparr>storage := storage (hideConversationLocal ''sg_1'' sample_store)\<rparr>)))"
proof -
  have key: "normalizePeerKey ''u2'' \<noteq> []" by code_simp
  show ?thesis
    using local_removal_survives_restart [of "''sg_1''" "''u2''" sample_store
        "sample_store\<lparr>storage := storage (hideConversationLocal ''sg_1'' sample_store)\<rparr>" "\<lambda>_. None", OF _ key]
    by (simp add: storable_def sample_store_def empty_store_def)
qed

end
