(* ===== verification/ChatIncoming.thy ===== *)
theory ChatIncoming
  imports ChatHistory
begin

text \<open>
  What the SDK pushes into the chat store (\<open>src/IM-APP-fronend/src/stores/chat.ts\<close>): new messages,
  pin synchronisation, revocations. A handler returns the new state and the calls it starts
  without waiting for them; what such a call does when it completes is an operation of its own.
\<close>

section \<open>Effects\<close>

datatype chat_effect =
    ApplyPin string pin_payload
  | FetchConversation string
  | MarkRead string
  | RoomDissolved chat_message
  | PlaySound
  | Vibrate

section \<open>Kinds of SDK messages\<close>

definition custom_message :: int where "custom_message = 110"

definition isGroupAnnouncementNotice :: "int \<Rightarrow> bool" where
  "isGroupAnnouncementNotice kind \<longleftrightarrow> kind = 1519"

definition dissolved :: "chat_message \<Rightarrow> bool" where
  "dissolved m \<longleftrightarrow> notificationKind m = Some ''dissolved''"

text \<open>\<open>previewOf\<close>: the bracketed labels, in UTF-8.\<close>

definition label_image :: string where
  "label_image =
     ''['' @ [CHR 0xE5, CHR 0x9B, CHR 0xBE, CHR 0xE7, CHR 0x89, CHR 0x87] @ '']''"

definition label_voice :: string where
  "label_voice =
     ''['' @ [CHR 0xE8, CHR 0xAF, CHR 0xAD, CHR 0xE9, CHR 0x9F, CHR 0xB3] @ '']''"

definition label_video :: string where
  "label_video =
     ''['' @ [CHR 0xE8, CHR 0xA7, CHR 0x86, CHR 0xE9, CHR 0xA2, CHR 0x91] @ '']''"

definition label_file :: string where
  "label_file =
     ''['' @ [CHR 0xE6, CHR 0x96, CHR 0x87, CHR 0xE4, CHR 0xBB, CHR 0xB6] @ '']''"

definition label_card :: string where
  "label_card =
     ''['' @ [CHR 0xE5, CHR 0x90, CHR 0x8D, CHR 0xE7, CHR 0x89, CHR 0x87] @ '']''"

definition label_invite :: string where
  "label_invite =
     ''['' @ [CHR 0xE7, CHR 0xBE, CHR 0xA4, CHR 0xE9, CHR 0x82, CHR 0x80, CHR 0xE8, CHR 0xAF,
     CHR 0xB7] @ '']''"

definition previewOf :: "chat_message \<Rightarrow> string" where
  "previewOf m = (case m_type m of
     KImage \<Rightarrow> label_image | KVoice \<Rightarrow> label_voice | KVideo \<Rightarrow> label_video | KFile \<Rightarrow> label_file
   | KCard \<Rightarrow> label_card | KGroupInvite \<Rightarrow> label_invite | KText \<Rightarrow> m_content m | KSystem \<Rightarrow> m_content m)"

section \<open>A new message\<close>

text \<open>The other side of a message, and the test that keeps a blocked peer's chat hidden.\<close>

definition sent_by_me :: "chat_state \<Rightarrow> message_item \<Rightarrow> bool" where
  "sent_by_me st item = (sendID (address item) = Some (imUserId st))"

definition from_blocked :: "chat_state \<Rightarrow> message_item \<Rightarrow> bool" where
  "from_blocked st item =
     (let peer = (if sent_by_me st item then recvID (address item) else sendID (address item)) in
      isBlockedPeer st peer \<or>
      isBlockedPeer st (Some (businessUserIdFromIM (case peer of None \<Rightarrow> [] | Some p \<Rightarrow> p))))"

text \<open>
  The last part of \<open>appendMessage\<close>: the message joins the list, unless it is there already, and
  the conversation row shows it.
\<close>

definition deliver :: "message_item \<Rightarrow> chat_message \<Rightarrow> chat_state \<Rightarrow> chat_state \<times> chat_effect list" where
  "deliver item m st =
     (let c = m_conversation m; list = messages_of st c in
      if m_id m \<in> m_id ` set list then (st, [])
      else let st1 = set_messages c (list @ [m]) st;
               st2 = (if c \<noteq> activeConversationId st1 then trimMessageWindow c st1 else st1);
               viewing = (activeConversationId st2 \<noteq> [] \<and> c = activeConversationId st2);
               old = (case conversation_at st2 c of None \<Rightarrow> 0 | Some x \<Rightarrow> unreadCount x);
               n = (if viewing \<or> sent_by_me st2 item then 0
                    else old + (if isIMNotification (contentType item) then 0 else 1))
        in (patchConversation c (\<lambda>x. x\<lparr>lastMessage := previewOf m, lastMessageAt := Some (createdAt m),
              lastMessageSeq := m_seq m, lastMessageId := Some (m_id m), unreadCount := n\<rparr>) st2,
            if viewing then [MarkRead c] else []))"

definition appendMessage :: "message_item \<Rightarrow> chat_state \<Rightarrow> chat_state \<times> chat_effect list" where
  "appendMessage item st =
     (let inc = conversation_of_item item in
      if clientMsgID item = [] then (st, [])
      else if removed (retained st) inc (raw item) then (st, [])
      else if inc \<noteq> [] \<and> inc \<in> set (exitedGroupIds st) then (st, [])
      else if contentType item = custom_message \<and> pin_of item \<noteq> None \<and> inc \<noteq> []
        then (rememberRaw item st, [ApplyPin inc (the (pin_of item))])
      else
        let st1 = rememberRaw item st; m = toChatMessage item; c = m_conversation m in
        if c = [] then (st1, [])
        else let st2 = (if isGroupAnnouncementNotice (contentType item)
                        then setUnreadAnnouncement c True st1 else st1);
                 e1 = (if dissolved m then [RoomDissolved m] else []) in
          if c \<in> set (hiddenIds st2) then
            (if dissolved m \<or> isIMNotification (contentType item) then (st2, e1)
             else if from_blocked st2 item then (st2, e1)
             else let r = deliver item m (unhideConversation c st2) in
               (fst r, e1 @ [FetchConversation c] @ snd r))
          else let r = deliver item m st2 in (fst r, e1 @ snd r))"

fun append_all :: "message_item list \<Rightarrow> chat_state \<Rightarrow> chat_state \<times> chat_effect list" where
  "append_all [] st = (st, [])"
| "append_all (i # is) st =
     (let r = appendMessage i st; q = append_all is (fst r) in (fst q, snd r @ snd q))"

text \<open>The settings that \<open>maybeNotifyIncoming\<close> reads.\<close>

record chat_settings =
  noDisturb :: bool
  sound :: bool
  vibration :: bool

definition audible :: "chat_state \<Rightarrow> message_item \<Rightarrow> bool" where
  "audible st item =
     (if sent_by_me st item then False
      else if isIMNotification (contentType item) then False
      else (case conversation_at st (conversation_of_item item) of None \<Rightarrow> True | Some c \<Rightarrow> \<not> muted c))"

definition maybeNotifyIncoming :: "chat_settings \<Rightarrow> message_item list \<Rightarrow> chat_state \<Rightarrow> chat_effect list" where
  "maybeNotifyIncoming cfg list st =
     (if noDisturb cfg \<or> \<not> sound cfg then []
      else if \<not> list_ex (audible st) list then []
      else PlaySound # (if vibration cfg then [Vibrate] else []))"

definition ingestIncoming ::
    "chat_settings \<Rightarrow> message_item list \<Rightarrow> chat_state \<Rightarrow> chat_state \<times> chat_effect list" where
  "ingestIncoming cfg source st =
     (let list = filter (\<lambda>i. \<not> removed (retained st) (conversation_of_item i) (raw i))
                   (filter (\<lambda>i. clientMsgID i \<noteq> []) source) in
      if list = [] then (st, [])
      else let r = append_all list st in (fst r, snd r @ maybeNotifyIncoming cfg list (fst r)))"

section \<open>Pinned messages\<close>

text \<open>\<open>applyIncomingMessagePin\<close>: \<open>now\<close> is the clock when the message arrived.\<close>

definition incoming_pin :: "int \<Rightarrow> pin_payload \<Rightarrow> pin_field" where
  "incoming_pin now p = (case p of
     PayloadUnpin \<Rightarrow> PinNull
   | PayloadPin q \<Rightarrow> PinSet (q\<lparr>pin_shared := True, pinnedAt := now\<rparr>))"

definition applyIncomingMessagePin :: "int \<Rightarrow> string \<Rightarrow> pin_payload \<Rightarrow> chat_state \<Rightarrow> chat_state" where
  "applyIncomingMessagePin now c p st = patchConversation c (\<lambda>x. x\<lparr>pinnedMessage := incoming_pin now p\<rparr>) st"

definition pinChatMessage :: "string \<Rightarrow> pin \<Rightarrow> chat_state \<Rightarrow> chat_state" where
  "pinChatMessage c p st = patchConversation c (\<lambda>x. x\<lparr>pinnedMessage := PinSet p\<rparr>) st"

definition unpinChatMessage :: "string \<Rightarrow> chat_state \<Rightarrow> chat_state" where
  "unpinChatMessage c st = patchConversation c (\<lambda>x. x\<lparr>pinnedMessage := PinNull\<rparr>) st"

section \<open>Revocation\<close>

definition tip_revoked_self :: string where
  "tip_revoked_self =
     [CHR 0xE4, CHR 0xBD, CHR 0xA0, CHR 0xE6, CHR 0x92, CHR 0xA4, CHR 0xE5, CHR 0x9B, CHR
     0x9E, CHR 0xE4, CHR 0xBA, CHR 0x86, CHR 0xE4, CHR 0xB8, CHR 0x80, CHR 0xE6, CHR 0x9D,
     CHR 0xA1, CHR 0xE6, CHR 0xB6, CHR 0x88, CHR 0xE6, CHR 0x81, CHR 0xAF]"

definition label_peer :: string where
  "label_peer =
     [CHR 0xE5, CHR 0xAF, CHR 0xB9, CHR 0xE6, CHR 0x96, CHR 0xB9]"

definition tip_revoked :: string where
  "tip_revoked =
     '' '' @ [CHR 0xE6, CHR 0x92, CHR 0xA4, CHR 0xE5, CHR 0x9B, CHR 0x9E, CHR 0xE4, CHR 0xBA,
     CHR 0x86, CHR 0xE4, CHR 0xB8, CHR 0x80, CHR 0xE6, CHR 0x9D, CHR 0xA1, CHR 0xE6, CHR
     0xB6, CHR 0x88, CHR 0xE6, CHR 0x81, CHR 0xAF]"

text \<open>The \<open>OnNewRecvMessageRevoked\<close> handler; absent and empty fields are the empty string.\<close>

record revoked_notice =
  revoked_conversation :: string
  revoked_id :: string
  revoker_id :: string
  revoker_nickname :: string

definition on_revoked :: "revoked_notice \<Rightarrow> chat_state \<Rightarrow> chat_state" where
  "on_revoked info st =
     (let c = or_else (revoked_conversation info) (findConversationIdByMsgId (revoked_id info) st) in
      if c = [] then st
      else dropRevokedMessage c (revoked_id info)
             (if revoker_id info \<noteq> [] \<and> revoker_id info = imUserId st then tip_revoked_self
              else or_else (revoker_nickname info) label_peer @ tip_revoked) st)"

section \<open>Lemmas\<close>

lemma setUnread_frame [store_simps]:
  "messagesMap (setUnreadAnnouncement c f st) = messagesMap st"
  "rawMessages (setUnreadAnnouncement c f st) = rawMessages st"
  "hiddenIds (setUnreadAnnouncement c f st) = hiddenIds st"
  "exitedGroupIds (setUnreadAnnouncement c f st) = exitedGroupIds st"
  "blockedPeerKeys (setUnreadAnnouncement c f st) = blockedPeerKeys st"
  "retained (setUnreadAnnouncement c f st) = retained st"
  "imUserId (setUnreadAnnouncement c f st) = imUserId st"
  "activeConversationId (setUnreadAnnouncement c f st) = activeConversationId st"
  "sessionGeneration (setUnreadAnnouncement c f st) = sessionGeneration st"
  by (simp_all add: setUnreadAnnouncement_def Let_def store_simps split: option.split)

lemma unhide_frame [store_simps]:
  "messagesMap (unhideConversation c st) = messagesMap st"
  "conversations (unhideConversation c st) = conversations st"
  "rawMessages (unhideConversation c st) = rawMessages st"
  "exitedGroupIds (unhideConversation c st) = exitedGroupIds st"
  "blockedPeerKeys (unhideConversation c st) = blockedPeerKeys st"
  "retained (unhideConversation c st) = retained st"
  "imUserId (unhideConversation c st) = imUserId st"
  "activeConversationId (unhideConversation c st) = activeConversationId st"
  "sessionGeneration (unhideConversation c st) = sessionGeneration st"
  by (simp_all add: unhideConversation_def Let_def store_simps)

lemma unhide_subset: "set (hiddenIds (unhideConversation c st)) \<subseteq> set (hiddenIds st)"
  by (auto simp: unhideConversation_def Let_def store_simps)

text \<open>A plain message: not a pin synchronisation.\<close>

definition plain_item :: "message_item \<Rightarrow> bool" where
  "plain_item i \<longleftrightarrow> contentType i \<noteq> custom_message \<or> pin_of i = None"

text \<open>
  A message that the guards let through to \<open>deliver\<close>, and the state \<open>deliver\<close> starts from
  when its conversation is not hidden.
\<close>

definition accepted_item :: "chat_state \<Rightarrow> message_item \<Rightarrow> bool" where
  "accepted_item st i \<longleftrightarrow> clientMsgID i \<noteq> [] \<and> conversation_of_item i \<noteq> [] \<and>
     \<not> removed (retained st) (conversation_of_item i) (raw i) \<and>
     conversation_of_item i \<notin> set (exitedGroupIds st) \<and> plain_item i"

definition noted :: "message_item \<Rightarrow> chat_state \<Rightarrow> chat_state" where
  "noted i st = (if isGroupAnnouncementNotice (contentType i)
     then setUnreadAnnouncement (conversation_of_item i) True (rememberRaw i st) else rememberRaw i st)"

lemma noted_frame [store_simps]:
  "messagesMap (noted i st) = messagesMap st" "hiddenIds (noted i st) = hiddenIds st"
  "exitedGroupIds (noted i st) = exitedGroupIds st" "blockedPeerKeys (noted i st) = blockedPeerKeys st"
  "retained (noted i st) = retained st" "imUserId (noted i st) = imUserId st"
  "activeConversationId (noted i st) = activeConversationId st"
  "sessionGeneration (noted i st) = sessionGeneration st"
  by (simp_all add: noted_def store_simps)

lemma appendMessage_visible:
  assumes "accepted_item st i" and "conversation_of_item i \<notin> set (hiddenIds st)"
  shows "fst (appendMessage i st) = fst (deliver i (toChatMessage i) (noted i st))"
  using assms
  by (auto simp: appendMessage_def accepted_item_def plain_item_def Let_def noted_def store_simps)

lemma setUnread_rows:
  "distinct (map c_id (conversations st)) \<Longrightarrow>
   distinct (map c_id (conversations (setUnreadAnnouncement c f st))) \<and>
   (\<forall>e. map_option unreadCount (conversation_at (setUnreadAnnouncement c f st) e)
        = map_option unreadCount (conversation_at st e))"
proof -
  assume d: "distinct (map c_id (conversations st))"
  let ?st = "st\<lparr>storage := writeUnreadAnnouncement (announcementOwnerId st) c f (storage st)\<rparr>"
  have d': "distinct (map c_id (conversations ?st))" using d by simp
  have at: "conversation_at ?st e = conversation_at st e" for e by (simp add: conversation_at_def)
  show ?thesis
    using d by (auto simp: setUnreadAnnouncement_def Let_def at patchConversation_ids
        conversation_at_patch [OF d'] option.map_comp comp_def split: option.split)
qed

lemma noted_rows:
  assumes "distinct (map c_id (conversations st))"
  shows "distinct (map c_id (conversations (noted i st)))"
    and "map_option unreadCount (conversation_at (noted i st) e) = map_option unreadCount (conversation_at st e)"
proof -
  have "conversation_at (rememberRaw i st) e = conversation_at st e"
    by (simp add: conversation_at_def store_simps)
  then show "distinct (map c_id (conversations (noted i st)))"
    and "map_option unreadCount (conversation_at (noted i st) e) = map_option unreadCount (conversation_at st e)"
    using assms setUnread_rows [of "rememberRaw i st" "conversation_of_item i" True]
    by (auto simp: noted_def store_simps)
qed

lemma deliver_messages [store_simps]:
  "messages_of (fst (deliver i m st)) d =
     (if d = m_conversation m \<and> m_id m \<notin> m_id ` set (messages_of st d)
      then (if d = activeConversationId st then messages_of st d @ [m]
            else slice_last MESSAGE_WINDOW_SIZE (messages_of st d @ [m]))
      else messages_of st d)"
  by (auto simp: deliver_def Let_def store_simps)

lemma deliver_frame [store_simps]:
  "hiddenIds (fst (deliver i m st)) = hiddenIds st" "exitedGroupIds (fst (deliver i m st)) = exitedGroupIds st"
  "blockedPeerKeys (fst (deliver i m st)) = blockedPeerKeys st" "retained (fst (deliver i m st)) = retained st"
  "imUserId (fst (deliver i m st)) = imUserId st" "sessionGeneration (fst (deliver i m st)) = sessionGeneration st"
  "activeConversationId (fst (deliver i m st)) = activeConversationId st"
  "storage (fst (deliver i m st)) = storage st"
  by (auto simp: deliver_def Let_def store_simps)

lemma deliver_again:
  "fst (deliver i m (fst (deliver i m st))) = fst (deliver i m st)"
proof -
  have "m_id m \<in> m_id ` set (messages_of (fst (deliver i m st)) (m_conversation m))"
    by (auto simp: deliver_messages MESSAGE_WINDOW_SIZE_def slice_last_append)
  then show ?thesis by (simp add: deliver_def [of i m "fst (deliver i m st)"] Let_def)
qed

lemma deliver_row:
  assumes d: "distinct (map c_id (conversations st))"
    and fresh: "m_id m \<notin> m_id ` set (messages_of st (m_conversation m))"
    and row: "conversation_at st (m_conversation m) = Some x"
  shows "\<exists>y. conversation_at (fst (deliver i m st)) (m_conversation m) = Some y \<and>
     lastMessage y = previewOf m \<and> lastMessageId y = Some (m_id m) \<and>
     unreadCount y = (if m_conversation m = activeConversationId st \<and> m_conversation m \<noteq> [] \<or> sent_by_me st i then 0
                      else unreadCount x + (if isIMNotification (contentType i) then 0 else 1))"
proof -
  define c where "c = m_conversation m"
  define st1 where "st1 = set_messages c (messages_of st c @ [m]) st"
  define st2 where "st2 = (if c \<noteq> activeConversationId st1 then trimMessageWindow c st1 else st1)"
  have frames: "conversations st2 = conversations st" "activeConversationId st2 = activeConversationId st"
    "imUserId st2 = imUserId st"
    by (simp_all add: st2_def st1_def store_simps)
  then have at: "conversation_at st2 c = Some x" using row by (simp add: conversation_at_def c_def)
  have d2: "distinct (map c_id (conversations st2))" using d frames by simp
  have id: "c_id x = c" using at conversation_at_Some by blast
  show ?thesis
    using fresh at id frames unfolding c_def [symmetric]
    by (auto simp: deliver_def Let_def sent_by_me_def conversation_at_patch [OF d2]
        simp flip: c_def st1_def st2_def)
qed

section \<open>Properties\<close>


text \<open>C14: What is gone does not come back by itself. For a group the user left, a pushed message
  changes nothing at all. For a hidden conversation, a message from or to a blocked contact,
  a notification and the notice that the group was dissolved leave it hidden: every list stays
  as it is and no row appears. And a pin synchronisation never becomes a bubble.\<close>

theorem gone_stays_gone:
  "(conversation_of_item i \<in> set (exitedGroupIds st) \<and> conversation_of_item i \<noteq> [] \<longrightarrow> appendMessage i st = (st, [])) \<and>
   (conversation_of_item i \<in> set (hiddenIds st) \<and>
      (from_blocked st i \<or> isIMNotification (contentType i) \<or> dissolved (toChatMessage i)) \<longrightarrow>
        hiddenIds (fst (appendMessage i st)) = hiddenIds st \<and>
        messagesMap (fst (appendMessage i st)) = messagesMap st \<and>
        c_id ` set (conversations (fst (appendMessage i st))) = c_id ` set (conversations st)) \<and>
   (contentType i = custom_message \<and> pin_of i \<noteq> None \<and> conversation_of_item i \<noteq> [] \<longrightarrow>
        messagesMap (fst (appendMessage i st)) = messagesMap st)"
proof (intro conjI impI)
  assume "conversation_of_item i \<in> set (exitedGroupIds st) \<and> conversation_of_item i \<noteq> []"
  then show "appendMessage i st = (st, [])" by (simp add: appendMessage_def Let_def)
next
  assume "contentType i = custom_message \<and> pin_of i \<noteq> None \<and> conversation_of_item i \<noteq> []"
  then show "messagesMap (fst (appendMessage i st)) = messagesMap st"
    by (simp add: appendMessage_def Let_def store_simps)
next
  assume a: "conversation_of_item i \<in> set (hiddenIds st) \<and>
      (from_blocked st i \<or> isIMNotification (contentType i) \<or> dissolved (toChatMessage i))"
  have ids: "c_id ` set (conversations (setUnreadAnnouncement c f s)) = c_id ` set (conversations s)" for c f s
    by (auto simp: setUnreadAnnouncement_def Let_def patchConversation_ids split: option.split)
  have blocked: "from_blocked s i = from_blocked st i"
    if "imUserId s = imUserId st" "blockedPeerKeys s = blockedPeerKeys st" for s
    using that isBlockedPeer_cong [of s st] by (simp add: from_blocked_def sent_by_me_def)
  have b1: "from_blocked (rememberRaw i st) i = from_blocked st i"
    and b2: "from_blocked (setUnreadAnnouncement c f (rememberRaw i st)) i = from_blocked st i" for c f
    by (rule blocked; simp add: store_simps)+
  have "fst (appendMessage i st) \<in> {st, rememberRaw i st, noted i st}"
    using a by (simp add: appendMessage_def Let_def noted_def store_simps b1 b2) blast
  then have "hiddenIds (fst (appendMessage i st)) = hiddenIds st \<and>
        messagesMap (fst (appendMessage i st)) = messagesMap st \<and>
        c_id ` set (conversations (fst (appendMessage i st))) = c_id ` set (conversations st)"
    by (elim insertE emptyE) (simp_all add: store_simps noted_def ids)
  then show "hiddenIds (fst (appendMessage i st)) = hiddenIds st"
    and "messagesMap (fst (appendMessage i st)) = messagesMap st"
    and "c_id ` set (conversations (fst (appendMessage i st))) = c_id ` set (conversations st)" by blast+
qed

section \<open>Samples\<close>


lemma gone_stays_gone_witness:
  "appendMessage (sample_item ''m7'') (sample_store\<lparr>exitedGroupIds := [''sg_1'']\<rparr>)
     = (sample_store\<lparr>exitedGroupIds := [''sg_1'']\<rparr>, [])"
proof -
  have c: "conversation_of_item (sample_item ''m7'') = ''sg_1''" by code_simp
  show ?thesis
    by (rule gone_stays_gone [THEN conjunct1, rule_format]) (simp add: c)
qed

end
