(* ===== verification/ChatSend.thy ===== *)
theory ChatSend
  imports ChatIncoming
begin

text \<open>
  Sending from the chat store (\<open>src/IM-APP-fronend/src/stores/chat.ts\<close>). Every kind of message goes
  through \<open>sendWithPlaceholder\<close>: a placeholder bubble joins the list, the SDK call is awaited, the
  placeholder is replaced by the real message, a hidden conversation is brought back (another
  await), and the row shows the new message. It is split at its two awaits into \<open>send_begin\<close>,
  \<open>send_ack\<close>, \<open>send_finish\<close> and \<open>send_failed\<close> (the \<open>catch\<close>); \<open>seq_resolved\<close> is the callback that
  brings a late sequence number. Merging a video's cover (JSON text) is the parameter \<open>cover\<close>.
\<close>

section \<open>Errors\<close>

definition err_session :: string where
  "err_session =
     [CHR 0xE7, CHR 0x99, CHR 0xBB, CHR 0xE5, CHR 0xBD, CHR 0x95, CHR 0xE7, CHR 0x8A, CHR
     0xB6, CHR 0xE6, CHR 0x80, CHR 0x81, CHR 0xE5, CHR 0xB7, CHR 0xB2, CHR 0xE5, CHR 0x8F,
     CHR 0x98, CHR 0xE5, CHR 0x8C, CHR 0x96, CHR 0xEF, CHR 0xBC, CHR 0x8C, CHR 0xE8, CHR
     0xAF, CHR 0xB7, CHR 0xE9, CHR 0x87, CHR 0x8D, CHR 0xE6, CHR 0x96, CHR 0xB0, CHR 0xE8,
     CHR 0xBF, CHR 0x9B, CHR 0xE5, CHR 0x85, CHR 0xA5, CHR 0xE4, CHR 0xBC, CHR 0x9A, CHR
     0xE8, CHR 0xAF, CHR 0x9D]"

definition err_no_conversation :: string where
  "err_no_conversation =
     [CHR 0xE4, CHR 0xBC, CHR 0x9A, CHR 0xE8, CHR 0xAF, CHR 0x9D, CHR 0xE4, CHR 0xB8, CHR
     0x8D, CHR 0xE5, CHR 0xAD, CHR 0x98, CHR 0xE5, CHR 0x9C, CHR 0xA8]"

definition err_exited :: string where
  "err_exited =
     [CHR 0xE4, CHR 0xBD, CHR 0xA0, CHR 0xE5, CHR 0xB7, CHR 0xB2, CHR 0xE9, CHR 0x80, CHR
     0x80, CHR 0xE5, CHR 0x87, CHR 0xBA, CHR 0xE8, CHR 0xAF, CHR 0xA5, CHR 0xE7, CHR 0xBE,
     CHR 0xA4, CHR 0xE8, CHR 0x81, CHR 0x8A, CHR 0xEF, CHR 0xBC, CHR 0x8C, CHR 0xE4, CHR
     0xB8, CHR 0x8D, CHR 0xE8, CHR 0x83, CHR 0xBD, CHR 0xE5, CHR 0x8F, CHR 0x91, CHR 0xE9,
     CHR 0x80, CHR 0x81, CHR 0xE6, CHR 0xB6, CHR 0x88, CHR 0xE6, CHR 0x81, CHR 0xAF]"

definition err_send :: string where
  "err_send =
     [CHR 0xE5, CHR 0x8F, CHR 0x91, CHR 0xE9, CHR 0x80, CHR 0x81, CHR 0xE5, CHR 0xA4, CHR
     0xB1, CHR 0xE8, CHR 0xB4, CHR 0xA5]"

definition err_group_card :: string where
  "err_group_card =
     [CHR 0xE7, CHR 0xBE, CHR 0xA4, CHR 0xE5, CHR 0x86, CHR 0x85, CHR 0xE4, CHR 0xB8, CHR
     0x8D, CHR 0xE5, CHR 0x8F, CHR 0xAF, CHR 0xE5, CHR 0x88, CHR 0x86, CHR 0xE4, CHR 0xBA,
     CHR 0xAB, CHR 0xE4, CHR 0xB8, CHR 0xAA, CHR 0xE4, CHR 0xBA, CHR 0xBA, CHR 0xE5, CHR
     0x90, CHR 0x8D, CHR 0xE7, CHR 0x89, CHR 0x87]"

definition err_no_quote :: string where
  "err_no_quote =
     [CHR 0xE5, CHR 0x8E, CHR 0x9F, CHR 0xE6, CHR 0xB6, CHR 0x88, CHR 0xE6, CHR 0x81, CHR
     0xAF, CHR 0xE4, CHR 0xB8, CHR 0x8D, CHR 0xE5, CHR 0xAD, CHR 0x98, CHR 0xE5, CHR 0x9C,
     CHR 0xA8]"

definition txt_no_group :: string where
  "txt_no_group =
     [CHR 0xE7, CHR 0xBE, CHR 0xA4, CHR 0xE4, CHR 0xB8, CHR 0x8D, CHR 0xE5, CHR 0xAD, CHR
     0x98, CHR 0xE5, CHR 0x9C, CHR 0xA8]"

definition txt_no_access :: string where
  "txt_no_access =
     [CHR 0xE6, CHR 0x97, CHR 0xA0, CHR 0xE6, CHR 0x9D, CHR 0x83, CHR 0xE8, CHR 0xAE, CHR
     0xBF, CHR 0xE9, CHR 0x97, CHR 0xAE]"

definition txt_left_group :: string where
  "txt_left_group =
     [CHR 0xE4, CHR 0xBD, CHR 0xA0, CHR 0xE5, CHR 0xB7, CHR 0xB2, CHR 0xE9, CHR 0x80, CHR
     0x80, CHR 0xE5, CHR 0x87, CHR 0xBA, CHR 0xE8, CHR 0xAF, CHR 0xA5, CHR 0xE7, CHR 0xBE,
     CHR 0xA4, CHR 0xE8, CHR 0x81, CHR 0x8A]"

definition txt_group_dissolved :: string where
  "txt_group_dissolved =
     [CHR 0xE7, CHR 0xBE, CHR 0xA4, CHR 0xE8, CHR 0x81, CHR 0x8A, CHR 0xE5, CHR 0xB7, CHR
     0xB2, CHR 0xE8, CHR 0xA7, CHR 0xA3, CHR 0xE6, CHR 0x95, CHR 0xA3]"

definition isGroupUnavailableError :: "string \<Rightarrow> bool" where
  "isGroupUnavailableError message =
     (let t = trim message in
      t \<noteq> [] \<and> (contains_text t txt_no_group \<or> contains_text t txt_no_access \<or>
        contains_text t txt_left_group \<or> contains_text t txt_group_dissolved \<or>
        contains_text t ''GROUP_UNAVAILABLE''))"

section \<open>Placeholders\<close>

function decimal :: "nat \<Rightarrow> string" where
  "decimal n = (if n < 10 then [char_of (48 + n)] else decimal (n div 10) @ [char_of (48 + n mod 10)])"
  by pat_completeness auto
termination
  by (relation "measure id") auto

declare decimal.simps [simp del]

definition placeholder_id :: "nat \<Rightarrow> nat \<Rightarrow> string" where
  "placeholder_id now seq = ''local_'' @ decimal now @ [underscore] @ decimal seq"

definition placeholderOf ::
    "nat \<Rightarrow> string \<Rightarrow> string \<Rightarrow> message_kind \<Rightarrow> string \<Rightarrow> chat_state \<Rightarrow> chat_message \<times> chat_state" where
  "placeholderOf now c sender kind content st =
     (let n = Suc (placeholderSeq st) in
      (\<lparr>m_id = placeholder_id now n, m_conversation = c, senderId = sender, senderNickname = None,
        m_type = kind, m_content = content, createdAt = int now, notificationKind = None,
        quoted_id = None, hasRead = False, m_seq = None, trackGroupRead = False,
        m_status = Some Sending\<rparr>, st\<lparr>placeholderSeq := n\<rparr>))"

fun replace_in :: "string \<Rightarrow> chat_message \<Rightarrow> chat_message list \<Rightarrow> chat_message list" where
  "replace_in temp m [] = []"
| "replace_in temp m (x # xs) =
     (if m_id x = m_id m \<and> m_id x \<noteq> temp then replace_in temp m xs
      else if m_id x = temp then m # replace_in temp m xs
      else x # replace_in temp m xs)"

definition replaceMessage :: "string \<Rightarrow> string \<Rightarrow> chat_message \<Rightarrow> chat_state \<Rightarrow> chat_state" where
  "replaceMessage c temp m st =
     (let list = messages_of st c; replaced = (temp \<in> m_id ` set list); ms = replace_in temp m list;
          final = (if \<not> replaced \<and> m_id m \<notin> m_id ` set ms then ms @ [m] else ms)
      in set_messages c (filter_messages (retained st) c final) st)"

section \<open>Sending\<close>

text \<open>A call to \<open>sendWithPlaceholder\<close> that is under way: what its closure remembers.\<close>

record sending =
  s_conversation :: string
  s_placeholder :: chat_message
  s_generation :: nat

datatype send_result = SendWaits | SendDone | SendNeedsSeq chat_message | SendThrows string

definition send_begin :: "string \<Rightarrow> chat_message \<Rightarrow> bool \<Rightarrow> chat_state \<Rightarrow> chat_state \<times> sending" where
  "send_begin c p alreadyInserted st =
     ((if alreadyInserted then st else set_messages c (messages_of st c @ [p]) st),
      \<lparr>s_conversation = c, s_placeholder = p, s_generation = sessionGeneration st\<rparr>)"

text \<open>The \<open>catch\<close>: \<open>e\<close> is the text of the error. The result carries the error thrown on.\<close>

definition send_failed :: "sending \<Rightarrow> string \<Rightarrow> chat_state \<Rightarrow> chat_state \<times> send_result" where
  "send_failed s e st =
     (if s_generation s \<noteq> sessionGeneration st then (st, SendThrows e)
      else let c = s_conversation s; p = s_placeholder s;
               st1 = replaceMessage c (m_id p) (p\<lparr>m_status := Some Failed\<rparr>) st in
        if isNotInGroupIMError e \<or> isGroupUnavailableError e
        then (removeExitedGroupConversation c st1, SendThrows ''GROUP_UNAVAILABLE'')
        else (st1, SendThrows (or_else e err_send)))"

definition with_cover :: "(string \<Rightarrow> string \<Rightarrow> string) \<Rightarrow> chat_message \<Rightarrow> chat_message \<Rightarrow> chat_message" where
  "with_cover cover p mapped =
     (if m_type p = KVideo \<and> m_type mapped = KVideo
      then mapped\<lparr>m_content := cover (m_content mapped) (m_content p)\<rparr>
      else if m_type p = KImage \<and> m_type mapped = KImage \<and> trim (m_content mapped) = [] \<and> m_content p \<noteq> []
      then mapped\<lparr>m_content := m_content p\<rparr>
      else mapped)"

text \<open>
  The answer of the SDK up to the await of \<open>reappearConversation\<close>, whose synchronous part is
  included: an exited group throws, a hidden conversation is shown again and fetched.
\<close>

definition sent_message :: "(string \<Rightarrow> string \<Rightarrow> string) \<Rightarrow> sending \<Rightarrow> message_item \<Rightarrow> chat_message" where
  "sent_message cover s sent = with_cover cover (s_placeholder s) (toChatMessage sent)"

definition delivered_message ::
    "(string \<Rightarrow> string \<Rightarrow> string) \<Rightarrow> sending \<Rightarrow> message_item \<Rightarrow> conversation \<Rightarrow> chat_message" where
  "delivered_message cover s sent conv =
     (if c_type conv = GroupChat then (sent_message cover s sent)\<lparr>trackGroupRead := True\<rparr>
      else sent_message cover s sent)"

definition send_ack ::
    "(string \<Rightarrow> string \<Rightarrow> string) \<Rightarrow> sending \<Rightarrow> message_item \<Rightarrow> chat_state \<Rightarrow> chat_state \<times> send_result" where
  "send_ack cover s sent st =
     (if s_generation s \<noteq> sessionGeneration st then (st, SendThrows err_session)
      else let c = s_conversation s; st1 = rememberRaw sent st in
        case conversation_at st1 c of
          None \<Rightarrow> send_failed s err_no_conversation st1
        | Some conv \<Rightarrow>
            let st2 = replaceMessage c (m_id (s_placeholder s)) (delivered_message cover s sent conv) st1 in
            if c \<in> set (exitedGroupIds st2) then send_failed s err_exited st2
            else if c \<in> set (hiddenIds st2) then (unhideConversation c st2, SendWaits)
            else (st2, SendWaits))"

text \<open>After \<open>reappearConversation\<close>; \<open>isGroup\<close> was read before it.\<close>

definition newer_preview :: "conversation \<Rightarrow> chat_message \<Rightarrow> bool" where
  "newer_preview cur m \<longleftrightarrow>
     (case (lastMessageSeq cur, m_seq m) of
        (Some a, Some b) \<Rightarrow> a \<noteq> 0 \<and> b \<noteq> 0 \<and> b < a
      | _ \<Rightarrow> False) \<or> createdAt m < time_of cur"

definition preview_of_sent :: "retention \<Rightarrow> conversation \<Rightarrow> chat_message \<Rightarrow> conversation" where
  "preview_of_sent r cur m = sanitizeRetentionPreview r (cur\<lparr>lastMessage := previewOf m,
     lastMessageAt := Some (createdAt m), lastMessageSeq := m_seq m, lastMessageId := Some (m_id m)\<rparr>)"

definition send_finish ::
    "(string \<Rightarrow> string \<Rightarrow> string) \<Rightarrow> sending \<Rightarrow> message_item \<Rightarrow> bool \<Rightarrow> chat_state \<Rightarrow> chat_state \<times> send_result" where
  "send_finish cover s sent isGroup st =
     (if s_generation s \<noteq> sessionGeneration st then (st, SendThrows err_session)
      else let c = s_conversation s; m = sent_message cover s sent in
        case conversation_at st c of
          None \<Rightarrow> send_failed s err_no_conversation st
        | Some cur \<Rightarrow>
            let st1 = (if lastMessage cur = [] \<or> \<not> newer_preview cur m
                       then patchConversation c (\<lambda>x. preview_of_sent (retained st) cur m) st else st) in
            (st1, if isGroup \<and> (m_seq m = None \<or> m_seq m = Some 0)
                  then SendNeedsSeq (m\<lparr>trackGroupRead := True\<rparr>) else SendDone))"

text \<open>The callback of \<open>resolveMessageSeq\<close>: \<open>n\<close> is the number found (0: none), \<open>found\<close> the raw message.\<close>

definition with_seq :: "int \<Rightarrow> message_item \<Rightarrow> message_item" where
  "with_seq n i = i\<lparr>raw := (case raw i of JObj fs \<Rightarrow> JObj (map_set ''seq'' (JInt n) fs) | v \<Rightarrow> v), seq_of := n\<rparr>"

definition seq_resolved ::
    "sending \<Rightarrow> chat_message \<Rightarrow> int \<Rightarrow> message_item option \<Rightarrow> chat_state \<Rightarrow> chat_state" where
  "seq_resolved s m n found st =
     (let c = s_conversation s in
      if n = 0 \<or> s_generation s \<noteq> sessionGeneration st \<or> \<not> has_message st c (m_id m) then st
      else let resolvedRaw = (case found of Some i \<Rightarrow> Some i | None \<Rightarrow> map_of (rawMessages st) (m_id m));
               st1 = (if removed (retained st) c (seq_view (Some n)) then drop_raw [m_id m] st
                      else case resolvedRaw of Some i \<Rightarrow> rememberRaw (with_seq n i) st | None \<Rightarrow> st);
               st2 = replaceMessage c (m_id m) (m\<lparr>m_seq := Some n, trackGroupRead := True\<rparr>) st1 in
        case conversation_at st2 c of
          None \<Rightarrow> st2
        | Some preview \<Rightarrow>
            if lastMessageId preview = Some (m_id m)
            then patchConversation c (\<lambda>x. sanitizeRetentionPreview (retained st2)
                   (preview\<lparr>lastMessageSeq := Some n\<rparr>)) st2
            else st2)"

section \<open>The kinds of messages\<close>

record im_target =
  t_conversation :: string
  t_session :: session_type
  t_recv :: string
  t_group :: string

definition targetOf :: "conversation \<Rightarrow> im_target" where
  "targetOf c = \<lparr>t_conversation = c_id c,
     t_session = (if c_type c = GroupChat then GroupSession else SingleSession),
     t_recv = (case peerUserId c of None \<Rightarrow> [] | Some p \<Rightarrow> p),
     t_group = or_else (case c_group c of None \<Rightarrow> [] | Some g \<Rightarrow> g) (groupIdFromConversationId (c_id c))\<rparr>"

text \<open>The SDK call a send starts; text contents as the store passes them.\<close>

datatype sdk_send =
    SdkText im_target string
  | SdkAtText im_target string "string list" "(string \<times> string) list"
  | SdkImage im_target string
  | SdkImageUrl im_target string
  | SdkVideo im_target string int string
  | SdkVoice im_target string int
  | SdkCard im_target string string string
  | SdkFile im_target string string
  | SdkQuote im_target string message_item

type_synonym send_start = "string + (chat_state \<times> sending \<times> sdk_send)"

definition start_send ::
    "nat \<Rightarrow> string \<Rightarrow> string \<Rightarrow> message_kind \<Rightarrow> string \<Rightarrow> (chat_message \<Rightarrow> chat_message) \<Rightarrow>
     (im_target \<Rightarrow> sdk_send) \<Rightarrow> chat_state \<Rightarrow> send_start" where
  "start_send now c sender kind content edit call st =
     (case conversation_at st c of
        None \<Rightarrow> Inl err_no_conversation
      | Some conv \<Rightarrow>
          let p = placeholderOf now c sender kind content st;
              r = send_begin c (edit (fst p)) False (snd p) in
          Inr (fst r, snd r, call (targetOf conv)))"

definition sendText :: "nat \<Rightarrow> string \<Rightarrow> string \<Rightarrow> string \<Rightarrow> chat_state \<Rightarrow> send_start" where
  "sendText now c content sender st =
     start_send now c sender KText content id (\<lambda>t. SdkText t content) st"

definition sendAtText :: "nat \<Rightarrow> string \<Rightarrow> string \<Rightarrow> string \<Rightarrow> (string \<times> string) list \<Rightarrow> chat_state \<Rightarrow> send_start" where
  "sendAtText now c content sender atUsers st =
     start_send now c sender KText content id (\<lambda>t. SdkAtText t content (map fst atUsers) atUsers) st"

text \<open>\<open>json\<close> is \<open>JSON.stringify\<close> of the described object.\<close>

definition sendVideo ::
    "(string \<Rightarrow> string \<Rightarrow> int \<Rightarrow> string) \<Rightarrow> nat \<Rightarrow> string \<Rightarrow> string \<Rightarrow> string \<Rightarrow> int \<Rightarrow> string \<Rightarrow> chat_state \<Rightarrow> send_start" where
  "sendVideo json now c path sender duration snapshot st =
     start_send now c sender KVideo (json path snapshot duration) id
       (\<lambda>t. SdkVideo t path duration snapshot) st"

definition sendVoice ::
    "(string \<Rightarrow> int \<Rightarrow> string) \<Rightarrow> nat \<Rightarrow> string \<Rightarrow> string \<Rightarrow> int \<Rightarrow> string \<Rightarrow> chat_state \<Rightarrow> send_start" where
  "sendVoice json now c path duration sender st =
     start_send now c sender KVoice (json path duration) id (\<lambda>t. SdkVoice t path duration) st"

definition sendFile :: "nat \<Rightarrow> string \<Rightarrow> string \<Rightarrow> string \<Rightarrow> string \<Rightarrow> chat_state \<Rightarrow> send_start" where
  "sendFile now c path name sender st = start_send now c sender KFile name id (\<lambda>t. SdkFile t path name) st"

definition sendImageUrl :: "nat \<Rightarrow> string \<Rightarrow> string \<Rightarrow> string \<Rightarrow> chat_state \<Rightarrow> send_start" where
  "sendImageUrl now c url sender st = start_send now c sender KImage url id (\<lambda>t. SdkImageUrl t url) st"

definition sendCard ::
    "(string \<Rightarrow> string \<Rightarrow> string \<Rightarrow> string) \<Rightarrow> nat \<Rightarrow> string \<Rightarrow> string \<Rightarrow> string \<Rightarrow> string \<Rightarrow> string \<Rightarrow> chat_state \<Rightarrow> send_start" where
  "sendCard json now c friend nickname avatar sender st =
     (case conversation_at st c of
        None \<Rightarrow> Inl err_no_conversation
      | Some conv \<Rightarrow>
          if c_type conv = GroupChat then Inl err_group_card
          else start_send now c sender KCard (json friend nickname avatar) id
                 (\<lambda>t. SdkCard t friend nickname avatar) st)"

definition sendQuote :: "nat \<Rightarrow> string \<Rightarrow> string \<Rightarrow> string \<Rightarrow> string \<Rightarrow> chat_state \<Rightarrow> send_start" where
  "sendQuote now c t quoteMessageId sender st =
     (case map_of (rawMessages st) quoteMessageId of
        None \<Rightarrow> Inl err_no_quote
      | Some quote \<Rightarrow>
          start_send now c sender KText t
            (\<lambda>p. p\<lparr>quoted_id := nonempty (or_else quoteMessageId (clientMsgID quote))\<rparr>)
            (\<lambda>g. SdkQuote g t quote) st)"

text \<open>An image is inserted before it is compressed; \<open>preview\<close> is the local address to show.\<close>

definition prepareOutgoingImage ::
    "nat \<Rightarrow> string \<Rightarrow> string \<Rightarrow> string \<Rightarrow> chat_state \<Rightarrow> string + (chat_state \<times> chat_message)" where
  "prepareOutgoingImage now c path sender st =
     (case conversation_at st c of
        None \<Rightarrow> Inl err_no_conversation
      | Some conv \<Rightarrow>
          let p = placeholderOf now c sender KImage path st in
          Inr (set_messages c (messages_of (snd p) c @ [fst p]) (snd p), fst p))"

definition deliverOutgoingImage ::
    "string \<Rightarrow> string \<Rightarrow> chat_message \<Rightarrow> string \<Rightarrow> chat_state \<Rightarrow> chat_state \<times> (string + (sending \<times> sdk_send))" where
  "deliverOutgoingImage c path job preview st =
     (let p = (if preview \<noteq> m_content job then job\<lparr>m_content := preview\<rparr> else job);
          st1 = (if preview \<noteq> m_content job then replaceMessage c (m_id p) p st else st) in
      case conversation_at st1 c of
        None \<Rightarrow> (st1, Inl err_no_conversation)
      | Some conv \<Rightarrow>
          let r = send_begin c p True st1 in (fst r, Inr (snd r, SdkImage (targetOf conv) path)))"

section \<open>Recall, forwarding\<close>

definition tip_recalled_self :: string where
  "tip_recalled_self =
     [CHR 0xE4, CHR 0xBD, CHR 0xA0, CHR 0xE6, CHR 0x92, CHR 0xA4, CHR 0xE5, CHR 0x9B, CHR
     0x9E, CHR 0xE4, CHR 0xBA, CHR 0x86, CHR 0xE4, CHR 0xB8, CHR 0x80, CHR 0xE6, CHR 0x9D,
     CHR 0xA1, CHR 0xE6, CHR 0xB6, CHR 0x88, CHR 0xE6, CHR 0x81, CHR 0xAF]"

definition tip_recalled_of :: string where
  "tip_recalled_of =
     [CHR 0xE4, CHR 0xBD, CHR 0xA0, CHR 0xE6, CHR 0x92, CHR 0xA4, CHR 0xE5, CHR 0x9B, CHR
     0x9E, CHR 0xE4, CHR 0xBA, CHR 0x86] @ '' ''"

definition tip_one_message :: string where
  "tip_one_message =
     '' '' @ [CHR 0xE7, CHR 0x9A, CHR 0x84, CHR 0xE4, CHR 0xB8, CHR 0x80, CHR 0xE6, CHR 0x9D,
     CHR 0xA1, CHR 0xE6, CHR 0xB6, CHR 0x88, CHR 0xE6, CHR 0x81, CHR 0xAF]"

definition label_member :: string where
  "label_member =
     [CHR 0xE6, CHR 0x88, CHR 0x90, CHR 0xE5, CHR 0x91, CHR 0x98]"

text \<open>The end of \<open>recall\<close>, after the server accepted it.\<close>

definition recall_done :: "string \<Rightarrow> string \<Rightarrow> chat_state \<Rightarrow> chat_state" where
  "recall_done c mid st =
     (let original = find (\<lambda>m. m_id m = mid) (messages_of st c);
          mine = (case original of None \<Rightarrow> False | Some m \<Rightarrow> senderId m = imUserId st);
          name = (case original of None \<Rightarrow> [] | Some m \<Rightarrow> (case senderNickname m of None \<Rightarrow> [] | Some n \<Rightarrow> n)) in
      dropRevokedMessage c mid
        (if mine then tip_recalled_self else tip_recalled_of @ or_else name label_member @ tip_one_message) st)"

text \<open>\<open>forwardToConversation\<close>: \<open>ok\<close> is whether the SDK forwards a raw message. One failure does not stop the rest.\<close>

definition forwardToConversation ::
    "(im_target \<Rightarrow> message_item \<Rightarrow> bool) \<Rightarrow> string \<Rightarrow> string list \<Rightarrow> chat_state \<Rightarrow> string + (nat \<times> string list)" where
  "forwardToConversation ok c ids st =
     (case conversation_at st c of
        None \<Rightarrow> Inl err_no_conversation
      | Some conv \<Rightarrow> Inr (length ids,
          filter (\<lambda>i. case map_of (rawMessages st) i of None \<Rightarrow> True | Some r \<Rightarrow> \<not> ok (targetOf conv) r) ids))"

text \<open>The conversations \<open>markAllAsRead\<close> marks.\<close>

definition markAllAsRead_targets :: "chat_state \<Rightarrow> string list" where
  "markAllAsRead_targets st =
     map c_id (filter (\<lambda>c. 0 < unreadCount c \<or> isAtMeType (groupAtType c)) (conversations st))"

section \<open>Lemmas\<close>

text \<open>Decimal numerals can be told apart and contain no underscore.\<close>

lemma decimal_digits: "list_all is_digit (decimal n)"
proof (induction n rule: decimal.induct)
  case (1 n)
  have d: "is_digit (char_of (48 + k))" if "k < 10" for k :: nat
    using that by (simp add: is_digit_def of_char_of)
  show ?case
    using 1 d [of n] d [of "n mod 10"] by (simp add: decimal.simps [of n])
qed

lemma digits_value_snoc: "digits_value (s @ [c]) = 10 * digits_value s + (code c - 48)"
  by (simp add: digits_value_def)

lemma digits_value_decimal: "digits_value (decimal n) = n"
proof (induction n rule: decimal.induct)
  case (1 n)
  have one: "digits_value [char_of (48 + k)] = k" if "k < 10" for k :: nat
    using that by (simp add: digits_value_def of_char_of)
  have "of_char (char_of (48 + n mod 10) :: char) - 48 = n mod 10"
    by (simp add: of_char_of)
  then show ?case
    using 1 one [of n] by (simp add: decimal.simps [of n] digits_value_snoc)
qed

lemma decimal_inj: "decimal m = decimal n \<longleftrightarrow> m = n"
  using digits_value_decimal by metis

lemma decimal_no_underscore: "\<forall>x \<in> set (decimal n). x \<noteq> underscore"
  using decimal_digits [of n] by (auto simp: list_all_iff underscore_def is_digit_def)

text \<open>Replacing a message in a list without duplicates.\<close>

lemma replace_in_absent:
  "temp \<notin> m_id ` set xs \<Longrightarrow> replace_in temp m xs = filter (\<lambda>x. m_id x \<noteq> m_id m) xs"
  by (induction xs) auto

lemma replace_in_ids:
  "temp \<in> m_id ` set xs \<Longrightarrow> distinct (map m_id xs) \<Longrightarrow>
   distinct (map m_id (replace_in temp m xs)) \<and> m \<in> set (replace_in temp m xs) \<and>
   m_id ` set (replace_in temp m xs) = insert (m_id m) (m_id ` set xs - {temp})"
proof (induction xs)
  case Nil
  then show ?case by simp
next
  case (Cons x xs)
  show ?case
  proof (cases "m_id x = temp")
    case True
    then have "temp \<notin> m_id ` set xs" using Cons.prems by simp
    then have "replace_in temp m xs = filter (\<lambda>x. m_id x \<noteq> m_id m) xs" by (rule replace_in_absent)
    then show ?thesis
      using True Cons.prems by (auto simp: distinct_map_filter)
  next
    case False
    then have "temp \<in> m_id ` set xs" using Cons.prems by auto
    then have IH: "distinct (map m_id (replace_in temp m xs))" "m \<in> set (replace_in temp m xs)"
      "m_id ` set (replace_in temp m xs) = insert (m_id m) (m_id ` set xs - {temp})"
      using Cons by auto
    show ?thesis using False IH Cons.prems by auto
  qed
qed

lemma replace_in_others:
  "filter (\<lambda>x. m_id x \<noteq> temp \<and> m_id x \<noteq> m_id m) (replace_in temp m xs)
   = filter (\<lambda>x. m_id x \<noteq> temp \<and> m_id x \<noteq> m_id m) xs"
  by (induction xs) auto

lemma replace_frame [store_simps]:
  "conversations (replaceMessage c t m st) = conversations st" "rawMessages (replaceMessage c t m st) = rawMessages st"
  "hiddenIds (replaceMessage c t m st) = hiddenIds st" "exitedGroupIds (replaceMessage c t m st) = exitedGroupIds st"
  "retained (replaceMessage c t m st) = retained st" "sessionGeneration (replaceMessage c t m st) = sessionGeneration st"
  "blockedPeerKeys (replaceMessage c t m st) = blockedPeerKeys st" "imUserId (replaceMessage c t m st) = imUserId st"
  "activeConversationId (replaceMessage c t m st) = activeConversationId st"
  "d \<noteq> c \<Longrightarrow> messages_of (replaceMessage c t m st) d = messages_of st d"
  by (simp_all add: replaceMessage_def Let_def store_simps)

text \<open>The list after a replacement, before retention is applied.\<close>

definition replaced_list :: "string \<Rightarrow> chat_message \<Rightarrow> chat_message list \<Rightarrow> chat_message list" where
  "replaced_list temp m xs =
     (if temp \<notin> m_id ` set xs then filter (\<lambda>x. m_id x \<noteq> m_id m) xs @ [m] else replace_in temp m xs)"

lemma replaceMessage_list:
  "messages_of (replaceMessage c temp m st) c = filter_messages (retained st) c (replaced_list temp m (messages_of st c))"
  by (auto simp: replaceMessage_def Let_def store_simps replaced_list_def replace_in_absent)

lemma replaced_list_ok:
  assumes "distinct (map m_id xs)"
  shows "distinct (map m_id (replaced_list temp m xs))" and "m \<in> set (replaced_list temp m xs)"
    and "temp \<noteq> m_id m \<Longrightarrow> temp \<notin> m_id ` set (replaced_list temp m xs)"
    and "filter (\<lambda>x. m_id x \<noteq> temp \<and> m_id x \<noteq> m_id m) (replaced_list temp m xs)
      = filter (\<lambda>x. m_id x \<noteq> temp \<and> m_id x \<noteq> m_id m) xs"
  using assms replace_in_ids [of temp xs m] replace_in_others [of temp m xs]
  by (auto simp: replaced_list_def distinct_map_filter intro: filter_cong)

lemma distinct_filter_messages: "distinct (map m_id ms) \<Longrightarrow> distinct (map m_id (filter_messages r c ms))"
  by (simp add: filter_visible_def distinct_map_filter)

lemma filter_visible_swap:
  "filter P (filter_messages r c ms) = filter_messages r c (filter P ms)"
  by (simp add: filter_visible_def conj_commute)

text \<open>Stages.\<close>

lemma send_failed_current:
  assumes "s_generation s = sessionGeneration st"
    and "\<not> (isNotInGroupIMError e \<or> isGroupUnavailableError e)"
  shows "fst (send_failed s e st) = replaceMessage (s_conversation s) (m_id (s_placeholder s))
    ((s_placeholder s)\<lparr>m_status := Some Failed\<rparr>) st"
  using assms by (simp add: send_failed_def Let_def)

lemma exit_messages [store_simps]:
  "messages_of (removeExitedGroupConversation c st) d = (if c \<noteq> [] \<and> d = c then [] else messages_of st d)"
  by (simp add: removeExitedGroupConversation_def Let_def store_simps)

text \<open>The errors the store itself throws.\<close>

lemma own_errors [simp]:
  "\<not> isNotInGroupIMError err_no_conversation" "\<not> isGroupUnavailableError err_no_conversation"
  "isGroupUnavailableError err_exited" "err_no_conversation \<noteq> []"
  by code_simp+

lemma with_cover_frame [store_simps]:
  "m_id (with_cover cover p m) = m_id m" "m_seq (with_cover cover p m) = m_seq m"
  "createdAt (with_cover cover p m) = createdAt m" "m_status (with_cover cover p m) = m_status m"
  by (simp_all add: with_cover_def)

lemma sent_message_frame [store_simps]:
  "m_id (sent_message cover s i) = clientMsgID i" "m_seq (sent_message cover s i) = nonzero (seq_of i)"
  "m_id (delivered_message cover s i conv) = clientMsgID i"
  "m_seq (delivered_message cover s i conv) = nonzero (seq_of i)"
  by (simp_all add: sent_message_def delivered_message_def store_simps)

section \<open>Properties\<close>

text \<open>C15: Replacing the placeholder by the real message leaves exactly one bubble for it, also when the
  SDK had pushed the same message first: no id occurs twice, the placeholder is gone, and
  the other messages stay, in order.\<close>

theorem replace_leaves_one:
  assumes d: "distinct (map m_id (messages_of st c))" and t: "temp \<noteq> m_id m"
    and v: "\<not> removed (retained st) c (message_view m)"
  shows "distinct (map m_id (messages_of (replaceMessage c temp m st) c)) \<and>
    m \<in> set (messages_of (replaceMessage c temp m st) c) \<and>
    temp \<notin> m_id ` set (messages_of (replaceMessage c temp m st) c) \<and>
    filter (\<lambda>x. m_id x \<noteq> temp \<and> m_id x \<noteq> m_id m) (messages_of (replaceMessage c temp m st) c)
      = filter_messages (retained st) c (filter (\<lambda>x. m_id x \<noteq> temp \<and> m_id x \<noteq> m_id m) (messages_of st c))"
  unfolding replaceMessage_list filter_visible_swap replaced_list_ok(4) [OF d]
  using replaced_list_ok(1-3) [OF d, where temp = temp and m = m] t v
  by (auto simp: distinct_filter_messages) (auto simp: filter_visible_def)

text \<open>C16: A send that began before the account was reset leaves no trace in the next account's
  store: whether the SDK then accepts it, refuses it, or resolves its sequence number, the
  state is untouched, and the call ends with an error.\<close>

theorem stale_send_is_ignored:
  assumes s: "s = snd (send_begin c p inserted st)" and later: "sessionGeneration (reset st) \<le> sessionGeneration st'"
  shows "fst (send_ack cover s item st') = st' \<and> snd (send_ack cover s item st') = SendThrows err_session \<and>
    fst (send_finish cover s item isGroup st') = st' \<and> fst (send_failed s e st') = st' \<and>
    seq_resolved s m n found st' = st'"
proof -
  have "s_generation s \<noteq> sessionGeneration st'"
    using later by (simp add: s send_begin_def reset_def)
  then show ?thesis
    by (simp add: send_ack_def send_finish_def send_failed_def seq_resolved_def Let_def)
qed



text \<open>Placeholder ids never collide: two placeholders made one after the other, in whatever
  milliseconds, have different ids, and an id determines the millisecond and the counter.\<close>

theorem placeholder_ids_unique:
  "m_id (fst (placeholderOf now c sender k t st)) \<noteq>
     m_id (fst (placeholderOf now' c' sender' k' t' (snd (placeholderOf now c sender k t st)))) \<and>
   (placeholder_id now m = placeholder_id now' n \<longleftrightarrow> now = now' \<and> m = n)"
proof -
  have inj: "placeholder_id a m = placeholder_id b n \<longleftrightarrow> a = b \<and> m = n" for a b m n
  proof
    assume "placeholder_id a m = placeholder_id b n"
    then have "decimal a @ underscore # decimal m = decimal b @ underscore # decimal n"
      by (simp add: placeholder_id_def)
    then have "split_on underscore (decimal a @ underscore # decimal m) = split_on underscore (decimal b @ underscore # decimal n)"
      by simp
    then show "a = b \<and> m = n"
      by (simp add: split_on_append split_on_none decimal_no_underscore decimal_inj)
  qed simp
  show ?thesis by (simp add: inj placeholderOf_def Let_def)
qed

section \<open>Samples\<close>

definition sample_sending :: sending where
  "sample_sending = snd (send_begin ''sg_1'' (sample_message ''l1'' Sending) True sample_store)"

lemma sample_sending_facts:
  "s_generation sample_sending = sessionGeneration sample_store"
  "distinct (map m_id (messages_of sample_store (s_conversation sample_sending)))"
  "m_id (s_placeholder sample_sending) \<noteq> clientMsgID (sample_item ''m5'')"
  "s_conversation sample_sending \<noteq> []"
  "conversation_at sample_store (s_conversation sample_sending) = Some (sample_row_of ''sg_1'' GroupChat 5 3)"
  "s_conversation sample_sending \<notin> set (exitedGroupIds sample_store)"
  "\<not> removed (retained sample_store) (s_conversation sample_sending) (seq_view (nonzero (seq_of (sample_item ''m5''))))"
  by code_simp+

lemma replace_leaves_one_witness:
  "sample_message ''m5'' Sent \<in> set (messages_of (replaceMessage ''sg_1'' ''l1'' (sample_message ''m5'' Sent) sample_store) ''sg_1'')"
proof -
  have d: "distinct (map m_id (messages_of sample_store ''sg_1''))" by code_simp
  have t: "''l1'' \<noteq> m_id (sample_message ''m5'' Sent)" by code_simp
  have v: "\<not> removed (retained sample_store) ''sg_1'' (message_view (sample_message ''m5'' Sent))" by code_simp
  show ?thesis by (rule replace_leaves_one [OF d t v, THEN conjunct2, THEN conjunct1])
qed

lemma stale_send_is_ignored_witness:
  "fst (send_ack (\<lambda>a b. a) sample_sending (sample_item ''m5'') (reset sample_store)) = reset sample_store"
  by (rule stale_send_is_ignored [OF sample_sending_def order_refl, THEN conjunct1])



end
