(* ===== verification/ChatStep.thy ===== *)
theory ChatStep
  imports ChatSend
begin

text \<open>
  The chat store as a state machine: any interleaving of what the user does, what the SDK pushes,
  and the answers to requests under way, with the retention tombstones moving underneath. An
  answer is processed with whatever the request read before it (a list, a placeholder, a
  generation), however old. The invariant ties the parts together: the rows have unique ids, no
  hidden or left conversation is listed, no loaded message lies below its group's tombstone, and the
  local sets agree with the device storage.

  Two assumptions are built into the steps. The SDK sends sequence numbers as integers, so both
  readers of a raw message (\<open>retentionSeq\<close> and \<open>seqOf\<close>) agree. And the account changes only on
  an empty store: \<open>stores/user.ts\<close> resets the store before it logs in or out. What happens when the
  tombstones of an account are reloaded under a store that is not empty is shown at the end.
\<close>

section \<open>Answers of the retention server\<close>

text \<open>The effects of a finished batch on the store, which subscribed \<open>pruneRetainedHistory\<close>.\<close>

fun apply_retention_effects :: "retention_effect list \<Rightarrow> chat_state \<Rightarrow> chat_state" where
  "apply_retention_effects [] st = st"
| "apply_retention_effects (e # es) st = apply_retention_effects es (case e of
     WriteIndex k rows \<Rightarrow> st\<lparr>storage := map_set k (JArr (map encode_row rows)) (storage st)\<rparr>
   | NotifyListeners ids \<Rightarrow> pruneRetainedHistory ids st)"

definition retention_answer ::
    "(string \<Rightarrow> bool) \<Rightarrow> int \<Rightarrow> jsval option \<Rightarrow> task \<Rightarrow> chat_state \<Rightarrow> chat_state" where
  "retention_answer date_ok now answer t st =
     (let r = batch_finish date_ok now answer t (retained st)
      in apply_retention_effects (snd r) (st\<lparr>retained := fst r\<rparr>))"

text \<open>Another account on an empty store: its tombstones and its local sets.\<close>

definition account_changed ::
    "(string \<Rightarrow> jsval option) \<Rightarrow> (string \<Rightarrow> bool) \<Rightarrow> string \<Rightarrow> chat_state \<Rightarrow> chat_state" where
  "account_changed parse date_ok u st =
     (let read = (\<lambda>k. map_of (storage st) k) in
      user_changed parse u (st\<lparr>retained := setOwner date_ok read u (retained st)\<rparr>))"

section \<open>Steps\<close>

definition consistent_item :: "message_item \<Rightarrow> bool" where
  "consistent_item i \<longleftrightarrow> retentionSeq (raw i) = retentionSeq (seq_view (nonzero (seq_of i)))"

text \<open>
  Every operation of the store, with the parameters of the model (\<open>JSON.parse\<close>, \<open>Date.parse\<close>,
  the video cover merge) fixed for the whole run.
\<close>

inductive chat_step ::
    "(string \<Rightarrow> jsval option) \<Rightarrow> (string \<Rightarrow> bool) \<Rightarrow> (string \<Rightarrow> string \<Rightarrow> string) \<Rightarrow> chat_state \<Rightarrow> chat_state \<Rightarrow> bool"
  for parse date_ok cover where
  incoming: "list_all consistent_item items \<Longrightarrow>
     chat_step parse date_ok cover st (fst (ingestIncoming cfg items st))"
| sdk_rows: "chat_step parse date_ok cover st (upsertConversations now rows st)"
| sdk_list: "distinct (map item_conversation rows) \<Longrightarrow>
     chat_step parse date_ok cover st (loaded_conversations now rows st)"
| blocked_list: "chat_step parse date_ok cover st (blocked_from_server answer st)"
| stored_hidden: "chat_step parse date_ok cover st (syncHiddenIdsFromStorage parse st)"
| stored_blocked: "chat_step parse date_ok cover st (syncBlockedPeerKeysFromStorage parse st)"
| remarks_changed: "chat_step parse date_ok cover st (applyContactRemarks (st\<lparr>remarks := rs\<rparr>))"
| page_loaded: "list_all consistent_item page \<Longrightarrow>
     chat_step parse date_ok cover st (messages_loaded now c before page e st)"
| older_loaded: "list_all consistent_item page \<Longrightarrow>
     chat_step parse date_ok cover st (fst (more_loaded c before page e st))"
| located: "list_all consistent_item page \<Longrightarrow>
     chat_step parse date_ok cover st (fst (locate_page c mid before page e st))"
| read_marked: "chat_step parse date_ok cover st (markAsRead c st)"
| cleared: "chat_step parse date_ok cover st (clearHistory c st)"
| local_removed: "chat_step parse date_ok cover st (removeLocal c mid st)"
| revoked: "chat_step parse date_ok cover st (on_revoked info st)"
| recalled: "chat_step parse date_ok cover st (recall_done c mid st)"
| receipts: "chat_step parse date_ok cover st (ingestReadReceipts rs st)"
| pin_synced: "chat_step parse date_ok cover st (applyIncomingMessagePin now c p st)"
| pin_set: "chat_step parse date_ok cover st (pinChatMessage c q st)"
| pin_cleared: "chat_step parse date_ok cover st (unpinChatMessage c st)"
| pin_toggled: "togglePin_begin c st = Some (st', b) \<Longrightarrow> chat_step parse date_ok cover st st'"
| pin_rolled_back: "chat_step parse date_ok cover st (togglePin_failed c b st)"
| announcement_dismissed: "chat_step parse date_ok cover st (dismissGroupAnnouncement c st)"
| hidden_locally: "c \<noteq> [] \<Longrightarrow> chat_step parse date_ok cover st (hideConversationLocal c st)"
| contact_blocked: "[] \<notin> c_id ` set (conversations st) \<Longrightarrow>
     chat_step parse date_ok cover st (hideConversationForBlockedContact i st)"
| contact_unblocked: "chat_step parse date_ok cover st (markPeerUnblocked i st)"
| reappeared: "chat_step parse date_ok cover st (unhideConversation c st)"
| group_allowed: "chat_step parse date_ok cover st (allowGroupConversation c st)"
| group_left: "chat_step parse date_ok cover st (removeExitedGroupConversation c st)"
| memory_trimmed: "chat_step parse date_ok cover st (trimConversationMemory c st)"
| room_opened: "chat_step parse date_ok cover st (st\<lparr>activeConversationId := c\<rparr>)"
| send_started: "start_send now c sender k t edit call st = Inr (st', s, x) \<Longrightarrow>
     (\<And>p. m_seq (edit p) = m_seq p) \<Longrightarrow> chat_step parse date_ok cover st st'"
| image_prepared: "prepareOutgoingImage now c path sender st = Inr (st', p) \<Longrightarrow>
     chat_step parse date_ok cover st st'"
| image_delivered: "chat_step parse date_ok cover st (fst (deliverOutgoingImage c path p preview st))"
| send_acked: "consistent_item i \<Longrightarrow> chat_step parse date_ok cover st (fst (send_ack cover s i st))"
| send_finished: "chat_step parse date_ok cover st (fst (send_finish cover s i g st))"
| send_rejected: "chat_step parse date_ok cover st (fst (send_failed s e st))"
| send_numbered: "chat_step parse date_ok cover st (seq_resolved s m n found st)"
| store_reset: "chat_step parse date_ok cover st (reset st)"
| boundary_moved: "chat_step parse date_ok cover st (retention_answer date_ok now answer t st)"
| sync_turned: "sync_next call (retained st) = Some (call', r, t) \<Longrightarrow>
     chat_step parse date_ok cover st (st\<lparr>retained := r\<rparr>)"
| account_switched: "messagesMap st = [] \<Longrightarrow>
     chat_step parse date_ok cover st (account_changed parse date_ok u st)"

inductive chat_run ::
    "(string \<Rightarrow> jsval option) \<Rightarrow> (string \<Rightarrow> bool) \<Rightarrow> (string \<Rightarrow> string \<Rightarrow> string) \<Rightarrow> chat_state \<Rightarrow> chat_state \<Rightarrow> bool"
  for parse date_ok cover where
  run_start: "chat_run parse date_ok cover st st"
| run_step: "chat_run parse date_ok cover st st' \<Longrightarrow> chat_step parse date_ok cover st' st'' \<Longrightarrow>
     chat_run parse date_ok cover st st''"

section \<open>The invariant\<close>

definition rows_ok :: "chat_state \<Rightarrow> bool" where
  "rows_ok st \<longleftrightarrow> distinct (map c_id (conversations st)) \<and>
     c_id ` set (conversations st) \<inter> (set (hiddenIds st) \<union> set (exitedGroupIds st)) = {}"

definition shown_ok :: "chat_state \<Rightarrow> bool" where
  "shown_ok st \<longleftrightarrow> (\<forall>c. \<forall>m \<in> set (messages_of st c). \<not> removed (retained st) c (message_view m))"

definition mirror_ok :: "(string \<Rightarrow> jsval option) \<Rightarrow> chat_state \<Rightarrow> bool" where
  "mirror_ok parse st \<longleftrightarrow> storable (hiddenIds st) \<and> storable (exitedGroupIds st) \<and>
     read_id_set parse (storage st) (hiddenStorageKey st) = hiddenIds st \<and>
     read_id_set parse (storage st) (exitedGroupStorageKey st) = exitedGroupIds st"

definition store_ok :: "(string \<Rightarrow> jsval option) \<Rightarrow> chat_state \<Rightarrow> bool" where
  "store_ok parse st \<longleftrightarrow> rows_ok st \<and> shown_ok st \<and> mirror_ok parse st"

text \<open>
  An operation is quiet when it neither adds a row nor touches the sets or their storage keys.
\<close>

definition chat_key :: "string \<Rightarrow> string" where
  "chat_key k = ''chat:'' @ k"

definition quiet :: "chat_state \<Rightarrow> chat_state \<Rightarrow> bool" where
  "quiet st st' \<longleftrightarrow>
     (distinct (map c_id (conversations st)) \<longrightarrow> distinct (map c_id (conversations st'))) \<and>
     c_id ` set (conversations st') \<subseteq> c_id ` set (conversations st) \<and>
     hiddenIds st' = hiddenIds st \<and> exitedGroupIds st' = exitedGroupIds st \<and> imUserId st' = imUserId st \<and>
     (\<forall>k. storage_read (storage st') (chat_key k) = storage_read (storage st) (chat_key k))"

lemma quiet_refl [simp]: "quiet st st"
  by (simp add: quiet_def)

lemma quiet_trans: "quiet st st' \<Longrightarrow> quiet st' st'' \<Longrightarrow> quiet st st''"
  unfolding quiet_def by fastforce

lemma quiet_rows: "quiet st st' \<Longrightarrow> rows_ok st \<Longrightarrow> rows_ok st'"
  unfolding quiet_def rows_ok_def by fastforce

lemma quiet_mirror:
  assumes "quiet st st'" and "mirror_ok parse st"
  shows "mirror_ok parse st'"
proof -
  have k: "\<exists>r. hiddenStorageKey s = chat_key r" "\<exists>r. exitedGroupStorageKey s = chat_key r" for s
    by (simp_all add: hiddenStorageKey_def exitedGroupStorageKey_def chat_key_def)
  have "hiddenStorageKey st' = hiddenStorageKey st" "exitedGroupStorageKey st' = exitedGroupStorageKey st"
    using assms(1) by (simp_all add: quiet_def hiddenStorageKey_def exitedGroupStorageKey_def storage_user_def)
  moreover have "read_id_set parse (storage st') (hiddenStorageKey st) = read_id_set parse (storage st) (hiddenStorageKey st)"
    "read_id_set parse (storage st') (exitedGroupStorageKey st) = read_id_set parse (storage st) (exitedGroupStorageKey st)"
    using assms(1) k [of st] by (auto simp: quiet_def read_id_set_def)
  ultimately show ?thesis
    using assms by (simp add: mirror_ok_def quiet_def)
qed

section \<open>Quiet operations\<close>

named_theorems quiet_intros

lemma quiet_same:
  "conversations st' = conversations st \<Longrightarrow> hiddenIds st' = hiddenIds st \<Longrightarrow>
   exitedGroupIds st' = exitedGroupIds st \<Longrightarrow> imUserId st' = imUserId st \<Longrightarrow> storage st' = storage st \<Longrightarrow>
   quiet st st'"
  by (simp add: quiet_def)

lemma announcement_keys [simp]:
  "storage_read (writeUnreadAnnouncement u c b s) (chat_key k) = storage_read s (chat_key k)"
  by (simp add: writeUnreadAnnouncement_def Let_def unreadKey_def chat_key_def)

text \<open>The rules are composed from the outside in: what was quiet so far stays quiet.\<close>

lemma quiet_patch [quiet_intros]:
  "quiet a st \<Longrightarrow> (\<And>x. c_id x = c \<Longrightarrow> c_id (f x) = c) \<Longrightarrow> quiet a (patchConversation c f st)"
  by (erule quiet_trans) (simp add: quiet_def patchConversation_ids store_simps)

lemma quiet_announcement [quiet_intros]:
  "quiet a st \<Longrightarrow> quiet a (st\<lparr>storage := writeUnreadAnnouncement u c b (storage st)\<rparr>)"
  by (erule quiet_trans) (simp add: quiet_def)

lemma quiet_messages [quiet_intros]:
  "quiet a st \<Longrightarrow> quiet a (set_messages c ms st)" "quiet a st \<Longrightarrow> quiet a (set_history_end c e st)"
  "quiet a st \<Longrightarrow> quiet a (drop_raw ids st)" "quiet a st \<Longrightarrow> quiet a (rememberRaw i st)"
  "quiet a st \<Longrightarrow> quiet a (remember_all is st)" "quiet a st \<Longrightarrow> quiet a (trimRawMessagesWindow c st)"
  "quiet a st \<Longrightarrow> quiet a (trimMessageWindow c st)" "quiet a st \<Longrightarrow> quiet a (replaceMessage c t m st)"
  "quiet a st \<Longrightarrow> quiet a (st\<lparr>messagesMap := mm\<rparr>)" "quiet a st \<Longrightarrow> quiet a (st\<lparr>rawMessages := rm\<rparr>)"
  "quiet a st \<Longrightarrow> quiet a (st\<lparr>retained := r\<rparr>)" "quiet a st \<Longrightarrow> quiet a (st\<lparr>activeConversationId := act\<rparr>)"
  "quiet a st \<Longrightarrow> quiet a (st\<lparr>placeholderSeq := n\<rparr>)" "quiet a st \<Longrightarrow> quiet a (st\<lparr>remarks := rs\<rparr>)"
  "quiet a st \<Longrightarrow> quiet a (st\<lparr>blockedPeerKeys := bs\<rparr>)"
  by (erule quiet_trans, rule quiet_same; simp add: store_simps replaceMessage_def Let_def)+

lemma quiet_decorated:
  "map c_id (fst (decorate_all cs st)) = map c_id cs \<and> quiet st (snd (decorate_all cs st)) \<and>
   conversations (snd (decorate_all cs st)) = conversations st"
proof (induction cs arbitrary: st)
  case Nil
  then show ?case by simp
next
  case (Cons c cs)
  have "quiet st (snd (decorateConversation c st)) \<and> conversations (snd (decorateConversation c st)) = conversations st"
    by (simp add: decorateConversation_def Let_def announcement_noted_def quiet_announcement)
  then show ?case
    using Cons [of "snd (decorateConversation c st)"] quiet_trans by (auto simp: Let_def store_simps)
qed

lemma quiet_rows_map:
  "map c_id cs = map c_id (conversations st) \<Longrightarrow> quiet a st \<Longrightarrow> quiet a (st\<lparr>conversations := cs\<rparr>)"
  by (erule quiet_trans) (simp add: quiet_def, metis list.set_map order_refl)

lemma quiet_remarks [quiet_intros]: "quiet a st \<Longrightarrow> quiet a (applyContactRemarks st)"
  using quiet_decorated [of "conversations st" st]
  by (auto simp: applyContactRemarks_def Let_def intro: quiet_rows_map quiet_trans)

lemma quiet_setUnread [quiet_intros]: "quiet a st \<Longrightarrow> quiet a (setUnreadAnnouncement c b st)"
  by (auto simp: setUnreadAnnouncement_def Let_def split: option.split intro!: quiet_intros)

lemma quiet_deliver [quiet_intros]: "quiet a st \<Longrightarrow> quiet a (fst (deliver i m st))"
  by (auto simp: deliver_def Let_def intro!: quiet_intros)

lemma quiet_mark [quiet_intros]: "quiet a st \<Longrightarrow> quiet a (markAsRead c st)"
proof -
  have "quiet st (clear_unread c st)"
    using clear_unread_ids [of c st] unfolding quiet_def by (simp add: store_simps) (metis list.set_map order_refl)
  moreover assume "quiet a st"
  ultimately have "quiet a (clear_unread c st)" by (rule quiet_trans [rotated])
  then show ?thesis
    using \<open>quiet a st\<close> by (auto simp: markAsRead_def Let_def split: option.split intro!: quiet_intros
        quiet_announcement [of a "clear_unread c st", simplified store_simps])
qed

lemma quiet_more [quiet_intros]:
  "quiet a st \<Longrightarrow> quiet a (removeLocal c mid st)" "quiet a st \<Longrightarrow> quiet a (clearHistory c st)"
  "quiet a st \<Longrightarrow> quiet a (retainFromMessage c mid st)" "quiet a st \<Longrightarrow> quiet a (dropRevokedMessage c mid tip st)"
  "quiet a st \<Longrightarrow> quiet a (messages_loaded now c before page e st)"
  "quiet a st \<Longrightarrow> quiet a (fst (more_loaded c before page e st))"
  by (auto simp: removeLocal_def clearHistory_def retainFromMessage_def dropRevokedMessage_def
      messages_loaded_def more_loaded_def Let_def split: option.split intro!: quiet_intros)

lemma quiet_locate [quiet_intros]: "quiet a st \<Longrightarrow> quiet a (fst (locate_page c mid before page e st))"
  by (auto simp: locate_page_def Let_def intro!: quiet_intros)

lemma quiet_pins [quiet_intros]:
  "quiet a st \<Longrightarrow> quiet a (applyIncomingMessagePin now c p st)" "quiet a st \<Longrightarrow> quiet a (pinChatMessage c q st)"
  "quiet a st \<Longrightarrow> quiet a (unpinChatMessage c st)" "quiet a st \<Longrightarrow> quiet a (togglePin_failed c b st)"
  "quiet a st \<Longrightarrow> quiet a (dismissGroupAnnouncement c st)"
  by (auto simp: applyIncomingMessagePin_def pinChatMessage_def unpinChatMessage_def togglePin_failed_def
      dismissGroupAnnouncement_def Let_def intro!: quiet_intros)

lemma quiet_toggle: "togglePin_begin c st = Some (st', t) \<Longrightarrow> quiet st st'"
  by (auto simp: togglePin_begin_def split: option.splits intro!: quiet_intros)

lemma quiet_trim_memory [quiet_intros]: "quiet a st \<Longrightarrow> quiet a (trim_memory act cs st)"
proof (induction cs arbitrary: st)
  case Nil
  then show ?case by simp
next
  case (Cons c cs)
  show ?case
    unfolding trim_memory.simps by (rule Cons.IH) (auto intro!: quiet_intros Cons.prems)
qed

lemma quiet_receipts [quiet_intros]:
  "quiet a st \<Longrightarrow> quiet a (ingestReadReceipts rs st)" "quiet a st \<Longrightarrow> quiet a (on_revoked info st)"
  "quiet a st \<Longrightarrow> quiet a (recall_done c mid st)" "quiet a st \<Longrightarrow> quiet a (trimConversationMemory c st)"
  by (auto simp: ingestReadReceipts_def markLoadedMessagesRead_def on_revoked_def recall_done_def
      trimConversationMemory_def Let_def split: option.split intro!: quiet_intros)

section \<open>Operations on the sets\<close>

definition tame :: "(string \<Rightarrow> jsval option) \<Rightarrow> chat_state \<Rightarrow> chat_state \<Rightarrow> bool" where
  "tame parse st st' \<longleftrightarrow> (rows_ok st \<longrightarrow> rows_ok st') \<and> (mirror_ok parse st \<longrightarrow> mirror_ok parse st')"

lemma tame_trans: "tame parse a b \<Longrightarrow> tame parse b c \<Longrightarrow> tame parse a c"
  by (auto simp: tame_def)

lemma tame_refl [simp]: "tame parse a a"
  by (simp add: tame_def)

lemma quiet_tame: "quiet st st' \<Longrightarrow> tame parse st st'"
  by (simp add: tame_def quiet_rows quiet_mirror)

lemma tame_quiet: "tame parse a b \<Longrightarrow> quiet b c \<Longrightarrow> tame parse a c"
  using quiet_tame tame_trans by blast

lemma keys_of_set [simp]:
  "hiddenStorageKey (set_hidden ids st) = hiddenStorageKey st" "exitedGroupStorageKey (set_hidden ids st) = exitedGroupStorageKey st"
  "hiddenStorageKey (set_exited ids st) = hiddenStorageKey st" "exitedGroupStorageKey (set_exited ids st) = exitedGroupStorageKey st"
  "hiddenStorageKey (set_blocked ids st) = hiddenStorageKey st" "exitedGroupStorageKey (set_blocked ids st) = exitedGroupStorageKey st"
  "hiddenStorageKey (st\<lparr>conversations := cs\<rparr>) = hiddenStorageKey st"
  "exitedGroupStorageKey (st\<lparr>conversations := cs\<rparr>) = exitedGroupStorageKey st"
  by (simp_all add: hiddenStorageKey_def exitedGroupStorageKey_def storage_user_def store_simps)

lemma mirror_set_hidden: "storable ids \<Longrightarrow> mirror_ok parse st \<Longrightarrow> mirror_ok parse (set_hidden ids st)"
  by (simp add: mirror_ok_def store_simps read_written_id_set)

lemma mirror_set_exited: "storable ids \<Longrightarrow> mirror_ok parse st \<Longrightarrow> mirror_ok parse (set_exited ids st)"
  by (simp add: mirror_ok_def store_simps read_written_id_set)

lemma mirror_set_blocked: "mirror_ok parse st \<Longrightarrow> mirror_ok parse (set_blocked ids st)"
  by (simp add: mirror_ok_def store_simps)

lemma mirror_rows: "mirror_ok parse (st\<lparr>conversations := cs\<rparr>) = mirror_ok parse st"
  by (simp add: mirror_ok_def)

lemma mirror_storable:
  "mirror_ok parse st \<Longrightarrow> storable (hiddenIds st)" "mirror_ok parse st \<Longrightarrow> storable (exitedGroupIds st)"
  by (simp_all add: mirror_ok_def)

lemma tame_unhide: "tame parse st (unhideConversation c st)"
  by (auto simp: tame_def unhideConversation_def Let_def rows_ok_def store_simps
      intro!: mirror_set_hidden dest: mirror_storable)

lemma tame_allow: "tame parse st (allowGroupConversation c st)"
proof -
  have "tame parse st (set_exited (set_remove c (exitedGroupIds st)) st)"
    by (auto simp: tame_def rows_ok_def store_simps intro!: mirror_set_exited dest: mirror_storable)
  then show ?thesis
    using tame_unhide tame_trans by (auto simp: allowGroupConversation_def)
qed

lemma tame_blocked: "tame parse st (set_blocked ids st)"
  by (auto simp: tame_def rows_ok_def store_simps mirror_set_blocked)

lemma distinct_ids_filter: "distinct (map c_id cs) \<Longrightarrow> distinct (map c_id (filter P cs))"
  by (rule distinct_map_filter_ids)

lemma tame_filter: "tame parse st (st\<lparr>conversations := filter P (conversations st)\<rparr>)"
  by (auto simp: tame_def rows_ok_def mirror_rows distinct_ids_filter)

lemma tame_hide: "c \<noteq> [] \<Longrightarrow> tame parse st (hideConversationLocal c st)"
  by (auto simp: tame_def hideConversationLocal_def Let_def rows_ok_def store_simps distinct_ids_filter
      mirror_rows intro!: mirror_set_hidden dest: mirror_storable)

lemma tame_hide_contact:
  "[] \<notin> c_id ` set (conversations st) \<Longrightarrow> tame parse st (hideConversationForBlockedContact i st)"
proof -
  assume ids: "[] \<notin> c_id ` set (conversations st)"
  have m: "tame parse st (markPeerBlocked i st)" "conversations (markPeerBlocked i st) = conversations st"
    by (simp_all add: markPeerBlocked_def tame_blocked store_simps)
  have "tame parse b (hidePrivateConversationByContactId i b)" if b: "conversations b = conversations st" for b
  proof (cases "find (is_private_with i) (conversations b)")
    case None
    then show ?thesis by (simp add: hidePrivateConversationByContactId_def tame_filter)
  next
    case (Some x)
    then have "x \<in> set (conversations st)" using b by (auto simp: find_Some_iff)
    then have "c_id x \<noteq> []" using ids by (metis image_eqI)
    then show ?thesis using Some by (simp add: hidePrivateConversationByContactId_def tame_hide)
  qed
  then have "tame parse (markPeerBlocked i st) (hidePrivateConversationByContactId i (markPeerBlocked i st))"
    using m(2) by blast
  then show ?thesis
    using m(1) tame_trans by (simp add: hideConversationForBlockedContact_def)
qed

lemma tame_exit: "tame parse st (removeExitedGroupConversation c st)"
proof (cases "c = []")
  case True
  then show ?thesis by (simp add: removeExitedGroupConversation_def)
next
  case False
  define st2 where "st2 = drop_raw (map m_id (messages_of st c)) (set_history_end c True (set_messages c []
    (st\<lparr>conversations := filter (\<lambda>x. c_id x \<noteq> c) (conversations st)\<rparr>)))"
  have frames: "hiddenIds st2 = hiddenIds st" "exitedGroupIds st2 = exitedGroupIds st"
    "conversations st2 = filter (\<lambda>x. c_id x \<noteq> c) (conversations st)"
    by (simp_all add: st2_def store_simps)
  have "tame parse st st2"
    unfolding st2_def by (rule tame_quiet [OF tame_filter [where P = "\<lambda>x. c_id x \<noteq> c"]]) (auto intro!: quiet_intros)
  moreover have "tame parse st2 (set_exited (set_add c (exitedGroupIds st2)) (set_hidden (set_add c (hiddenIds st2)) st2))"
    using False mirror_storable [of parse st2] by (auto simp: tame_def rows_ok_def store_simps frames
        intro!: mirror_set_exited mirror_set_hidden)
  ultimately show ?thesis
    using False tame_trans by (simp add: removeExitedGroupConversation_def Let_def st2_def store_simps)
qed

lemma tame_upsert: "tame parse st (upsertConversations now is st)"
proof -
  obtain s where s: "snd (decorate_items now is st) = st\<lparr>storage := s\<rparr>"
    using decorate_items_frame by blast
  have "quiet st (snd (decorate_items now is st))"
  proof (induction "is" arbitrary: st)
    case Nil
    then show ?case by simp
  next
    case (Cons i "is")
    have "quiet st (snd (decorateConversation (toConversation now st i) st))"
      by (simp add: decorateConversation_def Let_def announcement_noted_def quiet_announcement)
    then show ?case using Cons quiet_trans by (auto simp: Let_def)
  qed
  then have t: "tame parse st (st\<lparr>storage := s\<rparr>)" using s quiet_tame by metis
  show ?thesis
  proof (cases "is = [] \<or> filter (shouldShowConversation (st\<lparr>storage := s\<rparr>)) (fst (decorate_items now is st)) = []")
    case True
    then show ?thesis using t s by (auto simp: upsertConversations_def Let_def)
  next
    case False
    have "rows_ok st \<longrightarrow> rows_ok (upsertConversations now is st)"
    proof
      assume r: "rows_ok st"
      then have d: "distinct (map c_id (conversations st))" by (simp add: rows_ok_def)
      have "\<forall>c \<in> set (conversations (upsertConversations now is st)). shouldShowConversation st c"
        using False by (auto simp: upsertConversations_def Let_def s)
      then show "rows_ok (upsertConversations now is st)"
        using upsert_rows(1) [OF d] by (auto simp: rows_ok_def store_simps shouldShowConversation_iff)
    qed
    moreover have "mirror_ok parse st \<longrightarrow> mirror_ok parse (upsertConversations now is st)"
      using False t by (auto simp: upsertConversations_def Let_def s tame_def mirror_rows)
    ultimately show ?thesis by (simp add: tame_def)
  qed
qed

lemma tame_append: "tame parse st (fst (appendMessage i st))"
proof -
  let ?c = "conversation_of_item i"
  have q: "quiet st (rememberRaw i st)" "quiet st (noted i st)"
    by (auto simp: noted_def intro!: quiet_intros)
  have t: "tame parse st (unhideConversation ?c (noted i st))"
    using q(2) tame_unhide tame_trans quiet_tame by blast
  have "tame parse st (fst (deliver i (toChatMessage i) (noted i st)))"
    by (rule tame_quiet [OF quiet_tame [OF q(2)]]) (auto intro!: quiet_intros)
  moreover have "tame parse st (fst (deliver i (toChatMessage i) (unhideConversation ?c (noted i st))))"
    by (rule tame_quiet [OF t]) (auto intro!: quiet_intros)
  ultimately show ?thesis
    using q quiet_tame by (auto simp: appendMessage_def Let_def noted_def store_simps)
qed

lemma tame_append_all: "tame parse st (fst (append_all is st))"
proof (induction "is" arbitrary: st)
  case Nil
  then show ?case by simp
next
  case (Cons i "is")
  show ?case using tame_trans [OF tame_append Cons.IH] by (simp add: Let_def)
qed

lemma tame_ingest: "tame parse st (fst (ingestIncoming cfg items st))"
  by (simp add: ingestIncoming_def Let_def tame_append_all)

lemma tame_loaded:
  assumes "distinct (map item_conversation is)"
  shows "tame parse st (loaded_conversations now is st)"
proof -
  define prev where "prev = map_of (rev (map (\<lambda>c. (c_id c, c)) (conversations st)))"
  obtain s where s: "snd (merge_loaded now prev is st) = st\<lparr>storage := s\<rparr>"
    using merge_loaded_frame by blast
  have "quiet st (snd (merge_loaded now prev is st))"
  proof (induction "is" arbitrary: st)
    case Nil
    then show ?case by simp
  next
    case (Cons i "is")
    have "quiet st (snd (decorateConversation (toConversation now st i) st))"
      by (simp add: decorateConversation_def Let_def announcement_noted_def quiet_announcement)
    then show ?case using Cons quiet_trans by (auto simp: Let_def)
  qed
  then have "mirror_ok parse st \<longrightarrow> mirror_ok parse (loaded_conversations now is st)"
    using quiet_mirror [of st "snd (merge_loaded now prev is st)" parse]
    by (simp add: loaded_conversations_def Let_def mirror_rows flip: prev_def)
  moreover have "rows_ok (loaded_conversations now is st)"
    using loaded_rows [OF assms, of now st] by (auto simp: rows_ok_def store_simps shouldShowConversation_iff)
  ultimately show ?thesis by (simp add: tame_def)
qed

lemma tame_blocked_list: "tame parse st (blocked_from_server answer st)"
  using tame_trans [OF tame_blocked tame_filter]
  by (auto simp: blocked_from_server_def Let_def tame_blocked split: option.split)

lemma tame_failed: "tame parse st (fst (send_failed s e st))"
  using quiet_tame [OF quiet_messages(8) [OF quiet_refl]] tame_trans [OF quiet_tame [OF quiet_messages(8) [OF quiet_refl]] tame_exit]
  by (auto simp: send_failed_def Let_def)

lemma tame_ack: "tame parse st (fst (send_ack cover s i st))"
proof -
  have q: "tame parse st (replaceMessage c t m (rememberRaw i st))" "tame parse st (rememberRaw i st)" for c t m
    by (auto intro!: quiet_tame quiet_intros)
  show ?thesis
    using tame_trans [OF q(1) tame_failed] tame_trans [OF q(2) tame_failed] tame_trans [OF q(1) tame_unhide] q
    by (auto simp: send_ack_def Let_def split: option.split)
qed

lemma sanitize_id: "c_id (sanitizeRetentionPreview r x) = c_id x"
  by (simp add: store_simps)

lemma conversation_at_id: "conversation_at st c = Some x \<Longrightarrow> c_id x = c"
  using conversation_at_Some by blast

lemma tame_finish: "tame parse st (fst (send_finish cover s i g st))"
  using tame_failed
  by (auto simp: send_finish_def Let_def preview_of_sent_def sanitize_id split: option.split
      dest: conversation_at_id intro!: quiet_tame quiet_intros)

lemma quiet_numbered: "quiet st (seq_resolved s m n found st)"
  by (auto simp: seq_resolved_def Let_def sanitize_id split: option.split dest: conversation_at_id
      intro!: quiet_intros)

lemma quiet_start: "start_send now c sender k t edit call st = Inr (st', s, x) \<Longrightarrow> quiet st st'"
  by (auto simp: start_send_def placeholderOf_def send_begin_def Let_def split: option.splits intro!: quiet_intros)

lemma quiet_prepare: "prepareOutgoingImage now c path sender st = Inr (st', p) \<Longrightarrow> quiet st st'"
  by (auto simp: prepareOutgoingImage_def placeholderOf_def Let_def split: option.splits intro!: quiet_intros)

lemma quiet_deliver_image: "quiet st (fst (deliverOutgoingImage c path p preview st))"
  by (auto simp: deliverOutgoingImage_def send_begin_def Let_def split: option.split intro!: quiet_intros)

lemma quiet_prune [quiet_intros]: "quiet a st \<Longrightarrow> quiet a (pruneRetainedHistory ids st)"
proof -
  assume "quiet a st"
  then have "quiet a (st\<lparr>conversations := map (sanitizeRetentionPreview (retained st)) (conversations st)\<rparr>)"
    by (intro quiet_rows_map) (simp_all add: store_simps)
  then show ?thesis
    unfolding pruneRetainedHistory_def by (elim quiet_trans) (simp add: quiet_def)
qed

fun safe_effect :: "retention_effect \<Rightarrow> bool" where
  "safe_effect (WriteIndex k rows) = (\<forall>j. k \<noteq> chat_key j)"
| "safe_effect (NotifyListeners ids) = True"

lemma quiet_effects: "quiet a st \<Longrightarrow> list_all safe_effect es \<Longrightarrow> quiet a (apply_retention_effects es st)"
proof (induction es arbitrary: st)
  case Nil
  then show ?case by simp
next
  case (Cons e es)
  have "quiet a (st\<lparr>storage := map_set k v (storage st)\<rparr>)" if "\<forall>j. k \<noteq> chat_key j" for k v
    using Cons.prems(1) by (rule quiet_trans) (use that in \<open>auto simp: quiet_def\<close>)
  then show ?case
    using Cons by (cases e) (auto intro!: Cons.IH quiet_prune)
qed

lemma retention_key_other: "retention_key r \<noteq> chat_key j"
  by (simp add: retention_key_def chat_key_def)

lemma quiet_answer: "quiet st (retention_answer date_ok now answer t st)"
proof -
  have "list_all safe_effect (snd (batch_finish date_ok now answer t (retained st)))"
    by (cases rule: batch_finish_cases [of date_ok now answer t "retained st"]) (simp_all add: retention_key_other)
  then show ?thesis
    by (auto simp: retention_answer_def Let_def intro!: quiet_effects quiet_intros)
qed

lemma account_rows: "rows_ok st \<Longrightarrow> rows_ok (account_changed parse date_ok u st)"
proof -
  assume r: "rows_ok st"
  define b where "b = st\<lparr>retained := setOwner date_ok (\<lambda>k. map_of (storage st) k) u (retained st)\<rparr>"
  have "distinct (map c_id (conversations (user_changed parse u b)))"
    using r by (simp add: user_changed_def Let_def rows_ok_def b_def distinct_ids_filter
        syncHiddenIdsFromStorage_def syncExitedGroupIdsFromStorage_def syncBlockedPeerKeysFromStorage_def)
  moreover have "\<forall>c \<in> set (conversations (user_changed parse u b)). shouldShowConversation (user_changed parse u b) c"
    by (simp add: user_changed_list)
  ultimately have "rows_ok (user_changed parse u b)"
    by (auto simp: rows_ok_def shouldShowConversation_iff)
  then show ?thesis by (simp add: account_changed_def b_def)
qed

lemma account_mirror: "mirror_ok parse (account_changed parse date_ok u st)"
proof -
  define b where "b = st\<lparr>retained := setOwner date_ok (\<lambda>k. map_of (storage st) k) u (retained st)\<rparr>"
  have u: "imUserId (user_changed parse u b) = u" and s: "storage (user_changed parse u b) = storage b"
    by (simp_all add: user_changed_def Let_def
        syncHiddenIdsFromStorage_def syncExitedGroupIdsFromStorage_def syncBlockedPeerKeysFromStorage_def)
  have "mirror_ok parse (user_changed parse u b)"
    using user_changed_sets [OF u, of parse b] s by (simp add: mirror_ok_def)
  then show ?thesis by (simp add: account_changed_def b_def)
qed

section \<open>No message below its tombstone\<close>

named_theorems bright_intros

definition bright :: "chat_state \<Rightarrow> chat_state \<Rightarrow> bool" where
  "bright a st \<longleftrightarrow> retained st = retained a \<and>
     (\<forall>c. \<forall>m \<in> set (messages_of st c). m_seq m \<in> m_seq ` set (messages_of a c) \<or>
        \<not> removed (retained a) c (message_view m))"

lemma bright_refl [simp]: "bright a a"
  by (simp add: bright_def)

lemma bright_shown: "bright a st \<Longrightarrow> shown_ok a \<Longrightarrow> shown_ok st"
  unfolding bright_def shown_ok_def by (metis imageE)

lemma bright_same:
  "bright a st \<Longrightarrow> messagesMap st' = messagesMap st \<Longrightarrow> retained st' = retained st \<Longrightarrow> bright a st'"
  by (simp add: bright_def)

lemma bright_list:
  "bright a st \<Longrightarrow> retained st' = retained st \<Longrightarrow>
   (\<And>d m. m \<in> set (messages_of st' d) \<Longrightarrow>
      m_seq m \<in> m_seq ` set (messages_of st d) \<or> \<not> removed (retained st) d (message_view m)) \<Longrightarrow> bright a st'"
proof -
  assume b: "bright a st" and r: "retained st' = retained st"
    and l: "\<And>d m. m \<in> set (messages_of st' d) \<Longrightarrow>
      m_seq m \<in> m_seq ` set (messages_of st d) \<or> \<not> removed (retained st) d (message_view m)"
  have "m_seq m \<in> m_seq ` set (messages_of a d) \<or> \<not> removed (retained a) d (message_view m)"
    if m: "m \<in> set (messages_of st' d)" for d m
  proof (cases "m_seq m \<in> m_seq ` set (messages_of st d)")
    case True
    then obtain k where "k \<in> set (messages_of st d)" "m_seq m = m_seq k" by blast
    then show ?thesis using b by (simp add: bright_def)
  next
    case False
    then show ?thesis using l [OF m] b by (simp add: bright_def)
  qed
  then show "bright a st'" using b r by (simp add: bright_def)
qed

lemma bright_frames [bright_intros]:
  "bright a st \<Longrightarrow> bright a (patchConversation c f st)" "bright a st \<Longrightarrow> bright a (set_history_end c e st)"
  "bright a st \<Longrightarrow> bright a (drop_raw ids st)" "bright a st \<Longrightarrow> bright a (rememberRaw i st)"
  "bright a st \<Longrightarrow> bright a (remember_all is st)" "bright a st \<Longrightarrow> bright a (trimRawMessagesWindow c st)"
  "bright a st \<Longrightarrow> bright a (st\<lparr>storage := s\<rparr>)" "bright a st \<Longrightarrow> bright a (st\<lparr>rawMessages := rm\<rparr>)"
  "bright a st \<Longrightarrow> bright a (st\<lparr>conversations := cs\<rparr>)" "bright a st \<Longrightarrow> bright a (st\<lparr>remarks := rs\<rparr>)"
  "bright a st \<Longrightarrow> bright a (st\<lparr>placeholderSeq := n\<rparr>)" "bright a st \<Longrightarrow> bright a (st\<lparr>activeConversationId := act\<rparr>)"
  "bright a st \<Longrightarrow> bright a (st\<lparr>hiddenIds := hs\<rparr>)" "bright a st \<Longrightarrow> bright a (st\<lparr>blockedPeerKeys := bs\<rparr>)"
  "bright a st \<Longrightarrow> bright a (set_hidden hs st)" "bright a st \<Longrightarrow> bright a (set_exited hs st)"
  "bright a st \<Longrightarrow> bright a (set_blocked hs st)" "bright a st \<Longrightarrow> bright a (clear_unread c st)"
  "bright a st \<Longrightarrow> bright a (setUnreadAnnouncement c b st)" "bright a st \<Longrightarrow> bright a (unhideConversation c st)"
  "bright a st \<Longrightarrow> bright a (upsertConversations now rows st)" "bright a st \<Longrightarrow> bright a (loaded_conversations now rows st)"
  by (erule bright_same; simp add: store_simps)+

lemma bright_set [bright_intros]:
  "bright a st \<Longrightarrow> (\<And>m. m \<in> set ms \<Longrightarrow> m_seq m \<in> m_seq ` set (messages_of st c) \<or>
     \<not> removed (retained st) c (message_view m)) \<Longrightarrow> bright a (set_messages c ms st)"
  by (erule bright_list) (auto simp: store_simps split: if_splits)

lemma bright_filtered [bright_intros]:
  "bright a st \<Longrightarrow> r = retained st \<Longrightarrow> bright a (set_messages c (filter_messages r c ms) st)"
  by (rule bright_set) (auto simp: filter_visible_def)

lemma bright_trim [bright_intros]: "bright a st \<Longrightarrow> bright a (trimMessageWindow c st)"
  by (erule bright_list) (use set_slice_last in \<open>fastforce simp: store_simps split: if_splits\<close>)+

lemma bright_replace [bright_intros]: "bright a st \<Longrightarrow> bright a (replaceMessage c t m st)"
  unfolding replaceMessage_def Let_def by (intro bright_intros) simp_all

lemma bright_deliver [bright_intros]:
  "bright a st \<Longrightarrow> \<not> removed (retained st) (m_conversation m) (message_view m) \<Longrightarrow> bright a (fst (deliver i m st))"
  by (auto simp: deliver_def Let_def intro!: bright_intros)

lemma bright_pages [bright_intros]:
  "bright a st \<Longrightarrow> bright a (messages_loaded now c before page e st)"
  "bright a st \<Longrightarrow> bright a (fst (more_loaded c before page e st))"
  by (auto simp: messages_loaded_def more_loaded_def Let_def intro!: bright_intros)

lemma bright_retain [bright_intros]: "bright a st \<Longrightarrow> bright a (retainFromMessage c mid st)"
  by (auto simp: retainFromMessage_def Let_def split: option.split intro!: bright_intros dest: in_set_dropD)

lemma bright_locate [bright_intros]: "bright a st \<Longrightarrow> bright a (fst (locate_page c mid before page e st))"
  by (auto simp: locate_page_def Let_def intro!: bright_intros)

lemma bright_mark [bright_intros]: "bright a st \<Longrightarrow> bright a (markAsRead c st)"
  by (auto simp: markAsRead_def Let_def split: option.split intro!: bright_intros)

lemma bright_revoke [bright_intros]: "bright a st \<Longrightarrow> bright a (dropRevokedMessage c mid tip st)"
proof -
  assume b: "bright a st"
  have "m_seq m \<in> m_seq ` set (messages_of st d) \<or> \<not> removed (retained st) d (message_view m)"
    if "m \<in> set (messages_of (dropRevokedMessage c mid tip st) d)" for d m
    using that by (auto simp: dropRevokedMessage_def store_simps map_list_def split: option.splits if_splits)
  then show ?thesis
    using bright_list [OF b] by (auto simp: dropRevokedMessage_def store_simps split: option.split)
qed

lemma map_of_map_values: "map_of (map (\<lambda>(c, ms). (c, f ms)) m) d = map_option f (map_of m d)"
  by (induction m) auto

lemma bright_receipts [bright_intros]: "bright a st \<Longrightarrow> bright a (markLoadedMessagesRead ids st)"
  by (erule bright_list)
    (auto simp: markLoadedMessagesRead_def map_list_def map_of_map_values split: option.splits if_splits)

lemma bright_others [bright_intros]:
  "bright a st \<Longrightarrow> bright a (ingestReadReceipts rs st)" "bright a st \<Longrightarrow> bright a (on_revoked info st)"
  "bright a st \<Longrightarrow> bright a (recall_done c mid st)" "bright a st \<Longrightarrow> bright a (removeLocal c mid st)"
  "bright a st \<Longrightarrow> bright a (clearHistory c st)" "bright a st \<Longrightarrow> bright a (applyIncomingMessagePin now c p st)"
  "bright a st \<Longrightarrow> bright a (pinChatMessage c q st)" "bright a st \<Longrightarrow> bright a (unpinChatMessage c st)"
  "bright a st \<Longrightarrow> bright a (togglePin_failed c b st)" "bright a st \<Longrightarrow> bright a (dismissGroupAnnouncement c st)"
  "bright a st \<Longrightarrow> bright a (hideConversationLocal c st)" "bright a st \<Longrightarrow> bright a (removeExitedGroupConversation c st)"
  "bright a st \<Longrightarrow> bright a (allowGroupConversation c st)" "bright a st \<Longrightarrow> bright a (markPeerBlocked k st)"
  "bright a st \<Longrightarrow> bright a (markPeerUnblocked k st)" "bright a st \<Longrightarrow> bright a (blocked_from_server answer st)"
  by (auto simp: ingestReadReceipts_def on_revoked_def recall_done_def removeLocal_def clearHistory_def
      applyIncomingMessagePin_def pinChatMessage_def unpinChatMessage_def togglePin_failed_def
      dismissGroupAnnouncement_def hideConversationLocal_def removeExitedGroupConversation_def
      allowGroupConversation_def markPeerBlocked_def markPeerUnblocked_def blocked_from_server_def Let_def
      split: option.split intro!: bright_intros)

lemma consistent_removed:
  "consistent_item i \<Longrightarrow> removed r c (seq_view (nonzero (seq_of i))) = removed r c (raw i)"
  by (simp add: consistent_item_def removed_def)

lemma bright_append: "consistent_item i \<Longrightarrow> bright a st \<Longrightarrow> bright a (fst (appendMessage i st))"
  by (auto simp: appendMessage_def Let_def consistent_removed store_simps intro!: bright_intros)

lemma bright_append_all: "list_all consistent_item is \<Longrightarrow> bright a st \<Longrightarrow> bright a (fst (append_all is st))"
  by (induction "is" arbitrary: st) (auto simp: Let_def intro: bright_append)

lemma bright_ingest: "list_all consistent_item items \<Longrightarrow> bright a st \<Longrightarrow> bright a (fst (ingestIncoming cfg items st))"
  by (auto simp: ingestIncoming_def Let_def list_all_iff intro!: bright_append_all)

lemma bright_remarks: "bright a st \<Longrightarrow> bright a (applyContactRemarks st)"
proof -
  assume b: "bright a st"
  obtain s where "snd (decorate_all (conversations st) st) = st\<lparr>storage := s\<rparr>" using decorate_all_frame by blast
  then show ?thesis using b by (auto simp: applyContactRemarks_def Let_def intro!: bright_intros)
qed

lemma bright_trim_memory: "bright a st \<Longrightarrow> bright a (trim_memory act cs st)"
proof (induction cs arbitrary: st)
  case Nil
  then show ?case by simp
next
  case (Cons c cs)
  have "bright a (st\<lparr>messagesMap := map_delete c (messagesMap st)\<rparr>)"
    by (rule bright_list [OF Cons.prems]) (auto split: if_splits)
  then show ?case
    unfolding trim_memory.simps using Cons.prems by (intro Cons.IH) (auto intro!: bright_intros)
qed

lemma bright_failed: "bright a st \<Longrightarrow> bright a (fst (send_failed s e st))"
  by (auto simp: send_failed_def Let_def intro!: bright_intros)

lemma bright_ack: "bright a st \<Longrightarrow> bright a (fst (send_ack cover s i st))"
  by (auto simp: send_ack_def Let_def split: option.split intro!: bright_intros bright_failed)

lemma bright_finish: "bright a st \<Longrightarrow> bright a (fst (send_finish cover s i g st))"
  by (auto simp: send_finish_def Let_def split: option.split intro!: bright_intros bright_failed)

lemma bright_numbered: "bright a st \<Longrightarrow> bright a (seq_resolved s m n found st)"
  by (auto simp: seq_resolved_def Let_def split: option.split intro!: bright_intros)

lemma bright_start:
  "start_send now c sender k t edit call st = Inr (st', s, x) \<Longrightarrow> (\<And>p. m_seq (edit p) = m_seq p) \<Longrightarrow>
   bright a st \<Longrightarrow> bright a st'"
  by (auto simp: start_send_def placeholderOf_def send_begin_def Let_def split: option.splits intro!: bright_intros)

lemma bright_prepare: "prepareOutgoingImage now c path sender st = Inr (st', p) \<Longrightarrow> bright a st \<Longrightarrow> bright a st'"
  by (auto simp: prepareOutgoingImage_def placeholderOf_def Let_def split: option.splits intro!: bright_intros)

lemma bright_deliver_image: "bright a st \<Longrightarrow> bright a (fst (deliverOutgoingImage c path p preview st))"
  by (auto simp: deliverOutgoingImage_def send_begin_def Let_def split: option.split intro!: bright_intros)

lemma bright_hide_contact: "bright a st \<Longrightarrow> bright a (hideConversationForBlockedContact i st)"
  by (auto simp: hideConversationForBlockedContact_def hidePrivateConversationByContactId_def
      split: option.split intro!: bright_intros)

text \<open>When the boundary moves, the notified groups are pruned and the others kept their boundary.\<close>

lemma removed_minSeq: "minSeq r c = minSeq r' c \<Longrightarrow> removed r c v = removed r' c v"
  by (simp add: removed_def)

lemma merge_row_same: "c \<noteq> conversationId row \<or> \<not> snd (merge_row row r) \<Longrightarrow> minSeq (fst (merge_row row r)) c = minSeq r c"
  by (auto simp: merge_row_def minSeq_def split: option.splits if_splits)

lemma commit_rows_same:
  "c \<notin> set (fst (snd (commit_rows rows r))) \<Longrightarrow> minSeq (fst (commit_rows rows r)) c = minSeq r c"
proof (induction rows r rule: commit_rows.induct)
  case (1 st)
  then show ?case by simp
next
  case (2 row rows st)
  then show ?case
    using merge_row_same [of c row st] by (auto simp: Let_def split: if_splits)
qed

lemma prune_messages_of:
  "messages_of (st\<lparr>messagesMap := prune_messages r ids (messagesMap st)\<rparr>) c =
     (if c \<in> set ids then filter_messages r c (messages_of st c) else messages_of st c)"
proof -
  have "map_list (prune_messages r ids m) c = (if c \<in> set ids then filter_messages r c (map_list m c) else map_list m c)" for m
    by (induction ids arbitrary: m) (auto simp: map_list_def filter_visible_def split: option.splits)
  then show ?thesis by simp
qed

lemma shown_prune:
  assumes old: "\<And>c m. c \<notin> set ids \<Longrightarrow> m \<in> set (messages_of st c) \<Longrightarrow> \<not> removed (retained st) c (message_view m)"
  shows "shown_ok (pruneRetainedHistory ids st)"
proof -
  have "messages_of (pruneRetainedHistory ids st) c =
     (if c \<in> set ids then filter_messages (retained st) c (messages_of st c) else messages_of st c)" for c
    using prune_messages_of [of "retained st" ids st c] by (simp add: pruneRetainedHistory_def)
  then show ?thesis
    using old by (auto simp: shown_ok_def pruneRetainedHistory_def filter_visible_def)
qed

lemma shown_answer: "shown_ok st \<Longrightarrow> shown_ok (retention_answer date_ok now answer t st)"
proof -
  assume ok: "shown_ok st"
  let ?r = "batch_finish date_ok now answer t (retained st)"
  show ?thesis
  proof (cases rule: batch_finish_cases [of date_ok now answer t "retained st"])
    case dropped
    then have "minSeq (fst ?r) c = minSeq (retained st) c" for c by (simp add: minSeq_def store_simps)
    then show ?thesis
      using ok dropped removed_minSeq [of "fst ?r" _ "retained st"] by (simp add: retention_answer_def Let_def shown_ok_def)
  next
    case (committed items rows)
    define ids where "ids = fst (snd (commit_rows rows (retained st)))"
    have same: "removed (fst ?r) c v = removed (retained st) c v" if "c \<notin> set ids" for c v
      using committed(5) commit_rows_same [of c rows "retained st"] that
      by (intro removed_minSeq) (simp add: ids_def minSeq_def)
    have stored: "shown_ok (s\<lparr>storage := x\<rparr>) = shown_ok s" for s x by (simp add: shown_ok_def)
    show ?thesis
    proof (cases "ids = []")
      case True
      then show ?thesis
        using ok committed(6) same by (simp add: retention_answer_def Let_def shown_ok_def flip: ids_def)
    next
      case False
      have "shown_ok (pruneRetainedHistory ids (st\<lparr>retained := fst ?r, storage := x\<rparr>))" for x
        by (rule shown_prune) (use ok same in \<open>auto simp: shown_ok_def\<close>)
      moreover have "shown_ok (pruneRetainedHistory ids (st\<lparr>retained := fst ?r\<rparr>))"
        by (rule shown_prune) (use ok same in \<open>auto simp: shown_ok_def\<close>)
      ultimately show ?thesis
        using committed(6) False by (simp add: retention_answer_def Let_def flip: ids_def)
    qed
  qed
qed

lemma shown_empty: "messagesMap st = [] \<Longrightarrow> shown_ok st"
  by (simp add: shown_ok_def)

section \<open>Every step keeps the invariant\<close>

lemma tameD: "tame parse st st' \<Longrightarrow> mirror_ok parse st \<Longrightarrow> (rows_ok st \<longrightarrow> rows_ok st') \<and> mirror_ok parse st'"
  by (simp add: tame_def)

lemma chat_step_tame:
  "chat_step parse date_ok cover st st' \<Longrightarrow> mirror_ok parse st \<Longrightarrow>
     (rows_ok st \<longrightarrow> rows_ok st') \<and> mirror_ok parse st'"
proof (induction rule: chat_step.induct)
  case (stored_hidden st)
  then have "syncHiddenIdsFromStorage parse st = st"
    by (simp add: syncHiddenIdsFromStorage_def mirror_ok_def)
  then show ?case using stored_hidden by simp
next
  case (stored_blocked st)
  have "tame parse st (syncBlockedPeerKeysFromStorage parse st)"
    unfolding syncBlockedPeerKeysFromStorage_def by (intro quiet_tame quiet_intros quiet_refl)
  then show ?case using stored_blocked by (simp add: tame_def)
next
  case (remarks_changed st rs)
  have "quiet st (applyContactRemarks (st\<lparr>remarks := rs\<rparr>))" by (intro quiet_intros quiet_refl)
  then show ?case using remarks_changed quiet_rows quiet_mirror by blast
next
  case (account_switched st u)
  then show ?case using account_rows account_mirror by blast
next
  case (contact_unblocked st i)
  have "tame parse st (markPeerUnblocked i st)" by (simp add: markPeerUnblocked_def tame_blocked)
  then show ?case using contact_unblocked by (simp add: tame_def)
next
  case (store_reset st)
  have "quiet st (reset st)" by (simp add: quiet_def reset_def)
  then show ?case using store_reset quiet_rows quiet_mirror by blast
qed ((erule tameD [rotated]; rule tame_ingest tame_upsert tame_blocked_list tame_unhide
        tame_allow tame_exit tame_ack tame_finish tame_failed)
    | (erule tameD [rotated]; erule tame_loaded tame_hide tame_hide_contact)
    | (erule tameD [rotated]; rule quiet_tame; rule quiet_deliver_image quiet_numbered quiet_answer)
    | (erule tameD [rotated]; rule quiet_tame; erule quiet_toggle quiet_start quiet_prepare)
    | (erule tameD [rotated]; rule quiet_tame; intro quiet_intros quiet_refl))+

lemma chat_step_shown:
  "chat_step parse date_ok cover st st' \<Longrightarrow> shown_ok st \<Longrightarrow> shown_ok st'"
proof (induction rule: chat_step.induct)
  case (boundary_moved st now answer t)
  then show ?case by (rule shown_answer)
next
  case (sync_turned call st call' r t)
  then obtain ids where "r = fst (batch_start ids (retained st))" using sync_next_start by blast
  then have "minSeq r c = minSeq (retained st) c" for c by (simp add: minSeq_def store_simps)
  then show ?case using sync_turned.prems removed_minSeq [of r _ "retained st"] by (simp add: shown_ok_def)
next
  case (account_switched st u)
  then show ?case
    by (intro shown_empty) (simp add: account_changed_def user_changed_def Let_def
      syncHiddenIdsFromStorage_def syncExitedGroupIdsFromStorage_def syncBlockedPeerKeysFromStorage_def)
next
  case (store_reset st)
  then show ?case by (intro shown_empty) (simp add: reset_def)
next
  case (stored_hidden st)
  then show ?case by (simp add: shown_ok_def syncHiddenIdsFromStorage_def)
next
  case (stored_blocked st)
  then show ?case by (simp add: shown_ok_def syncBlockedPeerKeysFromStorage_def)
next
  case (remarks_changed st rs)
  then show ?case using bright_shown [OF bright_remarks [OF bright_frames(10) [OF bright_refl]]] by blast
next
  case (pin_toggled c st st' b)
  then have "bright st st'" by (auto simp: togglePin_begin_def split: option.splits intro!: bright_intros)
  then show ?case using pin_toggled bright_shown by blast
next
  case (memory_trimmed st c)
  have "bright st (trimConversationMemory c st)"
    by (simp add: trimConversationMemory_def bright_trim_memory)
  then show ?case using memory_trimmed bright_shown by blast
qed ((erule bright_shown [rotated]; intro bright_intros bright_refl; fail)
    | (erule bright_shown [rotated]; erule bright_ingest bright_prepare; rule bright_refl)
    | (erule bright_shown [rotated]; rule bright_start; assumption?; simp; fail)
    | (erule bright_shown [rotated]; rule bright_deliver_image bright_ack bright_finish bright_failed
        bright_numbered bright_hide_contact; rule bright_refl)
    | (erule bright_shown [rotated]; intro bright_intros bright_refl))+

section \<open>Properties\<close>


definition sample_sdk_row :: conversation_item where
  "sample_sdk_row = \<lparr>item_conversation = ''sg_1'', item_single = False, item_group = [], item_remark = [],
     item_show_name = ''team'', item_unread = 2, item_group_at = 4, item_latest = JObj [(''seq'', JInt 7)],
     item_latest_id = ''m7'', item_summary = ''hi'', item_send_time = 5, item_pinned = False,
     item_pin = None, item_recv_opt = 0, item_user = []\<rparr>"


section \<open>Reloading the tombstones under a store that is not empty\<close>

text \<open>
  \<open>resetLoginCache\<close> sets the owner to nobody and \<open>rememberLogin\<close> sets it back, without a reset of
  the store in between (\<open>invalidateIMLoginCache\<close> on the errors 10004 and 10005). \<open>setOwner\<close> tells no
  listener, so a page that was answered while there was no owner keeps a message below the
  boundary on screen after the boundary is back.
\<close>

definition relogin_message :: message_item where
  "relogin_message = (sample_item ''m5'')\<lparr>raw := JObj [(''seq'', JInt 5)], seq_of := 5\<rparr>"

definition relogin_store :: chat_state where
  "relogin_store = empty_store\<lparr>storage := [(''im:group-retention:v1:u1'', JArr [encode_row (sample_row 9 2)])]\<rparr>"

definition relogin_reload :: "string \<Rightarrow> chat_state \<Rightarrow> chat_state" where
  "relogin_reload u st = st\<lparr>retained := setOwner (\<lambda>_. True) (\<lambda>k. map_of (storage st) k) u (retained st)\<rparr>"

definition relogin_end :: chat_state where
  "relogin_end = relogin_reload ''u1'' (messages_loaded 9 sample_group [] [relogin_message] True
     (relogin_reload [] (relogin_reload ''u1'' relogin_store)))"

lemma relogin_exposes_expired:
  "messages_of relogin_end sample_group = [toChatMessage relogin_message] \<and>
   removed (retained relogin_end) sample_group (message_view (toChatMessage relogin_message))"
  by code_simp

end
