(* ===== verification/McpSettings.thy ===== *)
theory McpSettings
  imports Prelude
begin

text \<open>
  The approval settings of the monitor's tool server
  (\<open>IM-ops/viron/src/shared/mcp-settings.ts\<close>) and the request and response records of its
  protocol (\<open>mcp-protocol.ts\<close>).
\<close>

datatype approval_mode = Always | HighRisk | Never

datatype risk_level = Low | Medium | High

definition DEFAULT_MCP_APPROVAL_MODE :: approval_mode where
  "DEFAULT_MCP_APPROVAL_MODE = Always"

definition mcpApprovalMode :: "jsval \<Rightarrow> approval_mode" where
  "mcpApprovalMode value = (case value of
     JStr s \<Rightarrow> (if s = ''always'' then Always else if s = ''high-risk'' then HighRisk
               else if s = ''never'' then Never else DEFAULT_MCP_APPROVAL_MODE)
   | _ \<Rightarrow> DEFAULT_MCP_APPROVAL_MODE)"

definition mcpApprovalRequired :: "approval_mode \<Rightarrow> risk_level \<Rightarrow> bool" where
  "mcpApprovalRequired mode risk =
     (if risk = Low then False
      else if mode = Never then False
      else if mode = HighRisk then risk = High
      else True)"

text \<open>\<open>McpApiResponse\<close>; a missing header and the header value \<open>undefined\<close> are the same.\<close>

record api_response =
  r_status :: int
  r_headers :: "(string, jsval) jsmap"
  r_data :: jsval

record api_request =
  q_method :: string
  q_path :: string
  q_workspace :: "string option"
  q_query :: "(string, jsval) jsmap"
  q_body :: jsval

end
