(* ===== verification/SshRisk.thy ===== *)
theory SshRisk
  imports JsText McpSettings
begin

text \<open>
  The classifier of shell commands an agent asks to run over SSH
  (\<open>IM-ops/viron/src/shared/ssh-command-risk.ts\<close>): a tokenizer of shell text, the verdict on
  one simple command, and the verdict on a script. A script is \<open>low\<close> risk when all it
  does is read; everything the classifier does not recognise is \<open>high\<close>.

  Substitutions and wrappers (\<open>$(..)\<close>, \<open>sudo\<close>, \<open>sh -c\<close>, \<open>kubectl exec\<close>) are judged by the same
  functions one level deeper. The definitions that meet them take the verdict of the next
  level as an argument, and \<open>isReadOnlySimple\<close> and \<open>isReadOnlyShell\<close> tie the knot.
\<close>

datatype shell_token = TWord string | TSeparator string | TRedirect string

datatype quote_state = NoQuote | SingleQuote | DoubleQuote

section \<open>Tables\<close>

definition SIMPLE_QUERY_COMMANDS :: "string list" where
  "SIMPLE_QUERY_COMMANDS = [
    '':'', ''arch'', ''basename'', ''cal'', ''cat'', ''cksum'', ''column'', ''comm'', ''cut'', ''df'',
    ''dirname'', ''du'', ''echo'', ''expand'', ''file'', ''findmnt'', ''fmt'', ''fold'', ''free'', ''getconf'', ''getent'',
    ''grep'', ''egrep'', ''fgrep'', ''groups'', ''head'', ''hexdump'', ''host'', ''id'', ''iostat'', ''ipcs'', ''last'', ''lastlog'', ''less'', ''locale'',
    ''locate'', ''logname'', ''ls'', ''lsattr'', ''lsblk'', ''lscpu'', ''lsof'', ''md5sum'', ''more'', ''mpstat'', ''netstat'',
    ''nl'', ''nproc'', ''nslookup'', ''numfmt'', ''od'', ''paste'', ''pgrep'', ''pidof'', ''ping'', ''pr'', ''printenv'',
    ''printf'', ''ps'', ''pstree'', ''pwd'', ''readlink'', ''realpath'', ''rev'', ''sar'', ''seq'', ''sha1sum'', ''sha224sum'', ''sha256sum'',
    ''sha384sum'', ''sha512sum'', ''size'', ''ss'', ''stat'', ''strings'', ''tac'', ''tail'', ''top'', ''tr'', ''traceroute'',
    ''true'', ''uname'', ''unexpand'', ''uniq'', ''uptime'', ''users'', ''vmstat'', ''w'', ''wc'', ''whatis'', ''whereis'', ''which'',
    ''who'', ''whoami'', ''whois'', ''zipinfo'']"

definition FORBIDDEN_ASSIGNMENTS :: "string \<Rightarrow> bool" where
  "FORBIDDEN_ASSIGNMENTS name \<longleftrightarrow> (let n = to_lower name in
     n \<in> set [''path'', ''cdpath'', ''env'', ''bash_env'', ''shellopts'', ''ifs'', ''globignore''] \<or>
     starts_with n ''ld_'' \<and> list_all is_word (drop 3 n) \<or>
     starts_with n ''dyld_'' \<and> list_all is_word (drop 5 n))"

definition SAFE_REDIRECT_TARGETS :: "string list" where
  "SAFE_REDIRECT_TARGETS = [''/dev/null'', ''/dev/stdout'', ''/dev/stderr'']"

text \<open>\<open>basename\<close>: a bare name, or a file directly in one of the system's binary directories.\<close>

definition basename :: "string \<Rightarrow> string option" where
  "basename command =
     (if CHR ''/'' \<notin> set command then Some command
      else case filter (starts_with command) [''/bin/'', ''/sbin/'', ''/usr/bin/'', ''/usr/sbin/''] of
             [] \<Rightarrow> None
           | p # _ \<Rightarrow> (let rest = drop (length p) command in
               if rest = [] \<or> CHR ''/'' \<in> set rest then None else Some rest))"

section \<open>The tokenizer\<close>

text \<open>
  \<open>commandSubstitution\<close> from behind its \<open>$(\<close>: the body up to the closing parenthesis and the
  text behind it.
\<close>

fun commandSubstitution :: "nat \<Rightarrow> quote_state \<Rightarrow> string \<Rightarrow> (string \<times> string) option" where
  "commandSubstitution depth quote [] = None"
| "commandSubstitution depth quote (c # s) =
     (let go = (\<lambda>r. map_option (\<lambda>(body, rest). (c # body, rest)) r) in
      if quote = SingleQuote then
        go (commandSubstitution depth (if c = CHR 0x27 then NoQuote else quote) s)
      else if c = CHR 0x5C then
        (case s of [] \<Rightarrow> None
         | d # s' \<Rightarrow> map_option (\<lambda>(body, rest). (c # d # body, rest)) (commandSubstitution depth quote s'))
      else if c = CHR 0x27 then
        go (commandSubstitution depth (if quote = DoubleQuote then quote else SingleQuote) s)
      else if c = CHR 0x22 then
        go (commandSubstitution depth (if quote = DoubleQuote then NoQuote else DoubleQuote) s)
      else if c = CHR ''('' then go (commandSubstitution (depth + 1) quote s)
      else if c = CHR '')'' then
        (if depth = 1 then Some ([], s) else go (commandSubstitution (depth - 1) quote s))
      else go (commandSubstitution depth quote s))"

fun backtickSubstitution :: "string \<Rightarrow> (string \<times> string) option" where
  "backtickSubstitution [] = None"
| "backtickSubstitution (c # s) =
     (if c = CHR 0x5C then
        (case s of [] \<Rightarrow> None
         | d # s' \<Rightarrow> map_option (\<lambda>(body, rest). (c # d # body, rest)) (backtickSubstitution s'))
      else if c = CHR 0x60 then Some ([], s)
      else map_option (\<lambda>(body, rest). (c # body, rest)) (backtickSubstitution s))"

text \<open>
  \<open>redirectionAt\<close>: the operator the text starts with, and the text behind it. The groups of
  the source's expression are tried in its order; none of them can give back characters.
\<close>

definition redirect_operator :: "string \<Rightarrow> string option" where
  "redirect_operator s = find (starts_with s) [''<<<'', ''<<'', ''<>'', ''>>'', ''>|'', ''<'', ''>'']"

definition descriptor_suffix :: "string \<Rightarrow> string" where
  "descriptor_suffix s =
     (if starts_with s ''&'' then
        (let ds = takeWhile is_digit (tl s) in
         if ds \<noteq> [] then CHR ''&'' # ds else if starts_with (tl s) ''-'' then ''&-'' else [])
      else [])"

definition redirectionAt :: "string \<Rightarrow> (string \<times> string) option" where
  "redirectionAt s =
     (if starts_with s ''&>>'' then Some (''&>>'', drop 3 s)
      else if starts_with s ''&>'' then Some (''&>'', drop 2 s)
      else let ds = takeWhile is_digit s; r = dropWhile is_digit s in
        case redirect_operator r of None \<Rightarrow> None
        | Some oper \<Rightarrow> (let t = drop (length oper) r; suf = descriptor_suffix t in
            Some (ds @ oper @ suf, drop (length suf) t)))"

definition flushWord :: "string \<Rightarrow> shell_token list \<Rightarrow> shell_token list" where
  "flushWord word ts = (if word = [] then ts else TWord word # ts)"

lemma commandSubstitution_shorter:
  "commandSubstitution depth quote s = Some (body, rest) \<Longrightarrow> length rest < length s"
  by (induction depth quote s arbitrary: body rest rule: commandSubstitution.induct)
     (fastforce simp: Let_def split: if_splits list.splits)+

lemma backtickSubstitution_shorter:
  "backtickSubstitution s = Some (body, rest) \<Longrightarrow> length rest < length s"
  by (induction s arbitrary: body rest rule: backtickSubstitution.induct)
     (fastforce split: if_splits list.splits)+

lemma redirect_operator_in:
  "redirect_operator s = Some oper \<Longrightarrow>
     oper \<in> set [''<<<'', ''<<'', ''<>'', ''>>'', ''>|'', ''<'', ''>''] \<and> starts_with s oper"
  unfolding redirect_operator_def by (auto simp: find_Some_iff less_Suc_eq nth_Cons' split: if_splits)

lemma redirectionAt_shorter: "redirectionAt s = Some (oper, rest) \<Longrightarrow> length rest < length s"
proof -
  assume r: "redirectionAt s = Some (oper, rest)"
  consider "rest = drop 3 s" "starts_with s ''&>>''" | "rest = drop 2 s" "starts_with s ''&>''"
    | op' where "redirect_operator (dropWhile is_digit s) = Some op'"
        "length rest \<le> length (drop (length op') (dropWhile is_digit s))"
    using r by (auto simp: redirectionAt_def Let_def split: if_splits option.splits)
  then show ?thesis
  proof cases
    case (3 op')
    have "op' \<noteq> []" "starts_with (dropWhile is_digit s) op'"
      using redirect_operator_in [OF 3(1)] by auto
    then have "length (drop (length op') (dropWhile is_digit s)) < length (dropWhile is_digit s)"
      by (auto simp: starts_with_iff)
    with 3(2) show ?thesis
      using length_dropWhile_le [of is_digit s] by linarith
  qed (auto simp: starts_with_iff)
qed

text \<open>
  One round of the loop of \<open>tokenizeShell\<close>: from the word collected so far, the open quote, the
  character and the text behind it to the tokens pushed, the new word, the new quote and
  the text that is left. First the round on a substitution, where \<open>sub\<close> is the verdict on
  its body; then the round outside quotes and substitutions; then the order of the tests.
\<close>

type_synonym shell_round = "shell_token list \<times> string \<times> quote_state \<times> string"

definition substituted ::
    "(string \<Rightarrow> bool) \<Rightarrow> string \<Rightarrow> quote_state \<Rightarrow> (string \<times> string) option \<Rightarrow> shell_round option" where
  "substituted sub word quote found = (case found of None \<Rightarrow> None
     | Some (body, rest) \<Rightarrow> if sub body then Some ([], word @ ''$()'', quote, rest) else None)"

definition pair_separators :: "string list" where
  "pair_separators = [''&&'', ''||'', ''|&'']"

definition plain_step :: "string \<Rightarrow> char \<Rightarrow> string \<Rightarrow> shell_round option" where
  "plain_step word c s =
     (if c = CHR ''#'' \<and> word = [] then Some ([], word, NoQuote, dropWhile (\<lambda>d. d \<noteq> newline) s)
      else if is_space c then
        Some (flushWord word (if c = newline then [TSeparator '';''] else []), [], NoQuote, s)
      else case redirectionAt (c # s) of
        Some (oper, rest) \<Rightarrow> Some (flushWord word [TRedirect oper], [], NoQuote, rest)
      | None \<Rightarrow>
          if take 2 (c # s) \<in> set pair_separators then
            Some (flushWord word [TSeparator (take 2 (c # s))], [], NoQuote, tl s)
          else if c = CHR '';'' \<or> c = CHR ''|'' then
            Some (flushWord word [TSeparator [c]], [], NoQuote, s)
          else if c = CHR ''&'' \<or> c = CHR ''('' \<or> c = CHR '')'' then None
          else Some ([], word @ [c], NoQuote, s))"

definition shell_step ::
    "(string \<Rightarrow> bool) \<Rightarrow> string \<Rightarrow> quote_state \<Rightarrow> char \<Rightarrow> string \<Rightarrow> shell_round option" where
  "shell_step sub word quote c s =
     (if quote = SingleQuote then
        (if c = CHR 0x27 then Some ([], word, NoQuote, s) else Some ([], word @ [c], quote, s))
      else if c = CHR 0x5C then
        (case s of [] \<Rightarrow> None | d # s' \<Rightarrow> Some ([], word @ [d], quote, s'))
      else if c = CHR 0x27 then
        (if quote = DoubleQuote then Some ([], word @ [c], quote, s) else Some ([], word, SingleQuote, s))
      else if c = CHR 0x22 then
        Some ([], word, if quote = DoubleQuote then NoQuote else DoubleQuote, s)
      else if c = CHR ''$'' \<and> starts_with s ''('' then
        substituted sub word quote (commandSubstitution 1 NoQuote (tl s))
      else if c = CHR 0x60 then substituted sub word quote (backtickSubstitution s)
      else if quote = DoubleQuote then Some ([], word @ [c], quote, s)
      else plain_step word c s)"

lemmas scanner_shorter =
  commandSubstitution_shorter backtickSubstitution_shorter redirectionAt_shorter

lemma substituted_shorter:
  "substituted sub word quote found = Some (ts, word', quote', s') \<Longrightarrow> \<exists>body. found = Some (body, s')"
  by (auto simp: substituted_def split: option.splits if_splits)

lemma plain_step_shorter:
  "plain_step word c s = Some (ts, word', quote', s') \<Longrightarrow> length s' \<le> length s"
  unfolding plain_step_def
  by (auto dest!: redirectionAt_shorter simp: length_dropWhile_le split: if_splits option.splits)

lemma if_eq_imp: "(x = r \<longrightarrow> P) \<Longrightarrow> (y = r \<longrightarrow> P) \<Longrightarrow> (if b then x else y) = r \<longrightarrow> P"
  by simp

lemma shell_step_shorter:
  "shell_step sub word quote c s = Some (ts, word', quote', s') \<longrightarrow> length s' \<le> length s"
  unfolding shell_step_def
  by (intro if_eq_imp)
     (auto dest!: substituted_shorter dest: scanner_shorter plain_step_shorter split: list.splits)

function scan_shell ::
    "(string \<Rightarrow> bool) \<Rightarrow> string \<Rightarrow> quote_state \<Rightarrow> string \<Rightarrow> shell_token list option" where
  "scan_shell sub word quote [] = (if quote \<noteq> NoQuote then None else Some (flushWord word []))"
| "scan_shell sub word quote (c # s) =
     (case shell_step sub word quote c s of None \<Rightarrow> None
      | Some (ts, word', quote', s') \<Rightarrow> map_option ((@) ts) (scan_shell sub word' quote' s'))"
  by pat_completeness auto

termination
  by (relation "measure (\<lambda>(_, _, _, s). length s)") (auto dest!: shell_step_shorter [THEN mp])

text \<open>\<open>tokenizeShell\<close>: more than six levels of nesting are refused.\<close>

definition tokenizeShell :: "(string \<Rightarrow> bool) \<Rightarrow> string \<Rightarrow> nat \<Rightarrow> shell_token list option" where
  "tokenizeShell sub source depth = (if depth > 6 then None else scan_shell sub [] NoQuote source)"

section \<open>Options\<close>

text \<open>\<open>args[i] ?? ""\<close>.\<close>

definition arg_at :: "string list \<Rightarrow> nat \<Rightarrow> string" where
  "arg_at args i = (if i < length args then args ! i else [])"

text \<open>\<open>/^long(=|$)/\<close>, and \<open>arg === long || arg.startsWith(long + "=")\<close>, which says the same.\<close>

definition long_option :: "string \<Rightarrow> string \<Rightarrow> bool" where
  "long_option long arg \<longleftrightarrow> arg = long \<or> starts_with arg (long @ ''='')"

definition is_flag :: "string \<Rightarrow> bool" where
  "is_flag arg \<longleftrightarrow> starts_with arg ''-''"

definition optionPresent :: "string list \<Rightarrow> char \<Rightarrow> string \<Rightarrow> bool" where
  "optionPresent args short long \<longleftrightarrow> list_ex (\<lambda>arg. long_option long arg \<or>
     is_flag arg \<and> \<not> starts_with arg ''--'' \<and> short \<in> set (tl arg)) args"

fun unwrapWithOptions :: "string list \<Rightarrow> string list \<Rightarrow> string list option" where
  "unwrapWithOptions [] valued = None"
| "unwrapWithOptions (arg # args) valued =
     (if arg = ''--'' then Some args
      else if \<not> is_flag arg \<or> arg = ''-'' then Some (arg # args)
      else if takeWhile (\<lambda>c. c \<noteq> CHR ''='') arg \<in> set valued \<and> CHR ''='' \<notin> set arg then
        (case args of [] \<Rightarrow> None | _ # rest \<Rightarrow> unwrapWithOptions rest valued)
      else unwrapWithOptions args valued)"

text \<open>What stands behind the first occurrence of a word.\<close>

definition after_word :: "string \<Rightarrow> string list \<Rightarrow> string list" where
  "after_word w ws = tl (dropWhile (\<lambda>x. x \<noteq> w) ws)"

section \<open>Commands with subcommands\<close>

definition systemctl_queries :: "string list" where
  "systemctl_queries = [
    ''status'', ''show'', ''is-active'', ''is-enabled'', ''is-failed'', ''list-units'', ''list-unit-files'', ''list-sockets'',
    ''list-timers'', ''list-dependencies'', ''get-default'', ''get-property'', ''help'', ''cat'']"

definition readOnlySystemctl :: "string list \<Rightarrow> bool" where
  "readOnlySystemctl args \<longleftrightarrow> list_ex (\<lambda>arg. arg \<in> set systemctl_queries) args \<and>
     \<not> list_ex (\<lambda>arg. arg \<in> set [''start'', ''stop'', ''restart'', ''reload'', ''enable'', ''disable'',
        ''mask'', ''unmask'', ''kill'', ''set-'', ''edit'', ''link'', ''revert'', ''daemon-reload'', ''poweroff'',
        ''reboot'', ''suspend'', ''hibernate'', ''rescue'', ''emergency'']) args"

definition kubectl_valued :: "string list" where
  "kubectl_valued = [
    ''-n'', ''--namespace'', ''--context'', ''--cluster'', ''--user'', ''--kubeconfig'', ''--request-timeout'', ''-s'', ''--server'',
    ''--token'', ''--as'', ''--as-group'', ''--cache-dir'', ''--certificate-authority'', ''--client-certificate'', ''--client-key'',
    ''--tls-server-name'', ''-v'', ''--vmodule'']"

definition readOnlyKubectl :: "(string list \<Rightarrow> bool) \<Rightarrow> string list \<Rightarrow> bool" where
  "readOnlyKubectl simple args = (case unwrapWithOptions args kubectl_valued of
     None \<Rightarrow> False
   | Some [] \<Rightarrow> False
   | Some (subcommand # rest) \<Rightarrow>
       if subcommand = [] then False
       else if subcommand = ''exec'' then ''--'' \<in> set rest \<and> simple (after_word ''--'' rest)
       else if subcommand = ''config'' then arg_at rest 0 \<in> set [''current-context'', ''get-contexts'', ''view'']
       else if subcommand = ''auth'' then arg_at rest 0 = ''can-i''
       else if subcommand = ''cluster-info'' then arg_at rest 0 \<noteq> ''dump''
       else subcommand \<in> set [''api-resources'', ''api-versions'', ''describe'', ''diff'', ''events'', ''explain'',
          ''get'', ''logs'', ''options'', ''top'', ''version'', ''wait''])"

definition readOnlyContainerCommand :: "(string list \<Rightarrow> bool) \<Rightarrow> string list \<Rightarrow> bool" where
  "readOnlyContainerCommand simple args = (case find (\<lambda>a. \<not> is_flag a) args of
     None \<Rightarrow> False
   | Some subcommand \<Rightarrow>
       if subcommand = [] then False
       else if subcommand \<in> set [''ps'', ''images'', ''inspect'', ''logs'', ''stats'', ''top'', ''version'', ''info'', ''events'',
          ''diff'', ''history''] then True
       else if subcommand \<in> set [''container'', ''image'', ''network'', ''volume''] then
         (case find (\<lambda>a. \<not> is_flag a) (after_word subcommand args) of
            None \<Rightarrow> False
          | Some action \<Rightarrow> action \<in> set [''ls'', ''inspect'', ''logs'', ''stats'', ''top'', ''diff'', ''history''])
       else if subcommand \<noteq> ''exec'' then False
       else case unwrapWithOptions (after_word ''exec'' args)
           [''-u'', ''--user'', ''-w'', ''--workdir'', ''-e'', ''--env'', ''--env-file''] of
         Some (_ # w # ws) \<Rightarrow> simple (w # ws)
       | _ \<Rightarrow> False)"

definition git_mutating :: "string list" where
  "git_mutating = [''add'', ''am'', ''apply'', ''bisect'', ''branch'', ''checkout'', ''cherry-pick'', ''clean'', ''clone'',
    ''commit'', ''fetch'', ''gc'', ''init'', ''merge'', ''mv'', ''pull'', ''push'', ''rebase'', ''remote'', ''reset'', ''restore'',
    ''revert'', ''rm'', ''stash'', ''switch'', ''tag'', ''worktree'']"

definition git_queries :: "string list" where
  "git_queries = [''annotate'', ''blame'', ''cat-file'', ''count-objects'', ''describe'', ''diff'', ''diff-tree'',
    ''for-each-ref'', ''grep'', ''log'', ''ls-files'', ''ls-remote'', ''ls-tree'', ''merge-base'', ''name-rev'', ''reflog'',
    ''rev-list'', ''rev-parse'', ''shortlog'', ''show'', ''show-ref'', ''status'', ''version'']"

definition readOnlyGit :: "string list \<Rightarrow> bool" where
  "readOnlyGit args =
     (case unwrapWithOptions args [''-C'', ''-c'', ''--git-dir'', ''--work-tree'', ''--namespace'', ''--config-env''] of
        Some (command # _) \<Rightarrow> command \<in> set git_queries \<and> command \<notin> set git_mutating
      | _ \<Rightarrow> False)"

text \<open>\<open>.\<close> in an expression is any character but a line terminator.\<close>

definition line_char :: "char \<Rightarrow> bool" where
  "line_char c \<longleftrightarrow> c \<noteq> newline \<and> c \<noteq> CHR 0x0D"

definition readOnlyCurl :: "string list \<Rightarrow> bool" where
  "readOnlyCurl args \<longleftrightarrow>
     \<not> list_ex (\<lambda>short. optionPresent args short ''--__unused__'') [CHR ''d'', CHR ''F'', CHR ''T'', CHR ''o'', CHR ''O''] \<and>
     \<not> list_ex (\<lambda>arg. list_ex (\<lambda>long. long_option long arg) [''--data'', ''--form'', ''--upload-file'', ''--output'',
         ''--remote-name'', ''--cookie-jar'', ''--netrc-file'', ''--config'']) args \<and>
     (case find_index (\<lambda>arg. arg = ''-X'' \<or> arg = ''--request'') args of
        None \<Rightarrow> True
      | Some i \<Rightarrow> to_lower (arg_at args (i + 1)) \<in> set [''get'', ''head'']) \<and>
     (case find (\<lambda>arg. starts_with arg ''-X'' \<and> length arg > 2 \<and> line_char (arg ! 2) \<or>
                       starts_with arg ''--request='') args of
        None \<Rightarrow> True
      | Some inline \<Rightarrow> to_lower inline \<in> set [''-xget'', ''-xhead'', ''--request=get'', ''--request=head''])"

section \<open>Simple commands\<close>

text \<open>\<open>/^[A-Za-z_][A-Za-z0-9_]*=/\<close>.\<close>

definition is_assignment :: "string \<Rightarrow> bool" where
  "is_assignment w = (case w of [] \<Rightarrow> False
     | c # s \<Rightarrow> (is_alpha c \<or> c = CHR ''_'') \<and> starts_with (dropWhile is_word s) ''='')"

text \<open>
  The two loops over leading assignments: \<open>None\<close> when one of them sets a forbidden
  variable, otherwise the words behind them.
\<close>

fun skip_assignments :: "string list \<Rightarrow> string list option" where
  "skip_assignments [] = Some []"
| "skip_assignments (w # ws) =
     (if is_assignment w then
        (if FORBIDDEN_ASSIGNMENTS (takeWhile (\<lambda>c. c \<noteq> CHR ''='') w) then None else skip_assignments ws)
      else Some (w # ws))"

text \<open>
  The effects the expression for awk programs looks for: at each position, with the
  character before it for the word boundary, one of its five alternatives.
\<close>

definition awk_hit :: "bool \<Rightarrow> string \<Rightarrow> bool" where
  "awk_hit boundary s \<longleftrightarrow>
     starts_with s ''@load'' \<or>
     boundary \<and> starts_with s ''system'' \<and> starts_with (trim_start (drop 6 s)) ''('' \<or>
     boundary \<and> starts_with s ''close'' \<and> starts_with (trim_start (drop 5 s)) ''('' \<or>
     starts_with s ''print'' \<and>
       CHR ''>'' \<in> set (takeWhile (\<lambda>c. c \<notin> set [CHR '';'', CHR ''}'', newline]) (drop 5 s)) \<or>
     (starts_with s ''|'' \<or> starts_with s ''&'') \<and> starts_with (trim_start (tl s)) ''getline'' \<or>
     boundary \<and> starts_with s ''getline'' \<and> starts_with (trim_start (drop 7 s)) ''<''"

fun awk_effect :: "bool \<Rightarrow> string \<Rightarrow> bool" where
  "awk_effect boundary [] = False"
| "awk_effect boundary (c # s) = (awk_hit boundary (c # s) \<or> awk_effect (\<not> is_word c) s)"

definition any_of :: "string list \<Rightarrow> string list \<Rightarrow> bool" where
  "any_of ws args = list_ex (\<lambda>a. a \<in> set ws) args"

definition any_long :: "string list \<Rightarrow> string list \<Rightarrow> bool" where
  "any_long longs args = list_ex (\<lambda>a. list_ex (\<lambda>l. long_option l a) longs) args"

text \<open>The commands judged by their arguments alone, in the order the source asks for them.\<close>

definition plain_command_verdict :: "string \<Rightarrow> string list \<Rightarrow> bool" where
  "plain_command_verdict command args =
    (if command = ''git'' then readOnlyGit args
     else if command = ''systemctl'' then readOnlySystemctl args
     else if command = ''service'' then args \<noteq> [] \<and> last args = ''status''
     else if command = ''journalctl'' then
       \<not> list_ex (\<lambda>a. list_ex (starts_with a) [''--rotate'', ''--sync'', ''--flush'', ''--relinquish-var'', ''--vacuum-'', ''--update-catalog'']) args
     else if command = ''find'' then
       \<not> any_of [''-delete'', ''-exec'', ''-execdir'', ''-ok'', ''-okdir'', ''-fls'', ''-fprint'', ''-fprint0'', ''-fprintf''] args
     else if command = ''rg'' then \<not> any_long [''--pre''] args
     else if command \<in> set [''diff'', ''diff3''] then \<not> any_long [''--output''] args
     else if command = ''sed'' then \<not> optionPresent args (CHR ''i'') ''--in-place''
     else if command = ''sort'' then \<not> optionPresent args (CHR ''o'') ''--output''
     else if command \<in> set [''jq'', ''yq''] then \<not> optionPresent args (CHR ''i'') ''--in-place''
     else if command = ''xxd'' then
       \<not> optionPresent args (CHR ''r'') ''--revert'' \<and> length (filter (\<lambda>a. \<not> is_flag a) args) \<le> 1
     else if command = ''date'' then \<not> optionPresent args (CHR ''s'') ''--set''
     else if command = ''dmesg'' then \<not> optionPresent args (CHR ''c'') ''--clear''
     else if command = ''hostname'' then list_all is_flag args
     else if command = ''hostnamectl'' then args = [] \<or> ''status'' \<in> set args
     else if command = ''mount'' then list_all is_flag args
     else if command = ''ip'' then
       \<not> list_ex (\<lambda>a. to_lower a \<in> set [''add'', ''append'', ''change'', ''delete'', ''del'', ''exec'', ''flush'', ''replace'', ''set'']) args
     else if command = ''curl'' then readOnlyCurl args
     else if command = ''wget'' then
       \<not> any_long [''--post-data'', ''--post-file'', ''--method'', ''--body-data'', ''--body-file''] args \<and>
       (''--spider'' \<in> set args \<or> list_ex (\<lambda>i. args ! i = ''-O'' \<and> arg_at args (i + 1) = ''-'') [0..<length args])
     else if command = ''awk'' then \<not> list_ex (awk_effect True) args
     else if command = ''tar'' then
       \<not> any_long [''--checkpoint-action'', ''--to-command'', ''--use-compress-program''] args \<and>
       optionPresent args (CHR ''t'') ''--list''
     else if command = ''unzip'' then ''-l'' \<in> set args \<or> ''-Z'' \<in> set args
     else False)"

text \<open>
  The body of \<open>isReadOnlySimple\<close> behind its depth guard. \<open>simple\<close> and \<open>shell\<close> are the verdicts
  of the next level.
\<close>

definition shell_script_flag :: "string \<Rightarrow> bool" where
  "shell_script_flag a \<longleftrightarrow> starts_with a ''-'' \<and> list_all is_alpha (tl a) \<and> CHR ''c'' \<in> set (tl a)"

definition nested_verdict ::
    "(string list \<Rightarrow> bool) \<Rightarrow> (string \<Rightarrow> bool) \<Rightarrow> string \<Rightarrow> string list \<Rightarrow> bool" where
  "nested_verdict simple shell command args =
    (if command \<in> set SIMPLE_QUERY_COMMANDS then True
     else if command \<in> set [''test'', ''['', ''[[''] then True
     else if command \<in> set [''cd'', ''pushd'', ''popd''] then length args \<le> 1
     else if command = ''command'' then
       (if arg_at args 0 \<in> set [''-v'', ''-V''] then True
        else case unwrapWithOptions args [] of Some (w # ws) \<Rightarrow> simple (w # ws) | _ \<Rightarrow> False)
     else if command = ''env'' then
       (case unwrapWithOptions args [''-u'', ''--unset'', ''-C'', ''--chdir'', ''-S'', ''--split-string''] of
          None \<Rightarrow> True
        | Some nested \<Rightarrow> (case skip_assignments nested of None \<Rightarrow> False
            | Some ws \<Rightarrow> ws = [] \<or> simple ws))
     else if command \<in> set [''sudo'', ''doas''] then
       (case unwrapWithOptions args [''-u'', ''--user'', ''-g'', ''--group'', ''-h'', ''--host'', ''-p'', ''--prompt'', ''-C'',
           ''--close-from'', ''-R'', ''--chroot'', ''-T'', ''--command-timeout''] of
          Some (w # ws) \<Rightarrow> simple (w # ws) | _ \<Rightarrow> False)
     else if command = ''timeout'' then
       (case unwrapWithOptions args [''-k'', ''--kill-after'', ''-s'', ''--signal''] of
          Some (_ # w # ws) \<Rightarrow> simple (w # ws) | _ \<Rightarrow> False)
     else if command \<in> set [''sh'', ''bash'', ''dash'', ''zsh''] then
       (case find_index shell_script_flag args of None \<Rightarrow> False
        | Some i \<Rightarrow> i + 1 < length args \<and> shell (args ! (i + 1)))
     else if command \<in> set [''kubectl'', ''oc''] then readOnlyKubectl simple args
     else if command \<in> set [''docker'', ''podman''] then readOnlyContainerCommand simple args
     else plain_command_verdict command args)"

definition simple_verdict :: "(string list \<Rightarrow> bool) \<Rightarrow> (string \<Rightarrow> bool) \<Rightarrow> string list \<Rightarrow> bool" where
  "simple_verdict simple shell words =
     (case skip_assignments (dropWhile (\<lambda>w. w = ''!'') words) of
        None \<Rightarrow> False
      | Some [] \<Rightarrow> True
      | Some (w # args) \<Rightarrow>
          (case basename w of None \<Rightarrow> False
           | Some c \<Rightarrow> c \<noteq> [] \<and> nested_verdict simple shell (to_lower c) args))"

section \<open>Scripts\<close>

text \<open>
  The loop of \<open>isReadOnlyShell\<close> over the tokens: the words of the simple command collected so
  far. A redirection is followed by its target unless it duplicates a descriptor
  (\<open>/&(\d+|-)$/\<close>).
\<close>

definition duplicates_descriptor :: "string \<Rightarrow> bool" where
  "duplicates_descriptor oper \<longleftrightarrow> ends_with oper ''&-'' \<or>
     (let r = rev oper in takeWhile is_digit r \<noteq> [] \<and> starts_with (dropWhile is_digit r) ''&'')"

fun judge_tokens :: "(string list \<Rightarrow> bool) \<Rightarrow> string list \<Rightarrow> shell_token list \<Rightarrow> bool" where
  "judge_tokens simple words [] = (words \<noteq> [] \<and> simple words)"
| "judge_tokens simple words (TSeparator v # ts) =
     (words \<noteq> [] \<and> simple words \<and> judge_tokens simple [] ts)"
| "judge_tokens simple words (TRedirect oper # ts) =
     (if contains_text oper ''<<'' \<or> contains_text oper ''<>'' then False
      else if duplicates_descriptor oper then judge_tokens simple words ts
      else case ts of
        TWord target # ts' \<Rightarrow>
          (if CHR ''>'' \<in> set oper \<and> target \<notin> set SAFE_REDIRECT_TARGETS then False
           else judge_tokens simple words ts')
      | _ \<Rightarrow> False)"
| "judge_tokens simple words (TWord v # ts) = judge_tokens simple (words @ [v]) ts"

declare conj_cong [fundef_cong]

function isReadOnlySimple :: "string list \<Rightarrow> nat \<Rightarrow> bool"
  and isReadOnlyShell :: "string \<Rightarrow> nat \<Rightarrow> bool" where
  "isReadOnlySimple words depth =
     (if depth > 6 then False
      else simple_verdict (\<lambda>ws. isReadOnlySimple ws (depth + 1)) (\<lambda>s. isReadOnlyShell s (depth + 1)) words)"
| "isReadOnlyShell source depth =
     (case tokenizeShell (\<lambda>s. depth \<le> 6 \<and> isReadOnlyShell s (depth + 1)) source depth of
        None \<Rightarrow> False
      | Some [] \<Rightarrow> False
      | Some (t # ts) \<Rightarrow> judge_tokens (\<lambda>ws. isReadOnlySimple ws depth) [] (t # ts))"
  by pat_completeness auto

termination
  by (relation "measure (\<lambda>x. case x of Inl (_, d) \<Rightarrow> 2 * (7 - d) | Inr (_, d) \<Rightarrow> 2 * (7 - d) + 1)") auto

definition sshCommandRiskLevel :: "string \<Rightarrow> risk_level" where
  "sshCommandRiskLevel command = (if isReadOnlyShell command 0 then Low else High)"

declare isReadOnlySimple.simps [simp del] isReadOnlyShell.simps [simp del]

section \<open>The verdict grows stricter with depth\<close>

text \<open>Every definition above uses the verdicts of the next level positively.\<close>

lemma substituted_mono:
  "(\<And>x. sub x \<Longrightarrow> sub' x) \<Longrightarrow> substituted sub word quote found = Some r \<Longrightarrow>
     substituted sub' word quote found = Some r"
  by (auto simp: substituted_def split: option.splits if_splits)

lemma if_eq_mono: "(x = r \<longrightarrow> x' = r') \<Longrightarrow> (y = r \<longrightarrow> y' = r') \<Longrightarrow>
    (if b then x else y) = r \<longrightarrow> (if b then x' else y') = r'"
  by simp

lemma shell_step_mono:
  "(\<And>x. sub x \<Longrightarrow> sub' x) \<Longrightarrow> shell_step sub word quote c s = Some r \<longrightarrow> shell_step sub' word quote c s = Some r"
  unfolding shell_step_def by (intro if_eq_mono) (auto intro: substituted_mono)

lemma scan_shell_mono:
  "(\<And>x. sub x \<Longrightarrow> sub' x) \<Longrightarrow> scan_shell sub word quote s = Some ts \<Longrightarrow> scan_shell sub' word quote s = Some ts"
proof (induction sub word quote s arbitrary: ts rule: scan_shell.induct)
  case (2 sub word quote c s)
  then obtain us w q r vs where step: "shell_step sub word quote c s = Some (us, w, q, r)"
    and scan: "scan_shell sub w q r = Some vs" and ts: "ts = us @ vs"
    by (auto split: option.splits)
  show ?case
    using shell_step_mono [of sub sub', THEN mp, OF _ step] "2.prems"(1) "2.IH" [OF step refl refl refl "2.prems"(1) scan] ts by simp
qed simp

lemma judge_tokens_mono:
  "(\<And>ws. simple ws \<Longrightarrow> simple' ws) \<Longrightarrow> judge_tokens simple words ts \<Longrightarrow> judge_tokens simple' words ts"
  by (induction simple words ts rule: judge_tokens.induct)
     (auto split: if_splits list.splits shell_token.splits)

lemma if_mono: "(x \<longrightarrow> x') \<Longrightarrow> (y \<longrightarrow> y') \<Longrightarrow> (if b then x else y) \<longrightarrow> (if b then x' else y')"
  by simp

lemma case_option_mono:
  "(x \<longrightarrow> x') \<Longrightarrow> (\<And>z. f z \<longrightarrow> f' z) \<Longrightarrow>
     (case v of None \<Rightarrow> x | Some z \<Rightarrow> f z) \<longrightarrow> (case v of None \<Rightarrow> x' | Some z \<Rightarrow> f' z)"
  by (cases v) auto

lemma case_list_mono:
  "(x \<longrightarrow> x') \<Longrightarrow> (\<And>z zs. f z zs \<longrightarrow> f' z zs) \<Longrightarrow>
     (case v of [] \<Rightarrow> x | z # zs \<Rightarrow> f z zs) \<longrightarrow> (case v of [] \<Rightarrow> x' | z # zs \<Rightarrow> f' z zs)"
  by (cases v) auto

lemmas verdict_mono = if_mono case_option_mono case_list_mono conj_mono disj_mono

lemma readOnlyKubectl_mono:
  "(\<And>ws. simple ws \<longrightarrow> simple' ws) \<Longrightarrow> readOnlyKubectl simple args \<longrightarrow> readOnlyKubectl simple' args"
  unfolding readOnlyKubectl_def by (intro verdict_mono; blast)

lemma readOnlyContainerCommand_mono:
  "(\<And>ws. simple ws \<longrightarrow> simple' ws) \<Longrightarrow>
     readOnlyContainerCommand simple args \<longrightarrow> readOnlyContainerCommand simple' args"
  unfolding readOnlyContainerCommand_def by (intro verdict_mono; blast)

lemma nested_verdict_mono:
  "(\<And>ws. simple ws \<longrightarrow> simple' ws) \<Longrightarrow> (\<And>s. shell s \<longrightarrow> shell' s) \<Longrightarrow>
     nested_verdict simple shell command args \<longrightarrow> nested_verdict simple' shell' command args"
  unfolding nested_verdict_def
  by (intro verdict_mono readOnlyKubectl_mono readOnlyContainerCommand_mono; blast)

lemma simple_verdict_mono:
  "(\<And>ws. simple ws \<longrightarrow> simple' ws) \<Longrightarrow> (\<And>s. shell s \<longrightarrow> shell' s) \<Longrightarrow>
     simple_verdict simple shell words \<longrightarrow> simple_verdict simple' shell' words"
  unfolding simple_verdict_def by (intro verdict_mono nested_verdict_mono; blast)

lemma deeper_is_stricter:
  "isReadOnlySimple words (Suc depth) \<longrightarrow> isReadOnlySimple words depth"
  "isReadOnlyShell source (Suc depth) \<longrightarrow> isReadOnlyShell source depth"
proof (induction words depth and source depth rule: isReadOnlySimple_isReadOnlyShell.induct)
  case (1 words depth)
  show ?case
  proof
    assume deep: "isReadOnlySimple words (Suc depth)"
    then have d: "\<not> depth > 6" by (simp add: isReadOnlySimple.simps [of _ "Suc depth"] split: if_splits)
    show "isReadOnlySimple words depth"
      using deep d simple_verdict_mono [OF "1.IH"(1) "1.IH"(2), OF d d]
      by (simp add: isReadOnlySimple.simps [of words "Suc depth"] isReadOnlySimple.simps [of words depth]
          split: if_splits)
  qed
next
  case (2 source depth)
  show ?case
  proof
    assume deep: "isReadOnlyShell source (Suc depth)"
    then obtain t ts where
      d: "depth < 6" and
      tok: "scan_shell (\<lambda>s. Suc depth \<le> 6 \<and> isReadOnlyShell s (Suc depth + 1)) [] NoQuote source = Some (t # ts)" and
      judge: "judge_tokens (\<lambda>ws. isReadOnlySimple ws (Suc depth)) [] (t # ts)"
      by (subst (asm) isReadOnlyShell.simps) (auto simp: tokenizeShell_def split: option.splits list.splits if_splits)
    have tok': "tokenizeShell (\<lambda>s. depth \<le> 6 \<and> isReadOnlyShell s (depth + 1)) source depth = Some (t # ts)"
      unfolding tokenizeShell_def using d "2.IH"(1) by (auto intro: scan_shell_mono [OF _ tok])
    moreover have "judge_tokens (\<lambda>ws. isReadOnlySimple ws depth) [] (t # ts)"
      by (rule judge_tokens_mono [OF _ judge]) (use "2.IH"(2) [OF tok' refl] in blast)
    ultimately show "isReadOnlyShell source depth"
      by (simp add: isReadOnlyShell.simps [of source depth])
  qed
qed

section \<open>Scripts are judged line by line\<close>

lemma starts_with_newline:
  "newline \<notin> set p \<Longrightarrow> starts_with (x @ newline # t) p = starts_with x p"
proof (induction p arbitrary: x)
  case (Cons d p)
  then show ?case
    by (cases x) (auto simp: starts_with_def)
qed simp

lemma digit_not_newline [simp]: "\<not> is_digit newline"
  by (simp add: is_digit_def newline_def)

lemma takeWhile_digit_newline [simp]: "takeWhile is_digit (x @ newline # t) = takeWhile is_digit x"
  by (induction x) auto

lemma dropWhile_digit_newline [simp]:
  "dropWhile is_digit (x @ newline # t) = dropWhile is_digit x @ newline # t"
  by (induction x) auto

lemma redirect_operator_newline [simp]:
  "redirect_operator (x @ newline # t) = redirect_operator x"
proof -
  have any: "\<forall>p \<in> set ps. newline \<notin> set p \<Longrightarrow>
      find (starts_with (x @ newline # t)) ps = find (starts_with x) ps" for ps
    by (induction ps) (auto simp: starts_with_newline)
  show ?thesis unfolding redirect_operator_def by (rule any) (simp add: newline_def)
qed

lemma descriptor_suffix_newline [simp]:
  "descriptor_suffix (x @ newline # t) = descriptor_suffix x"
proof -
  have amp: "starts_with (x @ newline # t) ''&'' = starts_with x ''&''"
    and dash: "starts_with (y @ newline # t) ''-'' = starts_with y ''-''" for y
    by (rule starts_with_newline, simp add: newline_def)+
  show ?thesis
  proof (cases x)
    case (Cons c s)
    then show ?thesis
      using amp by (simp add: descriptor_suffix_def dash Let_def)
  qed (simp add: descriptor_suffix_def starts_with_def newline_def)
qed

lemma length_redirect_operator: "redirect_operator x = Some oper \<Longrightarrow> length oper \<le> length x"
  using redirect_operator_in by (fastforce simp: starts_with_iff)

lemma length_descriptor_suffix: "length (descriptor_suffix x) \<le> length x"
proof (cases x)
  case (Cons c s)
  then show ?thesis
    using length_takeWhile_le [of is_digit s]
    by (cases s) (auto simp: descriptor_suffix_def starts_with_def Let_def)
qed (simp add: descriptor_suffix_def starts_with_def)

lemma redirectionAt_newline:
  "redirectionAt (x @ newline # t) =
     map_option (\<lambda>(oper, rest). (oper, rest @ newline # t)) (redirectionAt x)"
proof -
  have "starts_with (x @ newline # t) ''&>>'' = starts_with x ''&>>''"
    "starts_with (x @ newline # t) ''&>'' = starts_with x ''&>''"
    by (rule starts_with_newline, simp add: newline_def)+
  moreover have "drop (length (descriptor_suffix (drop n y)) + n - length y) (newline # t) = newline # t"
    if "n \<le> length y" for n y
    using length_descriptor_suffix [of "drop n y"] that by simp
  ultimately show ?thesis
    using length_redirect_operator
    by (auto simp: redirectionAt_def Let_def starts_with_iff split: option.splits)
qed

lemma map_option_pair:
  "(\<And>q. r = Some q \<longrightarrow> r' = Some (fst q, snd q @ t)) \<Longrightarrow>
     map_option (\<lambda>(body, rest). (f body, rest)) r = Some p \<longrightarrow>
     map_option (\<lambda>(body, rest). (f body, rest)) r' = Some (fst p, snd p @ t)"
  by (cases r) auto

lemma case_map_option_mono:
  "(x = r \<longrightarrow> x' = r') \<Longrightarrow> (\<And>z. f z = r \<longrightarrow> f' (g z) = r') \<Longrightarrow>
     (case v of None \<Rightarrow> x | Some z \<Rightarrow> f z) = r \<longrightarrow>
     (case map_option g v of None \<Rightarrow> x' | Some z \<Rightarrow> f' z) = r'"
  by (cases v) auto

lemma case_rest_append:
  "(\<And>d s'. s = d # s' \<Longrightarrow> g d s' = Some p \<longrightarrow> g d (s' @ t) = r') \<Longrightarrow>
     (case s of [] \<Rightarrow> None | d # s' \<Rightarrow> g d s') = Some p \<longrightarrow> (case s @ t of [] \<Rightarrow> None | d # s' \<Rightarrow> g d s') = r'"
  by (cases s) auto

lemma commandSubstitution_append:
  "commandSubstitution depth quote s = Some p \<longrightarrow>
     commandSubstitution depth quote (s @ t) = Some (fst p, snd p @ t)"
proof (induction s arbitrary: depth quote p rule: length_induct)
  case (1 s)
  show ?case
  proof (cases s)
    case (Cons c s1)
    have IH: "commandSubstitution d q s' = Some p \<longrightarrow> commandSubstitution d q (s' @ t) = Some (fst p, snd p @ t)"
      if "length s' \<le> length s1" for d q s' p
      using 1 Cons that by simp
    show ?thesis
      unfolding Cons append_Cons commandSubstitution.simps Let_def
      by (intro if_eq_mono map_option_pair case_rest_append IH) auto
  qed simp
qed

lemma backtickSubstitution_append:
  "backtickSubstitution s = Some p \<longrightarrow> backtickSubstitution (s @ t) = Some (fst p, snd p @ t)"
proof (induction s arbitrary: p rule: length_induct)
  case (1 s)
  show ?case
  proof (cases s)
    case (Cons c s1)
    have IH: "backtickSubstitution s' = Some p \<longrightarrow> backtickSubstitution (s' @ t) = Some (fst p, snd p @ t)"
      if "length s' \<le> length s1" for s' p
      using 1 Cons that by simp
    show ?thesis
      unfolding Cons append_Cons backtickSubstitution.simps
      by (intro if_eq_mono map_option_pair case_rest_append IH) auto
  qed simp
qed

lemma comment_newline:
  "dropWhile (\<lambda>d. d \<noteq> newline) (s @ newline # t) = dropWhile (\<lambda>d. d \<noteq> newline) s @ newline # t"
  by (induction s) auto

lemma substituted_append:
  "(\<And>q. found = Some q \<longrightarrow> found' = Some (fst q, snd q @ t)) \<Longrightarrow>
     substituted sub word quote found = Some (ts, w, q, r) \<longrightarrow>
     substituted sub word quote found' = Some (ts, w, q, r @ t)"
  by (cases found) (auto simp: substituted_def)

lemma plain_step_newline:
  "plain_step word c s = Some (ts, w, q, r) \<longrightarrow>
     plain_step word c (s @ newline # t) = Some (ts, w, q, r @ newline # t)"
proof -
  have red: "redirectionAt (c # s @ newline # t) =
      map_option (\<lambda>(oper, rest). (oper, rest @ newline # t)) (redirectionAt (c # s))"
    using redirectionAt_newline [of "c # s" t] by simp
  have pair: "take 2 (c # s @ newline # t) \<in> set pair_separators \<longleftrightarrow> take 2 (c # s) \<in> set pair_separators"
    by (cases s) (auto simp: pair_separators_def newline_def)
  have pairs: "(if take 2 (c # s) \<in> set pair_separators then x else y) = Some (ts, w, q, r) \<longrightarrow>
      (if take 2 (c # s) \<in> set pair_separators then x' else y') = Some (ts, w, q, r @ newline # t)"
    if "s \<noteq> [] \<Longrightarrow> x = Some (ts, w, q, r) \<longrightarrow> x' = Some (ts, w, q, r @ newline # t)"
      "y = Some (ts, w, q, r) \<longrightarrow> y' = Some (ts, w, q, r @ newline # t)" for x y x' y'
    using that by (cases s) (auto simp: pair_separators_def)
  show ?thesis
    unfolding plain_step_def red pair
    by (intro pairs case_map_option_mono if_eq_mono) (auto simp: comment_newline neq_Nil_conv)
qed

lemma shell_step_newline:
  "shell_step sub word quote c s = Some (ts, w, q, r) \<longrightarrow>
     shell_step sub word quote c (s @ newline # t) = Some (ts, w, q, r @ newline # t)"
proof -
  have paren: "starts_with (s @ newline # t) ''('' = starts_with s ''(''"
    by (rule starts_with_newline) (simp add: newline_def)
  have tail: "starts_with s ''('' \<Longrightarrow> tl (s @ newline # t) = tl s @ newline # t"
    by (cases s) (auto simp: starts_with_def)
  show ?thesis
  proof (cases "starts_with s ''(''")
    case True
    show ?thesis
      unfolding shell_step_def paren tail [OF True]
      by (intro if_eq_mono case_rest_append substituted_append plain_step_newline
          commandSubstitution_append backtickSubstitution_append) simp_all
  next
    case False
    then show ?thesis
      unfolding shell_step_def paren
      by (simp only: simp_thms if_False)
        (intro if_eq_mono case_rest_append substituted_append plain_step_newline
          backtickSubstitution_append; simp)
  qed
qed

lemma shell_step_at_newline: "shell_step sub word NoQuote newline b = Some (flushWord word [TSeparator '';''], [], NoQuote, b)"
  by (simp add: shell_step_def plain_step_def) (simp add: newline_def)

lemma flushWord_snoc: "flushWord word ts = flushWord word [] @ ts"
  by (simp add: flushWord_def)

lemma scan_shell_newline:
  "scan_shell sub word quote a = Some ts \<Longrightarrow>
     scan_shell sub word quote (a @ newline # b) =
       map_option (\<lambda>us. ts @ TSeparator '';'' # us) (scan_shell sub [] NoQuote b)"
proof (induction sub word quote a arbitrary: ts rule: scan_shell.induct)
  case (1 sub word quote)
  then have q: "quote = NoQuote" "ts = flushWord word []"
    by (auto split: if_splits)
  have "scan_shell sub word NoQuote (newline # b) =
      map_option ((@) (flushWord word [TSeparator '';''])) (scan_shell sub [] NoQuote b)"
    by (simp add: shell_step_at_newline)
  then show ?case
    unfolding q flushWord_snoc [of word "[TSeparator '';'']"]
    by (cases "scan_shell sub [] NoQuote b") auto
next
  case (2 sub word quote c s)
  then obtain us w q r vs where step: "shell_step sub word quote c s = Some (us, w, q, r)"
    and scan: "scan_shell sub w q r = Some vs" and ts: "ts = us @ vs"
    by (auto split: option.splits)
  show ?case
    using shell_step_newline [THEN mp, OF step, of b] "2.IH" [OF step refl refl refl scan] ts
    by (simp add: option.map_comp comp_def)
qed

lemma judge_tokens_separator:
  "judge_tokens simple words (ts @ TSeparator v # us) \<longleftrightarrow>
     judge_tokens simple words ts \<and> judge_tokens simple [] us"
proof (induction simple words ts rule: judge_tokens.induct)
  case (3 simple words oper ts)
  then show ?case
    by (cases ts) (auto split: shell_token.splits)
qed auto

lemma isReadOnlyShell_Some:
  "isReadOnlyShell source depth \<longleftrightarrow> depth \<le> 6 \<and>
     (\<exists>ts. scan_shell (\<lambda>s. depth \<le> 6 \<and> isReadOnlyShell s (depth + 1)) [] NoQuote source = Some ts \<and> ts \<noteq> [] \<and>
        judge_tokens (\<lambda>ws. isReadOnlySimple ws depth) [] ts)"
  by (subst isReadOnlyShell.simps) (auto simp: tokenizeShell_def neq_Nil_conv split: option.splits list.splits)

lemma judge_tokens_Nil [simp]: "\<not> judge_tokens simple [] []"
  by simp

text \<open>C21: A script is judged line by line: behind a line of low risk the verdict is that of the lines
  that follow, whatever they are (a quote, a comment, a substitution or a redirection of the
  first line never reaches into the next).\<close>

theorem script_judged_line_by_line:
  "isReadOnlyShell first depth \<Longrightarrow>
     isReadOnlyShell (first @ newline # rest) depth = isReadOnlyShell rest depth"
proof -
  assume "isReadOnlyShell first depth"
  then obtain ts where d: "depth \<le> 6"
    and scan: "scan_shell (\<lambda>s. depth \<le> 6 \<and> isReadOnlyShell s (depth + 1)) [] NoQuote first = Some ts"
    and judge: "judge_tokens (\<lambda>ws. isReadOnlySimple ws depth) [] ts"
    unfolding isReadOnlyShell_Some [of first] by blast
  show ?thesis
    unfolding isReadOnlyShell_Some [of "first @ newline # rest"] isReadOnlyShell_Some [of rest]
      scan_shell_newline [OF scan]
    by (auto simp: judge_tokens_separator judge)
qed


section \<open>What a low verdict guarantees\<close>

text \<open>
  Every output redirection duplicates a descriptor or goes to one of the safe targets, and
  there is no here-document and no read-write redirection.
\<close>

definition harmless_redirect :: "shell_token list \<Rightarrow> nat \<Rightarrow> bool" where
  "harmless_redirect ts i = (case ts ! i of
     TRedirect oper \<Rightarrow> \<not> contains_text oper ''<<'' \<and> \<not> contains_text oper ''<>'' \<and>
       (duplicates_descriptor oper \<or> CHR ''>'' \<notin> set oper \<or>
        (Suc i < length ts \<and> (\<exists>t \<in> set SAFE_REDIRECT_TARGETS. ts ! Suc i = TWord t)))
   | _ \<Rightarrow> True)"

lemma harmless_redirect_Cons [simp]: "harmless_redirect (t # ts) (Suc i) = harmless_redirect ts i"
  by (simp add: harmless_redirect_def split: shell_token.split)

lemma harmless_redirect_other [simp]:
  "harmless_redirect (TWord w # ts) 0" "harmless_redirect (TSeparator w # ts) 0"
  by (simp_all add: harmless_redirect_def)

lemma judge_tokens_harmless:
  "judge_tokens simple words ts \<Longrightarrow> i < length ts \<Longrightarrow> harmless_redirect ts i"
proof (induction simple words ts arbitrary: i rule: judge_tokens.induct)
  case (3 simple words oper ts)
  show ?case
  proof (cases i)
    case 0
    with 3 show ?thesis
      by (auto simp: harmless_redirect_def split: if_splits list.splits shell_token.splits)
  next
    case (Suc j)
    show ?thesis
    proof (cases "duplicates_descriptor oper")
      case True
      with 3 Suc show ?thesis by (auto split: if_splits)
    next
      case False
      with "3.prems" obtain t ts' where ts: "ts = TWord t # ts'" and ok: "judge_tokens simple words ts'"
        by (auto split: if_splits list.splits shell_token.splits)
      show ?thesis
      proof (cases j)
        case 0
        with Suc ts show ?thesis by (simp add: harmless_redirect_def)
      next
        case (Suc k)
        have "harmless_redirect ts' k"
          using 3 False ts ok Suc \<open>i = Suc j\<close> by (auto split: if_splits)
        with Suc \<open>i = Suc j\<close> ts show ?thesis by simp
      qed
    qed
  qed
next
  case (2 simple words v ts)
  then show ?case by (cases i) auto
next
  case (4 simple words v ts)
  then show ?case by (cases i) auto
qed simp



section \<open>Samples\<close>

lemma script_judged_line_by_line_witness:
  "isReadOnlyShell ''ls -la > /dev/null'' 0 \<and> \<not> isReadOnlyShell (''ls -la > /dev/null'' @ newline # ''rm x'') 0"
proof -
  have low: "isReadOnlyShell ''ls -la > /dev/null'' 0" by code_simp
  have "\<not> isReadOnlyShell ''rm x'' 0" by code_simp
  then show ?thesis
    unfolding script_judged_line_by_line [OF low, of "''rm x''"] using low by blast
qed



end
