(* ===== verification/Lifecycle.thy ===== *)
theory Lifecycle
  imports Main
begin

text \<open>
  The contract of a record with a status: every operation that touches the record leaves
  the status alone or moves it forward along a rank, and the rank is bounded. Operations,
  queries and tasks of the monitor all promise it. What follows for every run of the
  record's operations is proved once: the status never comes back to a value it has left,
  a status of the final rank is never left, and a run changes the status at most
  as often as there are ranks.

  An extension says that a part of the record is frozen once the final rank is reached.
\<close>

locale lifecycle =
  fixes step :: "'s \<Rightarrow> 's \<Rightarrow> bool"
    and status_of :: "'s \<Rightarrow> 'q"
    and rank :: "'q \<Rightarrow> nat"
    and final :: nat
  assumes forward: "step s s' \<Longrightarrow> status_of s' = status_of s \<or> rank (status_of s) < rank (status_of s')"
    and bounded: "rank q \<le> final"
begin

lemma rank_mono: "step\<^sup>*\<^sup>* s s' \<Longrightarrow> status_of s' = status_of s \<or> rank (status_of s) < rank (status_of s')"
proof (induction rule: rtranclp_induct)
  case (step s' s'')
  then show ?case using forward [OF step.hyps(2)] by auto
qed simp

lemma settled:
  "step\<^sup>*\<^sup>* s s' \<Longrightarrow> rank (status_of s) = final \<Longrightarrow> status_of s' = status_of s"
  using rank_mono bounded [of "status_of s'"] by fastforce

lemma no_return:
  "step\<^sup>*\<^sup>* s s' \<Longrightarrow> step\<^sup>*\<^sup>* s' s'' \<Longrightarrow> status_of s'' = status_of s \<Longrightarrow> status_of s' = status_of s"
  using rank_mono [of s s'] rank_mono [of s' s''] by auto

text \<open>The number of changes of status along a list of states.\<close>

fun changes :: "'s list \<Rightarrow> nat" where
  "changes (s # s' # ss) = (if status_of s' = status_of s then 0 else 1) + changes (s' # ss)"
| "changes _ = 0"

lemma changes_bounded:
  "(\<forall>i. Suc i < length ss \<longrightarrow> step (ss ! i) (ss ! Suc i)) \<Longrightarrow> ss \<noteq> [] \<Longrightarrow>
     rank (status_of (hd ss)) + changes ss \<le> final"
proof (induction ss rule: changes.induct)
  case (1 s s' ss)
  have "step s s'" using "1.prems"(1) by force
  moreover have "\<forall>i. Suc i < length (s' # ss) \<longrightarrow> step ((s' # ss) ! i) ((s' # ss) ! Suc i)"
    using "1.prems"(1) by fastforce
  ultimately show ?case
    using "1.IH" forward [of s s'] by fastforce
qed (simp_all add: bounded)

end

locale frozen_lifecycle = lifecycle step status_of rank final
  for step :: "'s \<Rightarrow> 's \<Rightarrow> bool"
    and status_of :: "'s \<Rightarrow> 'q"
    and rank :: "'q \<Rightarrow> nat"
    and final :: nat +
  fixes part :: "'s \<Rightarrow> 'p"
  assumes frozen: "step s s' \<Longrightarrow> rank (status_of s) = final \<Longrightarrow> part s' = part s"
begin

lemma part_frozen:
  "step\<^sup>*\<^sup>* s s' \<Longrightarrow> rank (status_of s) = final \<Longrightarrow> part s' = part s"
proof (induction rule: rtranclp_induct)
  case (step s' s'')
  then have "rank (status_of s') = final" using settled by metis
  then show ?case using frozen [OF step.hyps(2)] step.IH step.prems by simp
qed simp

end

end
