(* ===== verification/AccessControl.thy ===== *)
theory AccessControl
  imports Prelude
begin

text \<open>
  Who may reach what in a workspace of the monitor
  (\<open>IM-ops/viron/src/server/access-control.ts\<close>). The tables the code queries are lists of
  rows, and each of its \<open>SELECT\<close> statements is the filter its \<open>WHERE\<close> clause states;
  \<open>get\<close> is the first row. A \<open>Set\<close> is a set.
\<close>

section \<open>Data\<close>

datatype workspace_type = Personal | Organization

datatype workspace_role = Owner | Admin | Member

record workspace_context =
  w_type :: workspace_type
  w_id :: string
  w_role :: workspace_role

record auth_user =
  u_id :: string
  workspace :: workspace_context

record workspace_access =
  canManage :: bool
  environmentGroupIds :: "string set"
  environmentIds :: "string set"
  sshConnectionIds :: "string set"
  databaseConnectionIds :: "string set"
  redisConnectionIds :: "string set"

record grant_row =
  g_organization :: string
  g_toProject :: bool
  g_grantee :: string
  g_resourceType :: string
  g_resource :: string

record project_row =
  p_id :: string
  p_organization :: string
  p_parent :: "string option"

record owned_row =
  o_id :: string
  o_type :: workspace_type
  o_workspace :: string

record environment_row = owned_row +
  o_group :: "string option"

record database_row = owned_row +
  o_profileParent :: "string option"

record tables =
  resource_grants :: "grant_row list"
  projects :: "project_row list"
  project_members :: "(string \<times> string) list"
  environment_groups :: "owned_row list"
  environments :: "environment_row list"
  ssh_connections :: "owned_row list"
  database_connections :: "database_row list"
  redis_connections :: "owned_row list"
  ssh_environments :: "(string \<times> string) list"
  database_environments :: "(string \<times> string) list"
  redis_environments :: "(string \<times> string) list"
  web_credentials :: "(string \<times> string) list"
  web_entries :: "(string \<times> string) list"
  environment_logs :: "(string \<times> string) list"

definition canManageWorkspace :: "auth_user option \<Rightarrow> bool" where
  "canManageWorkspace admin = (case admin of None \<Rightarrow> False
     | Some u \<Rightarrow> w_role (workspace u) = Owner \<or> w_role (workspace u) = Admin)"

definition workspaceParams :: "auth_user \<Rightarrow> workspace_type \<times> string" where
  "workspaceParams u = (w_type (workspace u), w_id (workspace u))"

definition workspaceWhere :: "string \<Rightarrow> string" where
  "workspaceWhere alias = (let prefix = (if alias \<noteq> '''' then alias @ ''.'' else '''') in
     prefix @ ''workspace_type = ? AND '' @ prefix @ ''workspace_id = ?'')"

section \<open>Projects a member belongs to\<close>

text \<open>The map of the projects by id: the last row of an id wins.\<close>

definition projectById :: "project_row list \<Rightarrow> string \<Rightarrow> project_row option" where
  "projectById ps = map_of (rev (map (\<lambda>p. (p_id p, p)) ps))"

lemma projectById_Some: "projectById ps i = Some p \<Longrightarrow> p \<in> set ps \<and> p_id p = i"
  by (auto simp: projectById_def dest!: map_of_SomeD)

text \<open>\<open>current.parent_id ? projectById.get(current.parent_id) : undefined\<close>.\<close>

definition parent_of :: "project_row list \<Rightarrow> project_row \<Rightarrow> project_row option" where
  "parent_of ps p = (case p_parent p of None \<Rightarrow> None
     | Some i \<Rightarrow> if i = '''' then None else projectById ps i)"

lemma parent_of_in: "parent_of ps p = Some q \<Longrightarrow> q \<in> set ps"
  by (auto simp: parent_of_def projectById_Some split: option.splits if_splits)

definition left_to_climb :: "project_row list \<times> string set \<times> project_row option \<Rightarrow> nat" where
  "left_to_climb = (\<lambda>(ps, granted, current).
     card ((p_id ` set ps \<union> p_id ` set_option current) - granted))"

text \<open>The inner loop: up the parents until there is none or one that was seen.\<close>

function climb :: "project_row list \<Rightarrow> string set \<Rightarrow> project_row option \<Rightarrow> string set" where
  "climb ps granted current =
     (case current of None \<Rightarrow> granted
      | Some p \<Rightarrow> if p_id p \<in> granted then granted
          else climb ps (insert (p_id p) granted) (parent_of ps p))"
  by pat_completeness auto

termination
proof (relation "measure left_to_climb")
  fix ps :: "project_row list" and granted current and p :: project_row
  assume cur: "current = Some p" "p_id p \<notin> granted"
  let ?new = "(p_id ` set ps \<union> p_id ` set_option (parent_of ps p)) - insert (p_id p) granted"
  let ?old = "(p_id ` set ps \<union> p_id ` set_option current) - granted"
  have "?new \<subseteq> ?old"
    using parent_of_in [of ps p] by (cases "parent_of ps p") auto
  moreover have "p_id p \<in> ?old" "p_id p \<notin> ?new" using cur by auto
  ultimately have "?new \<subset> ?old" by blast
  then have "card ?new < card ?old" by (rule psubset_card_mono [rotated]) auto
  then show "((ps, insert (p_id p) granted, parent_of ps p), ps, granted, current) \<in> measure left_to_climb"
    by (simp add: left_to_climb_def)
qed simp

declare climb.simps [simp del]

definition member_project :: "tables \<Rightarrow> auth_user \<Rightarrow> project_row \<Rightarrow> bool" where
  "member_project db user p \<longleftrightarrow> (p_id p, u_id user) \<in> set (project_members db)"

definition workspace_projects :: "tables \<Rightarrow> auth_user \<Rightarrow> project_row list" where
  "workspace_projects db user = filter (\<lambda>p. p_organization p = w_id (workspace user)) (projects db)"

definition grantedProjectIds :: "tables \<Rightarrow> auth_user \<Rightarrow> string set" where
  "grantedProjectIds db user = (let ps = workspace_projects db user in
     fold (\<lambda>p granted. climb ps granted (Some p)) (filter (member_project db user) ps) {})"

section \<open>Access of a workspace\<close>

definition rows_of :: "(string \<times> string) list \<Rightarrow> string set \<Rightarrow> string set" where
  "rows_of links envs = set (map fst (filter (\<lambda>l. snd l \<in> envs) links))"

definition granted_of :: "grant_row list \<Rightarrow> string \<Rightarrow> string set" where
  "granted_of grants t = set (map g_resource (filter (\<lambda>g. g_resourceType g = t) grants))"

definition workspace_grants :: "tables \<Rightarrow> auth_user \<Rightarrow> grant_row list" where
  "workspace_grants db user = (let inOrg = filter (\<lambda>g. g_organization g = w_id (workspace user)) (resource_grants db) in
     filter (\<lambda>g. \<not> g_toProject g \<and> g_grantee g = u_id user) inOrg @
     filter (\<lambda>g. g_toProject g \<and> g_grantee g \<in> grantedProjectIds db user) inOrg)"

definition no_access :: workspace_access where
  "no_access = \<lparr>canManage = False, environmentGroupIds = {}, environmentIds = {}, sshConnectionIds = {},
     databaseConnectionIds = {}, redisConnectionIds = {}\<rparr>"

definition truthy_id :: "string option \<Rightarrow> bool" where
  "truthy_id v \<longleftrightarrow> v \<noteq> None \<and> v \<noteq> Some ''''"

definition getWorkspaceAccess :: "tables \<Rightarrow> auth_user \<Rightarrow> workspace_access" where
  "getWorkspaceAccess db user =
     (if canManageWorkspace (Some user) then no_access\<lparr>canManage := True\<rparr>
      else let grants = workspace_grants db user;
        groups = granted_of grants ''environment_group'';
        envs = granted_of grants ''environment'' \<union>
          set (map o_id (filter (\<lambda>e. o_type e = Organization \<and> o_workspace e = w_id (workspace user) \<and>
            (case o_group e of None \<Rightarrow> False | Some g \<Rightarrow> g \<in> groups)) (environments db)));
        dbs = granted_of grants ''database_connection'' \<union> rows_of (database_environments db) envs
      in \<lparr>canManage = False,
          environmentGroupIds = set (map (\<lambda>e. the (o_group e))
            (filter (\<lambda>e. o_id e \<in> envs \<and> truthy_id (o_group e)) (environments db))) \<union> groups,
          environmentIds = envs,
          sshConnectionIds = granted_of grants ''ssh_connection'' \<union> rows_of (ssh_environments db) envs,
          databaseConnectionIds = dbs \<union> set (map o_id (filter (\<lambda>d.
            case o_profileParent d of None \<Rightarrow> False | Some p \<Rightarrow> p \<in> dbs) (database_connections db))),
          redisConnectionIds = granted_of grants ''redis_connection'' \<union> rows_of (redis_environments db) envs\<rparr>)"

section \<open>Questions\<close>

definition in_workspace :: "auth_user \<Rightarrow> 'a owned_row_scheme \<Rightarrow> bool" where
  "in_workspace user r \<longleftrightarrow> o_type r = w_type (workspace user) \<and> o_workspace r = w_id (workspace user)"

definition canAccessEnvironment :: "tables \<Rightarrow> auth_user \<Rightarrow> string \<Rightarrow> bool" where
  "canAccessEnvironment db user e = (case find (\<lambda>r. o_id r = e) (environments db) of
     None \<Rightarrow> False
   | Some row \<Rightarrow> in_workspace user row \<and>
       (let access = getWorkspaceAccess db user in canManage access \<or> e \<in> environmentIds access))"

datatype connection_type = SshConnection | DatabaseConnection | RedisConnection

definition connection_row :: "tables \<Rightarrow> connection_type \<Rightarrow> string \<Rightarrow> (owned_row \<times> string option) option" where
  "connection_row db t c = (case t of
     SshConnection \<Rightarrow> map_option (\<lambda>r. (r, None)) (find (\<lambda>r. o_id r = c) (ssh_connections db))
   | RedisConnection \<Rightarrow> map_option (\<lambda>r. (r, None)) (find (\<lambda>r. o_id r = c) (redis_connections db))
   | DatabaseConnection \<Rightarrow> map_option (\<lambda>r. (owned_row.truncate r, o_profileParent r))
       (find (\<lambda>r. o_id r = c) (database_connections db)))"

definition connection_ids :: "connection_type \<Rightarrow> workspace_access \<Rightarrow> string set" where
  "connection_ids t access = (case t of SshConnection \<Rightarrow> sshConnectionIds access
     | DatabaseConnection \<Rightarrow> databaseConnectionIds access | RedisConnection \<Rightarrow> redisConnectionIds access)"

definition canAccessConnection :: "tables \<Rightarrow> auth_user \<Rightarrow> connection_type \<Rightarrow> string \<Rightarrow> bool" where
  "canAccessConnection db user t c = (case connection_row db t c of
     None \<Rightarrow> False
   | Some (row, parent) \<Rightarrow> in_workspace user row \<and>
       (let access = getWorkspaceAccess db user; ids = connection_ids t access in
        canManage access \<or> c \<in> ids \<or>
        t = DatabaseConnection \<and> truthy_id parent \<and> the parent \<in> ids))"

definition canAccessWebCredential :: "tables \<Rightarrow> auth_user \<Rightarrow> string \<Rightarrow> bool" where
  "canAccessWebCredential db user c =
     (case [env. (i, entry) \<leftarrow> web_credentials db, i = c, (j, env) \<leftarrow> web_entries db, j = entry] of
        [] \<Rightarrow> False | env # _ \<Rightarrow> canAccessEnvironment db user env)"

definition canAccessEnvironmentLog :: "tables \<Rightarrow> auth_user \<Rightarrow> string \<Rightarrow> bool" where
  "canAccessEnvironmentLog db user l = (case find (\<lambda>r. fst r = l) (environment_logs db) of
     None \<Rightarrow> False | Some r \<Rightarrow> canAccessEnvironment db user (snd r))"

datatype resource_type = REnvironmentGroup | REnvironment | RSsh | RDatabase | RRedis

definition resource_rows :: "tables \<Rightarrow> resource_type \<Rightarrow> owned_row list" where
  "resource_rows db t = (case t of REnvironmentGroup \<Rightarrow> environment_groups db
     | REnvironment \<Rightarrow> map owned_row.truncate (environments db)
     | RSsh \<Rightarrow> ssh_connections db
     | RDatabase \<Rightarrow> map owned_row.truncate (database_connections db)
     | RRedis \<Rightarrow> redis_connections db)"

definition resourceBelongsToWorkspace :: "tables \<Rightarrow> auth_user \<Rightarrow> resource_type \<Rightarrow> string \<Rightarrow> bool" where
  "resourceBelongsToWorkspace db user t r =
     list_ex (\<lambda>row. o_id row = r \<and> in_workspace user row) (resource_rows db t)"

section \<open>The projects of a member are their projects with everything above\<close>

abbreviation above :: "project_row list \<Rightarrow> project_row \<Rightarrow> project_row \<Rightarrow> bool" where
  "above ps \<equiv> (\<lambda>p q. parent_of ps p = Some q)\<^sup>*\<^sup>*"

lemma above_in: "above ps p q \<Longrightarrow> p \<in> set ps \<Longrightarrow> q \<in> set ps"
  by (induction rule: rtranclp_induct) (auto dest: parent_of_in)

lemma climb_sound:
  "x \<in> climb ps granted current \<Longrightarrow> x \<in> granted \<or> (\<exists>p q. current = Some p \<and> above ps p q \<and> x = p_id q)"
proof (induction ps granted current rule: climb.induct)
  case (1 ps granted current)
  show ?case
  proof (cases current)
    case (Some p)
    show ?thesis
    proof (cases "p_id p \<in> granted")
      case False
      with "1.prems" Some have "x \<in> climb ps (insert (p_id p) granted) (parent_of ps p)"
        by (simp add: climb.simps [of ps granted])
      then consider "x = p_id p" | "x \<in> granted" | q r where "parent_of ps p = Some q" "above ps q r" "x = p_id r"
        using "1.IH" [OF Some False] by auto
      then show ?thesis
        using Some by cases (blast intro: converse_rtranclp_into_rtranclp)+
    qed (use "1.prems" Some in \<open>simp add: climb.simps [of ps granted]\<close>)
  qed (use "1.prems" in \<open>simp add: climb.simps [of ps granted]\<close>)
qed

text \<open>
  A set of ids is closed below \<open>current\<close> when it holds the parent of every project it holds,
  but for a parent that is the one about to be visited.
\<close>

definition closed_up :: "project_row list \<Rightarrow> string set \<Rightarrow> project_row option \<Rightarrow> bool" where
  "closed_up ps granted current \<longleftrightarrow> (\<forall>p \<in> set ps. p_id p \<in> granted \<longrightarrow>
     (\<forall>q. parent_of ps p = Some q \<longrightarrow> p_id q \<in> granted \<or> current = Some q))"

lemma climb_closed:
  assumes "distinct (map p_id ps)"
  shows "closed_up ps granted current \<Longrightarrow> set_option current \<subseteq> set ps \<Longrightarrow>
    closed_up ps (climb ps granted current) None \<and> granted \<subseteq> climb ps granted current \<and>
    p_id ` set_option current \<subseteq> climb ps granted current"
  using assms
proof (induction ps granted current rule: climb.induct)
  case (1 ps granted current)
  show ?case
  proof (cases current)
    case None
    with "1.prems" show ?thesis by (simp add: climb.simps [of ps granted])
  next
    case (Some p)
    show ?thesis
    proof (cases "p_id p \<in> granted")
      case True
      with "1.prems" Some show ?thesis
        by (auto simp: climb.simps [of ps granted] closed_up_def)
    next
      case False
      have step: "climb ps granted current = climb ps (insert (p_id p) granted) (parent_of ps p)"
        using Some False by (simp add: climb.simps [of ps granted])
      have same: "r = p" if "r \<in> set ps" "p_id r = p_id p" for r
        using that "1.prems"(2,3) Some by (auto simp: distinct_map dest: inj_onD)
      have "closed_up ps (insert (p_id p) granted) (parent_of ps p)"
        using "1.prems"(1) same Some unfolding closed_up_def by auto
      moreover have "set_option (parent_of ps p) \<subseteq> set ps"
        using parent_of_in [of ps p] by (auto simp: elem_set)
      ultimately show ?thesis
        using "1.IH" [OF Some False] "1.prems"(3) Some step by auto
    qed
  qed
qed

lemma above_closed:
  "above ps p q \<Longrightarrow> p \<in> set ps \<Longrightarrow> closed_up ps granted None \<Longrightarrow> p_id p \<in> granted \<Longrightarrow> p_id q \<in> granted"
proof (induction rule: rtranclp_induct)
  case (step q r)
  then show ?case
    using above_in [of ps p q] unfolding closed_up_def by blast
qed simp

lemma climb_all:
  assumes "distinct (map p_id ps)" "set xs \<subseteq> set ps" "closed_up ps granted None"
  shows "fold (\<lambda>p granted. climb ps granted (Some p)) xs granted =
    granted \<union> {p_id q | p q. p \<in> set xs \<and> above ps p q} \<and>
    closed_up ps (fold (\<lambda>p granted. climb ps granted (Some p)) xs granted) None"
  using assms(2,3)
proof (induction xs arbitrary: granted)
  case (Cons x xs)
  let ?g = "climb ps granted (Some x)"
  have "closed_up ps granted (Some x)"
    using Cons.prems(2) by (auto simp: closed_up_def)
  then have c: "closed_up ps ?g None" "granted \<subseteq> ?g" "p_id x \<in> ?g"
    using climb_closed [OF assms(1), of granted "Some x"] Cons.prems(1) by auto
  have sound: "y \<in> ?g \<Longrightarrow> y \<in> granted \<or> (\<exists>q. above ps x q \<and> y = p_id q)" for y
    using climb_sound [of y ps granted "Some x"] by blast
  have full: "above ps x q \<Longrightarrow> p_id q \<in> ?g" for q
    by (rule above_closed [of ps x q ?g]) (use c Cons.prems(1) in auto)
  have g: "?g = granted \<union> {p_id q | q. above ps x q}"
    by (rule set_eqI) (use sound full c(2) in blast)
  have xs: "set xs \<subseteq> set ps" using Cons.prems(1) by simp
  show ?case
    unfolding fold.simps comp_def
    using Cons.IH [OF xs c(1)] unfolding g by auto
qed simp

lemma granted_project_iff:
  assumes "distinct (map p_id (workspace_projects db user))"
  shows "i \<in> grantedProjectIds db user \<longleftrightarrow> (\<exists>p q. p \<in> set (workspace_projects db user) \<and>
    member_project db user p \<and> above (workspace_projects db user) p q \<and> p_id q = i)"
  unfolding grantedProjectIds_def Let_def
  using climb_all [OF assms, of "filter (member_project db user) (workspace_projects db user)" "{}"]
  by (auto simp: closed_up_def)

text \<open>C27: The projects whose grants a member has are the projects they belong to with all projects
  above them, each found although the walk up stops at the first project it has seen; and the
  walk ends also when the parents run in a circle.\<close>

theorem granted_projects_are_ancestors:
  assumes "distinct (map p_id (workspace_projects db user))"
  shows "grantedProjectIds db user =
    {p_id q | p q. p \<in> set (workspace_projects db user) \<and> member_project db user p \<and>
       above (workspace_projects db user) p q}"
  by (rule set_eqI, unfold granted_project_iff [OF assms] mem_Collect_eq) blast

section \<open>Access comes from a grant\<close>

text \<open>The specification: a grant of the organisation names the resource, for the user themself or
  for a project the user's projects lie below.\<close>

definition has_grant :: "tables \<Rightarrow> auth_user \<Rightarrow> string \<Rightarrow> string \<Rightarrow> bool" where
  "has_grant db user t r \<longleftrightarrow> (\<exists>g \<in> set (resource_grants db).
     g_organization g = w_id (workspace user) \<and> g_resourceType g = t \<and> g_resource g = r \<and>
     (\<not> g_toProject g \<and> g_grantee g = u_id user \<or>
      g_toProject g \<and> (\<exists>p q. p \<in> set (workspace_projects db user) \<and> member_project db user p \<and>
        above (workspace_projects db user) p q \<and> p_id q = g_grantee g)))"

lemma granted_of_has_grant:
  assumes "distinct (map p_id (workspace_projects db user))"
  shows "r \<in> granted_of (workspace_grants db user) t \<longleftrightarrow> has_grant db user t r"
proof -
  have "has_grant db user t r \<longleftrightarrow> (\<exists>g \<in> set (resource_grants db).
     g_organization g = w_id (workspace user) \<and> g_resourceType g = t \<and> g_resource g = r \<and>
     (\<not> g_toProject g \<and> g_grantee g = u_id user \<or> g_toProject g \<and> g_grantee g \<in> grantedProjectIds db user))"
    unfolding has_grant_def by (simp only: granted_project_iff [OF assms])
  then show ?thesis
    unfolding granted_of_def workspace_grants_def Let_def by auto
qed

lemma manager_access: "canManage (getWorkspaceAccess db user) = canManageWorkspace (Some user)"
  by (simp add: getWorkspaceAccess_def Let_def no_access_def)

lemma environmentIds_iff:
  assumes "distinct (map p_id (workspace_projects db user))" "\<not> canManageWorkspace (Some user)"
  shows "e \<in> environmentIds (getWorkspaceAccess db user) \<longleftrightarrow> has_grant db user ''environment'' e \<or>
    (\<exists>r g. r \<in> set (environments db) \<and> o_id r = e \<and> o_type r = Organization \<and>
       o_workspace r = w_id (workspace user) \<and> o_group r = Some g \<and> has_grant db user ''environment_group'' g)"
  using assms(2) unfolding getWorkspaceAccess_def Let_def
  by (auto simp: granted_of_has_grant [OF assms(1)] image_iff split: option.splits)

text \<open>C26: Who reaches an environment: it lies in the user's workspace, and the user manages the workspace,
  or a grant to them or to a project above theirs names the environment or its group.\<close>

theorem environment_access_iff:
  assumes "distinct (map p_id (workspace_projects db user))"
  shows "canAccessEnvironment db user e \<longleftrightarrow>
    (\<exists>row. find (\<lambda>r. o_id r = e) (environments db) = Some row \<and>
       o_type row = w_type (workspace user) \<and> o_workspace row = w_id (workspace user) \<and>
       (canManageWorkspace (Some user) \<or> has_grant db user ''environment'' e \<or>
        (\<exists>r g. r \<in> set (environments db) \<and> o_id r = e \<and> o_type r = Organization \<and>
           o_workspace r = w_id (workspace user) \<and> o_group r = Some g \<and>
           has_grant db user ''environment_group'' g)))"
proof (cases "canManageWorkspace (Some user)")
  case True
  then show ?thesis
    by (simp add: canAccessEnvironment_def manager_access in_workspace_def Let_def split: option.split)
next
  case False
  then show ?thesis
    by (simp add: canAccessEnvironment_def manager_access in_workspace_def Let_def
        environmentIds_iff [OF assms False] split: option.split)
qed

section \<open>Samples\<close>

definition sample_user :: auth_user where
  "sample_user = \<lparr>u_id = ''u1'', workspace = \<lparr>w_type = Organization, w_id = ''org'', w_role = Member\<rparr>\<rparr>"

text \<open>Two projects, each the parent of the other, and an environment granted to the one the user is not in.\<close>

definition sample_tables :: tables where
  "sample_tables = \<lparr>resource_grants = [\<lparr>g_organization = ''org'', g_toProject = True, g_grantee = ''p2'',
        g_resourceType = ''environment_group'', g_resource = ''g''\<rparr>],
     projects = [\<lparr>p_id = ''p1'', p_organization = ''org'', p_parent = Some ''p2''\<rparr>,
        \<lparr>p_id = ''p2'', p_organization = ''org'', p_parent = Some ''p1''\<rparr>],
     project_members = [(''p1'', ''u1'')], environment_groups = [],
     environments = [\<lparr>o_id = ''e'', o_type = Organization, o_workspace = ''org'', o_group = Some ''g''\<rparr>],
     ssh_connections = [], database_connections = [], redis_connections = [], ssh_environments = [],
     database_environments = [], redis_environments = [], web_credentials = [], web_entries = [],
     environment_logs = []\<rparr>"

lemma sample_distinct: "distinct (map p_id (workspace_projects sample_tables sample_user))"
  by code_simp

lemma granted_projects_are_ancestors_witness:
  "''p2'' \<in> grantedProjectIds sample_tables sample_user"
proof -
  let ?ps = "workspace_projects sample_tables sample_user"
  let ?p = "\<lparr>p_id = ''p1'', p_organization = ''org'', p_parent = Some ''p2''\<rparr>"
  let ?q = "\<lparr>p_id = ''p2'', p_organization = ''org'', p_parent = Some ''p1''\<rparr>"
  have p: "?p \<in> set ?ps \<and> member_project sample_tables sample_user ?p \<and> parent_of ?ps ?p = Some ?q" by code_simp
  then have "above ?ps ?p ?q" by blast
  then show ?thesis
    unfolding granted_projects_are_ancestors [OF sample_distinct] using p
    by (intro CollectI exI [of _ ?p] exI [of _ ?q]) simp
qed

lemma environment_access_iff_witness:
  "\<exists>g. has_grant sample_tables sample_user ''environment_group'' g"
proof -
  have acc: "canAccessEnvironment sample_tables sample_user ''e''" by code_simp
  have no: "\<not> canManageWorkspace (Some sample_user)" by code_simp
  have "\<not> has_grant sample_tables sample_user ''environment'' ''e''"
    by (auto simp: has_grant_def sample_tables_def)
  then show ?thesis
    using acc no unfolding environment_access_iff [OF sample_distinct] by blast
qed

end
