(* ===== verification/McpOperations.thy ===== *)
theory McpOperations
  imports McpSettings Lifecycle AccessControl
begin

text \<open>
  The store of the operations an agent asks for and a person has to confirm
  (\<open>IM-ops/viron/src/server/mcp/operation-store.ts\<close>). The code hands out the record objects
  of its map and mutates them, so each operation is a function of the record, and the
  operations of the store apply them to the records in the map.

  Instants are milliseconds; one call reads the clock once (\<open>now\<close>). The random identifier
  and the random bytes of a lease are arguments, and so is \<open>tokenHash\<close>, the SHA-256 of the
  runtime's cryptography library.
\<close>

section \<open>Data\<close>

datatype credential_kind = CSsh | CDatabase | CDatabaseProfile | CRedis | CWeb | CSshKeyImport
  | CSshKeyGenerate | CConnectionSource | CConnectionImport

datatype credential_mode = CCreate | CUpdate

record credential_operation =
  cr_kind :: credential_kind
  cr_mode :: credential_mode

datatype op_kind = Credential | Confirmation

datatype op_target = OnServer | OnDesktop

datatype op_status =
  AwaitingPurpose | Pending | Approved | Running | Completed | OpFailed | Cancelled | Expired

record operation =
  op_id :: string
  ownerUserId :: string
  apiKeyId :: "string option"
  op_workspaceType :: workspace_type
  op_workspaceId :: string
  op_action :: string
  op_kind :: op_kind
  op_status :: op_status
  op_title :: string
  op_summary :: string
  op_risk :: risk_level
  purpose :: "string option"
  actionUrl :: string
  op_target :: op_target
  executionScope :: "string option"
  op_request :: api_request
  credential :: "credential_operation option"
  leaseHash :: "string option"
  op_createdAt :: int
  expiresAt :: int
  approvedAt :: "int option"
  completedAt :: "int option"
  result :: "api_response option"

record create_input =
  in_owner :: string
  in_apiKey :: "string option"
  in_workspaceType :: workspace_type
  in_workspaceId :: string
  in_action :: string
  in_kind :: op_kind
  in_title :: string
  in_summary :: string
  in_risk :: risk_level
  in_actionUrl :: "string \<Rightarrow> string"
  in_target :: op_target
  in_scope :: "string option"
  in_request :: api_request
  in_credential :: "credential_operation option"
  in_awaitingPurpose :: bool

datatype op_error = NoPurposeNeeded | AlreadyHandled | LeaseInvalid | CannotComplete | CannotFail

record op_public =
  pub_id :: string
  pub_action :: string
  pub_kind :: op_kind
  pub_status :: op_status
  pub_title :: string
  pub_summary :: string
  pub_risk :: risk_level
  pub_purpose :: "string option"
  pub_url :: "string option"
  pub_expiresAt :: int
  pub_next :: "(string \<times> string) option"
  pub_result :: "api_response option"

type_synonym op_store = "(string, operation) jsmap"

definition OPERATION_TTL_MS :: int where "OPERATION_TTL_MS = 10 * 60000"

definition TERMINAL_RETENTION_MS :: int where "TERMINAL_RETENTION_MS = 60 * 60000"

section \<open>Operations on a record\<close>

definition safeResult :: "api_response \<Rightarrow> api_response" where
  "safeResult r = r\<lparr>r_headers :=
     (case map_of (r_headers r) ''content-type'' of
        None \<Rightarrow> []
      | Some v \<Rightarrow> if v = JUndef \<or> v = JStr '''' then [] else [(''content-type'', v)])\<rparr>"

definition new_operation ::
    "(string \<Rightarrow> string) \<Rightarrow> int \<Rightarrow> string \<Rightarrow> string \<Rightarrow> create_input \<Rightarrow> operation \<times> string option" where
  "new_operation tokenHash now oid random i =
     (let lease = (if in_kind i = Confirmation \<and> in_target i = OnDesktop then Some random else None) in
      (\<lparr>op_id = oid, ownerUserId = in_owner i, apiKeyId = in_apiKey i, op_workspaceType = in_workspaceType i,
         op_workspaceId = in_workspaceId i, op_action = in_action i, op_kind = in_kind i,
         op_status = (if in_awaitingPurpose i then AwaitingPurpose else Pending),
         op_title = in_title i, op_summary = in_summary i, op_risk = in_risk i, purpose = None,
         actionUrl = in_actionUrl i oid, op_target = in_target i, executionScope = in_scope i,
         op_request = in_request i, credential = in_credential i, leaseHash = map_option tokenHash lease,
         op_createdAt = now, expiresAt = now + OPERATION_TTL_MS, approvedAt = None, completedAt = None,
         result = None\<rparr>, lease))"

definition expirable :: "op_status \<Rightarrow> bool" where
  "expirable s \<longleftrightarrow> s \<in> {AwaitingPurpose, Pending, Approved}"

definition expire :: "int \<Rightarrow> operation \<Rightarrow> operation" where
  "expire now x = (if expirable (op_status x) \<and> expiresAt x \<le> now
     then x\<lparr>op_status := Expired, completedAt := Some now, leaseHash := None\<rparr> else x)"

text \<open>
  A failing operation still leaves the record expired, so the record comes back in both
  cases: the error, if one is thrown, and the record.
\<close>

definition assertPending :: "int \<Rightarrow> operation \<Rightarrow> op_error option \<times> operation" where
  "assertPending now x = (let y = expire now x in
     (if op_status y \<noteq> Pending then Some AlreadyHandled else None, y))"

definition providePurpose :: "int \<Rightarrow> string \<Rightarrow> operation \<Rightarrow> op_error option \<times> operation" where
  "providePurpose now why x = (let y = expire now x in
     if op_kind y \<noteq> Confirmation \<or> op_status y \<noteq> AwaitingPurpose then (Some NoPurposeNeeded, y)
     else (None, y\<lparr>purpose := Some why, op_status := Pending\<rparr>))"

definition approveDesktop :: "int \<Rightarrow> operation \<Rightarrow> op_error option \<times> operation" where
  "approveDesktop now x = (let r = assertPending now x in
     if fst r \<noteq> None then r else (None, (snd r)\<lparr>op_status := Approved, approvedAt := Some now\<rparr>))"

definition startServer :: "int \<Rightarrow> operation \<Rightarrow> op_error option \<times> operation" where
  "startServer now x = (let r = assertPending now x in
     if fst r \<noteq> None then r else (None, (snd r)\<lparr>op_status := Running, approvedAt := Some now\<rparr>))"

definition startDesktop ::
    "(string \<Rightarrow> string) \<Rightarrow> int \<Rightarrow> string \<Rightarrow> operation \<Rightarrow> op_error option \<times> operation" where
  "startDesktop tokenHash now lease x = (let y = expire now x in
     if op_status y \<noteq> Approved \<or> leaseHash y = None \<or> leaseHash y = Some '''' \<or>
        Some (tokenHash lease) \<noteq> leaseHash y
     then (Some LeaseInvalid, y) else (None, y\<lparr>op_status := Running\<rparr>))"

definition complete :: "int \<Rightarrow> api_response \<Rightarrow> operation \<Rightarrow> op_error option \<times> operation" where
  "complete now r x =
     (if op_status x \<noteq> Running then (Some CannotComplete, x)
      else (None, x\<lparr>op_status := (if r_status r \<ge> 400 then OpFailed else Completed),
              result := Some (safeResult r), completedAt := Some now, leaseHash := None\<rparr>))"

definition fail_op :: "int \<Rightarrow> int \<Rightarrow> string \<Rightarrow> string \<Rightarrow> operation \<Rightarrow> op_error option \<times> operation" where
  "fail_op now code_number err message x =
     (if op_status x \<notin> {AwaitingPurpose, Pending, Approved, Running} then (Some CannotFail, x)
      else (None, x\<lparr>op_status := OpFailed,
              result := Some (safeResult \<lparr>r_status = code_number,
                r_headers = [(''content-type'', JStr ''application/json; charset=utf-8'')],
                r_data = JObj [(''error'', JStr err), (''message'', JStr message)]\<rparr>),
              completedAt := Some now, leaseHash := None\<rparr>))"

definition cancel :: "int \<Rightarrow> operation \<Rightarrow> bool \<times> operation" where
  "cancel now x = (let y = expire now x in
     if \<not> expirable (op_status y) then (False, y)
     else (True, y\<lparr>op_status := Cancelled, completedAt := Some now, leaseHash := None\<rparr>))"

definition public_view :: "int \<Rightarrow> operation \<Rightarrow> op_public \<times> operation" where
  "public_view now x = (let y = expire now x; waiting = (op_status y = AwaitingPurpose) in
     (\<lparr>pub_id = op_id y, pub_action = op_action y, pub_kind = op_kind y, pub_status = op_status y,
        pub_title = op_title y, pub_summary = op_summary y, pub_risk = op_risk y, pub_purpose = purpose y,
        pub_url = (if waiting then None else Some (actionUrl y)), pub_expiresAt = expiresAt y,
        pub_next = (if waiting then Some (op_id y, if op_workspaceType y = Personal then ''personal''
          else ''organization:'' @ op_workspaceId y) else None),
        pub_result = result y\<rparr>, y))"

section \<open>Operations of the store\<close>

definition create ::
    "(string \<Rightarrow> string) \<Rightarrow> int \<Rightarrow> string \<Rightarrow> string \<Rightarrow> create_input \<Rightarrow> op_store \<Rightarrow>
      op_store \<times> operation \<times> string option" where
  "create tokenHash now oid random i st = (let r = new_operation tokenHash now oid random i in
     (map_set oid (fst r) st, fst r, snd r))"

definition get_op :: "int \<Rightarrow> string \<Rightarrow> op_store \<Rightarrow> op_store \<times> operation option" where
  "get_op now oid st = (case map_of st oid of None \<Rightarrow> (st, None)
     | Some x \<Rightarrow> (map_set oid (expire now x) st, Some (expire now x)))"

definition cancelScope :: "int \<Rightarrow> string \<Rightarrow> string \<Rightarrow> op_store \<Rightarrow> op_store" where
  "cancelScope now owner scope st = map (\<lambda>(k, x).
     (k, if ownerUserId x = owner \<and> executionScope x = Some scope then snd (cancel now x) else x)) st"

definition terminal_at :: "operation \<Rightarrow> int" where
  "terminal_at x = (case completedAt x of None \<Rightarrow> 0 | Some t \<Rightarrow> t)"

definition cleanup :: "int \<Rightarrow> op_store \<Rightarrow> op_store" where
  "cleanup now st = filter (\<lambda>(k, x). \<not> (terminal_at x \<noteq> 0 \<and> terminal_at x < now - TERMINAL_RETENTION_MS))
     (map (\<lambda>p. (fst p, expire now (snd p))) st)"

definition close_store :: "op_store \<Rightarrow> op_store" where
  "close_store st = []"

section \<open>Runs of a record\<close>

text \<open>
  What can happen to one record, at any time and with any arguments: every operation of
  the store that reaches it.
\<close>

inductive op_step :: "(string \<Rightarrow> string) \<Rightarrow> operation \<Rightarrow> operation \<Rightarrow> bool" for tokenHash where
  expires: "op_step tokenHash x (expire now x)"
| purpose: "op_step tokenHash x (snd (providePurpose now why x))"
| approve: "op_step tokenHash x (snd (approveDesktop now x))"
| start_server: "op_step tokenHash x (snd (startServer now x))"
| start_desktop: "op_step tokenHash x (snd (startDesktop tokenHash now lease x))"
| completes: "op_step tokenHash x (snd (complete now r x))"
| fails: "op_step tokenHash x (snd (fail_op now n err message x))"
| cancels: "op_step tokenHash x (snd (cancel now x))"

inductive_cases op_stepE: "op_step tokenHash x y"

primrec op_rank :: "op_status \<Rightarrow> nat" where
  "op_rank AwaitingPurpose = 0"
| "op_rank Pending = 1"
| "op_rank Approved = 2"
| "op_rank Running = 3"
| "op_rank Completed = 4"
| "op_rank OpFailed = 4"
| "op_rank Cancelled = 4"
| "op_rank Expired = 4"

lemmas op_defs = expire_def providePurpose_def assertPending_def approveDesktop_def startServer_def
  startDesktop_def complete_def fail_op_def cancel_def expirable_def Let_def

lemma op_rank_bounded: "op_rank q \<le> 4"
  by (cases q) simp_all

lemma op_rank_final [simp]: "op_rank q = 4 \<longleftrightarrow> q \<in> {Completed, OpFailed, Cancelled, Expired}"
  by (cases q) simp_all

lemma op_step_forward:
  "op_step tokenHash x y \<Longrightarrow> op_status y = op_status x \<or> op_rank (op_status x) < op_rank (op_status y)"
  by (erule op_stepE) (cases "op_status x"; simp add: op_defs)+

text \<open>The part of the record that tells how it ended.\<close>

definition outcome :: "operation \<Rightarrow> api_response option \<times> int option \<times> int option \<times> string option" where
  "outcome x = (result x, completedAt x, approvedAt x, purpose x)"

lemma op_step_frozen:
  "op_step tokenHash x y \<Longrightarrow> op_rank (op_status x) = 4 \<Longrightarrow> outcome y = outcome x"
  by (erule op_stepE) (auto simp: op_defs outcome_def)

interpretation mcp_op: frozen_lifecycle "op_step tokenHash" op_status op_rank 4 outcome for tokenHash
  by unfold_locales (auto dest: op_step_forward op_step_frozen simp: op_rank_bounded)

text \<open>What never changes: who asked for what, and until when.\<close>

definition op_terms :: "operation \<Rightarrow> string \<times> string \<times> string \<times> op_kind \<times> api_request \<times> int" where
  "op_terms x = (op_id x, ownerUserId x, op_action x, op_kind x, op_request x, expiresAt x)"

lemma op_step_terms: "op_step tokenHash x y \<Longrightarrow> op_terms y = op_terms x"
  by (erule op_stepE) (auto simp: op_defs op_terms_def)

lemma op_run_terms: "(op_step tokenHash)\<^sup>*\<^sup>* x y \<Longrightarrow> op_terms y = op_terms x"
  by (induction rule: rtranclp_induct) (auto dest: op_step_terms)

text \<open>
  The invariant of a record: a lease only while there is something to run on the desktop, an
  approval before the deadline on everything that was approved, a result exactly on what has
  ended by running or failing, and the end marked by \<open>completedAt\<close>.
\<close>

definition op_ok :: "bool \<Rightarrow> operation \<Rightarrow> bool" where
  "op_ok asked x \<longleftrightarrow>
     (op_status x \<in> {Approved, Running, Completed} \<longrightarrow> (\<exists>t. approvedAt x = Some t \<and> t < expiresAt x)) \<and>
     (asked \<and> op_status x \<in> {Pending, Approved, Running, Completed} \<longrightarrow> purpose x \<noteq> None) \<and>
     (result x \<noteq> None \<longleftrightarrow> op_status x \<in> {Completed, OpFailed}) \<and>
     (completedAt x \<noteq> None \<longleftrightarrow> op_rank (op_status x) = 4) \<and>
     (op_rank (op_status x) = 4 \<longrightarrow> leaseHash x = None)"

lemma op_ok_step: "op_step tokenHash x y \<Longrightarrow> op_ok asked x \<Longrightarrow> op_ok asked y"
  by (erule op_stepE; cases "op_status x"; simp add: op_defs op_ok_def split: if_splits; force)

lemma op_ok_new: "op_ok (in_awaitingPurpose i) (fst (new_operation tokenHash now oid random i))"
  by (simp add: new_operation_def op_ok_def Let_def)

lemma op_ok_run: "(op_step tokenHash)\<^sup>*\<^sup>* x y \<Longrightarrow> op_ok asked x \<Longrightarrow> op_ok asked y"
  by (induction rule: rtranclp_induct) (auto intro: op_ok_step)

text \<open>C24: Whatever is done to an operation after its creation: what runs or has completed was approved
  before its deadline ten minutes after creation, and with a stated purpose when one was asked for;
  a result is there exactly when it completed or failed; its owner and its request stay those
  it was created with.\<close>

theorem operation_runs_only_approved:
  assumes "(op_step tokenHash)\<^sup>*\<^sup>* (fst (new_operation tokenHash now oid random i)) x"
  shows "(op_status x \<in> {Approved, Running, Completed} \<longrightarrow>
      (\<exists>t. approvedAt x = Some t \<and> t < now + OPERATION_TTL_MS \<and> (in_awaitingPurpose i \<longrightarrow> purpose x \<noteq> None))) \<and>
    (result x \<noteq> None \<longleftrightarrow> op_status x \<in> {Completed, OpFailed}) \<and>
    ownerUserId x = in_owner i \<and> op_request x = in_request i"
proof -
  have "op_ok (in_awaitingPurpose i) x" by (rule op_ok_run [OF assms op_ok_new])
  moreover have "op_terms x = op_terms (fst (new_operation tokenHash now oid random i))"
    by (rule op_run_terms [OF assms])
  ultimately show ?thesis
    by (auto simp: op_ok_def op_terms_def new_operation_def Let_def)
qed

text \<open>C25: An operation that has completed, failed, been cancelled or expired stays so with its result,
  whatever is done to it later; and no status comes back once it has been left.\<close>

theorem operation_ends_once:
  assumes run: "(op_step tokenHash)\<^sup>*\<^sup>* x y"
  shows "(op_status x \<in> {Completed, OpFailed, Cancelled, Expired} \<longrightarrow>
      op_status y = op_status x \<and> result y = result x \<and> completedAt y = completedAt x) \<and>
    ((op_step tokenHash)\<^sup>*\<^sup>* y z \<and> op_status z = op_status x \<longrightarrow> op_status y = op_status x)"
  using mcp_op.settled [OF run] mcp_op.part_frozen [OF run] mcp_op.no_return [OF run]
  by (auto simp: outcome_def)

text \<open>The sweep of the store expires what is over its deadline and forgets exactly the operations
  that ended more than an hour ago; everything else stays, with its place in the store.\<close>

theorem cleanup_forgets_old_ends:
  assumes "keys_distinct st"
  shows "map_of (cleanup now st) oid = (case map_of st oid of None \<Rightarrow> None
    | Some x \<Rightarrow> if terminal_at (expire now x) \<noteq> 0 \<and> terminal_at (expire now x) < now - TERMINAL_RETENTION_MS
        then None else Some (expire now x))"
proof -
  have "keys_distinct (map (\<lambda>p. (fst p, expire now (snd p))) st)"
    using assms by (simp add: keys_distinct_def comp_def)
  moreover have "map_of (map (\<lambda>p. (fst p, expire now (snd p))) st) oid = map_option (expire now) (map_of st oid)"
    by (induction st) auto
  ultimately show ?thesis
    by (simp add: cleanup_def map_of_filter_pair split: option.splits)
qed

section \<open>Samples\<close>

definition sample_input :: "op_kind \<Rightarrow> op_target \<Rightarrow> bool \<Rightarrow> create_input" where
  "sample_input k t asked = \<lparr>in_owner = ''u1'', in_apiKey = None, in_workspaceType = Personal, in_workspaceId = ''w'',
     in_action = ''ssh_exec'', in_kind = k, in_title = ''t'', in_summary = ''s'', in_risk = High,
     in_actionUrl = (\<lambda>i. ''/o/'' @ i), in_target = t, in_scope = None,
     in_request = \<lparr>q_method = ''POST'', q_path = ''/x'', q_workspace = None, q_query = [], q_body = JUndef\<rparr>,
     in_credential = None, in_awaitingPurpose = asked\<rparr>"

definition sample_run :: "operation" where
  "sample_run = (let x0 = fst (new_operation id 1000 ''o1'' ''r'' (sample_input Confirmation OnDesktop True));
     x1 = snd (providePurpose 2000 ''why'' x0);
     x2 = snd (approveDesktop 3000 x1);
     x3 = snd (startDesktop id 4000 ''r'' x2) in
     snd (complete 5000 \<lparr>r_status = 200, r_headers = [], r_data = JNull\<rparr> x3))"

lemma sample_run_steps:
  "(op_step id)\<^sup>*\<^sup>* (fst (new_operation id 1000 ''o1'' ''r'' (sample_input Confirmation OnDesktop True))) sample_run"
  unfolding sample_run_def Let_def
  by (meson completes start_desktop approve purpose rtranclp.rtrancl_into_rtrancl rtranclp.rtrancl_refl)

lemma operation_runs_only_approved_witness:
  "op_status sample_run = Completed \<and> approvedAt sample_run = Some 3000 \<and> purpose sample_run \<noteq> None"
proof -
  have "op_status sample_run = Completed \<and> approvedAt sample_run = Some 3000" by code_simp
  then show ?thesis
    using operation_runs_only_approved [OF sample_run_steps] by (simp add: sample_input_def)
qed

lemma operation_ends_once_witness:
  "op_status (snd (cancel 9000 sample_run)) = Completed \<and> result (snd (cancel 9000 sample_run)) = result sample_run"
proof -
  have ended: "op_status sample_run = Completed" by code_simp
  have "(op_step id)\<^sup>*\<^sup>* sample_run (snd (cancel 9000 sample_run))" by (blast intro: cancels)
  then show ?thesis using operation_ends_once ended by fastforce
qed

lemma cleanup_forgets_old_ends_witness:
  "map_of (cleanup 3605001 [(''o1'', sample_run)]) ''o1'' = None"
proof -
  have "keys_distinct [(''o1'', sample_run)]" by (simp add: keys_distinct_def)
  moreover have "terminal_at (expire 3605001 sample_run) = 5000" by code_simp
  ultimately show ?thesis
    by (simp add: cleanup_forgets_old_ends TERMINAL_RETENTION_MS_def)
qed

end
