(* ===== verification/IdlePool.thy ===== *)
theory IdlePool
  imports Prelude
begin

text \<open>
  The pool that keeps idle connections for reuse
  (\<open>IM-ops/viron/src/shared/idle-resource-pool.ts\<close>). An entry object is shared by the pool's set
  and by the lease that was handed out, so entries live in a heap and are named by their
  place in it; \<open>members\<close> is the pool's set. Asynchronous functions are split at their awaits.
  Beside the code's state the model keeps two logs: the resources \<open>create\<close> has delivered and
  the resources \<open>dispose\<close> was called with. The clock and \<open>usable\<close> are arguments.
\<close>

record 'r entry =
  e_key :: string
  e_resource :: 'r
  busy :: bool
  invalid :: bool
  idleSince :: int

record 'r pool =
  heap :: "'r entry list"
  members :: "nat list"
  leases :: "(nat \<times> bool) list"
  generation :: nat
  created :: "'r list"
  disposed :: "'r list"

definition CONNECTION_REUSE_IDLE_MS :: int where "CONNECTION_REUSE_IDLE_MS = 60000"

definition idle_ms :: "int option \<Rightarrow> int" where
  "idle_ms o_idle = max 1000 (case o_idle of None \<Rightarrow> CONNECTION_REUSE_IDLE_MS | Some v \<Rightarrow> v)"

definition max_idle :: "int option \<Rightarrow> nat" where
  "max_idle o_max = nat (max 1 (case o_max of None \<Rightarrow> 2 | Some v \<Rightarrow> v))"

definition new_pool :: "'r pool" where
  "new_pool = \<lparr>heap = [], members = [], leases = [], generation = 0, created = [], disposed = []\<rparr>"

section \<open>Operations\<close>

text \<open>\<open>remove\<close>: deletes from the set and disposes, unless someone did already.\<close>

definition remove_entry :: "nat \<Rightarrow> 'r pool \<Rightarrow> 'r pool" where
  "remove_entry r st = (if r \<in> set (members st)
     then st\<lparr>members := remove1 r (members st), disposed := disposed st @ [e_resource (heap st ! r)]\<rparr>
     else st)"

definition remove_entries :: "nat list \<Rightarrow> 'r pool \<Rightarrow> 'r pool" where
  "remove_entries rs st = fold remove_entry rs st"

definition update_entry :: "nat \<Rightarrow> ('r entry \<Rightarrow> 'r entry) \<Rightarrow> 'r pool \<Rightarrow> 'r pool" where
  "update_entry r f st = st\<lparr>heap := (heap st)[r := f (heap st ! r)]\<rparr>"

definition pool_cleanup :: "('r \<Rightarrow> bool) \<Rightarrow> int \<Rightarrow> int \<Rightarrow> 'r pool \<Rightarrow> 'r pool" where
  "pool_cleanup usable idleMs now st = remove_entries
     (filter (\<lambda>r. let e = heap st ! r in
        \<not> busy e \<and> (invalid e \<or> idleSince e \<le> now - idleMs \<or> \<not> usable (e_resource e))) (members st)) st"

text \<open>\<open>[..].sort((left, right) => right.idleSince - left.idleSince)\<close>.\<close>

definition newest_first :: "'r pool \<Rightarrow> nat list \<Rightarrow> nat list" where
  "newest_first st rs = js_sort (\<lambda>a b. idleSince (heap st ! b) - idleSince (heap st ! a)) rs"

definition candidates :: "('r \<Rightarrow> bool) \<Rightarrow> string \<Rightarrow> 'r pool \<Rightarrow> nat list" where
  "candidates usable key st = newest_first st (filter (\<lambda>r. let e = heap st ! r in
     e_key e = key \<and> \<not> busy e \<and> \<not> invalid e \<and> usable (e_resource e)) (members st))"

definition lease_entry :: "nat \<Rightarrow> 'r pool \<Rightarrow> 'r pool" where
  "lease_entry r st = (update_entry r (\<lambda>e. e\<lparr>busy := True\<rparr>) st)\<lparr>leases := leases st @ [(r, False)]\<rparr>"

text \<open>
  \<open>acquire\<close> behind its cleanup: an idle entry is leased at once; otherwise \<open>create\<close> is awaited,
  and \<open>acquire_created\<close> goes on with its resource and the generation read before.
\<close>

definition acquire_existing :: "('r \<Rightarrow> bool) \<Rightarrow> string \<Rightarrow> 'r pool \<Rightarrow> 'r pool option" where
  "acquire_existing usable key st = (case candidates usable key st of
     [] \<Rightarrow> None | r # _ \<Rightarrow> Some (lease_entry r st))"

definition acquire_created :: "int \<Rightarrow> string \<Rightarrow> nat \<Rightarrow> 'r \<Rightarrow> 'r pool \<Rightarrow> 'r pool \<times> bool" where
  "acquire_created now key gen res st =
     (let st' = st\<lparr>created := created st @ [res]\<rparr> in
      if gen \<noteq> generation st then (st'\<lparr>disposed := disposed st @ [res]\<rparr>, False)
      else let r = length (heap st) in
        (lease_entry r (st'\<lparr>heap := heap st @ [\<lparr>e_key = key, e_resource = res, busy = False, invalid = False,
           idleSince = now\<rparr>], members := members st @ [r]\<rparr>), True))"

definition idle_for :: "string \<Rightarrow> 'r pool \<Rightarrow> nat list" where
  "idle_for key st = filter (\<lambda>r. let e = heap st ! r in e_key e = key \<and> \<not> busy e \<and> \<not> invalid e) (members st)"

definition release :: "('r \<Rightarrow> bool) \<Rightarrow> nat \<Rightarrow> int \<Rightarrow> nat \<Rightarrow> bool \<Rightarrow> 'r pool \<Rightarrow> 'r pool" where
  "release usable maxIdle now lid discard st =
     (if \<not> lid < length (leases st) \<or> snd (leases st ! lid) then st
      else let r = fst (leases st ! lid); e = heap st ! r;
        bad = (invalid e \<or> discard \<or> \<not> usable (e_resource e));
        st1 = update_entry r (\<lambda>e. e\<lparr>busy := False, invalid := bad, idleSince := now\<rparr>)
          (st\<lparr>leases := (leases st)[lid := (r, True)]\<rparr>) in
      if bad then remove_entry r st1
      else remove_entries (drop maxIdle (newest_first st1 (idle_for (e_key e) st1))) st1)"

definition invalidate :: "(string \<Rightarrow> 'r \<Rightarrow> bool) option \<Rightarrow> 'r pool \<Rightarrow> 'r pool" where
  "invalidate matches st =
     (let selected = filter (\<lambda>r. case matches of None \<Rightarrow> True
           | Some m \<Rightarrow> m (e_key (heap st ! r)) (e_resource (heap st ! r))) (members st);
        st1 = fold (\<lambda>r. update_entry r (\<lambda>e. e\<lparr>invalid := True\<rparr>)) selected (st\<lparr>generation := generation st + 1\<rparr>)
      in remove_entries selected st1)"

definition close_pool :: "'r pool \<Rightarrow> 'r pool" where
  "close_pool st = invalidate None st"

definition pool_stats :: "'r pool \<Rightarrow> nat \<times> nat \<times> nat" where
  "pool_stats st = (let active = length (filter (\<lambda>r. busy (heap st ! r)) (members st)) in
     (length (members st), active, length (members st) - active))"

section \<open>The invariant\<close>

text \<open>
  Names point into the heap and the set holds each once; every resource that was created is in
  the set or was disposed of, and none twice; two open leases hold different entries, which
  are busy; and no key keeps more idle entries than the limit.
\<close>

definition open_refs :: "'r pool \<Rightarrow> nat list" where
  "open_refs st = map fst (filter (\<lambda>l. \<not> snd l) (leases st))"

definition pool_resources :: "'r pool \<Rightarrow> 'r list" where
  "pool_resources st = map (\<lambda>r. e_resource (heap st ! r)) (members st)"

definition accounted :: "'r pool \<Rightarrow> bool" where
  "accounted st \<longleftrightarrow> distinct (members st) \<and> (\<forall>r \<in> set (members st). r < length (heap st)) \<and>
     mset (created st) = mset (pool_resources st) + mset (disposed st)"

definition exclusive :: "'r pool \<Rightarrow> bool" where
  "exclusive st \<longleftrightarrow> distinct (open_refs st) \<and> (\<forall>r \<in> set (open_refs st). r < length (heap st) \<and> busy (heap st ! r))"

definition limited :: "nat \<Rightarrow> 'r pool \<Rightarrow> bool" where
  "limited n st \<longleftrightarrow> (\<forall>key. length (idle_for key st) \<le> n)"

lemma pool_resources_simps [simp]:
  "pool_resources (st\<lparr>leases := l\<rparr>) = pool_resources st" "pool_resources (st\<lparr>generation := g\<rparr>) = pool_resources st"
  "pool_resources (st\<lparr>created := xs\<rparr>) = pool_resources st" "pool_resources (st\<lparr>disposed := xs\<rparr>) = pool_resources st"
  by (simp_all add: pool_resources_def)

lemma remove_entry_simps [simp]:
  "heap (remove_entry r st) = heap st" "leases (remove_entry r st) = leases st"
  "created (remove_entry r st) = created st" "members (remove_entry r st) = remove1 r (members st)"
  "generation (remove_entry r st) = generation st"
  by (simp_all add: remove_entry_def remove1_idem)

lemma remove_entries_simps [simp]:
  "heap (remove_entries rs st) = heap st" "leases (remove_entries rs st) = leases st"
  "created (remove_entries rs st) = created st" "generation (remove_entries rs st) = generation st"
  unfolding remove_entries_def by (induction rs arbitrary: st) simp_all

lemma members_remove_entries:
  "distinct (members st) \<Longrightarrow> members (remove_entries rs st) = filter (\<lambda>r. r \<notin> set rs) (members st)"
  unfolding remove_entries_def
proof (induction rs arbitrary: st)
  case (Cons r rs)
  then show ?case
    by (auto simp: distinct_remove1_removeAll removeAll_filter_not_eq intro!: filter_cong)
qed simp

lemma accounted_remove_entry: "accounted st \<Longrightarrow> accounted (remove_entry r st)"
proof (cases "r \<in> set (members st)")
  case True
  assume ok: "accounted st"
  let ?f = "\<lambda>r. e_resource (heap st ! r)"
  have "mset (map ?f (members st)) = add_mset (?f r) (mset (map ?f (remove1 r (members st))))"
    using True by (metis image_mset_add_mset mset_map mset_remove1 insert_DiffM set_mset_mset)
  then have "mset (pool_resources st) = add_mset (?f r) (mset (pool_resources (remove_entry r st)))"
    by (simp add: pool_resources_def)
  then show ?thesis
    using ok True by (auto simp: accounted_def remove_entry_def notin_set_remove1 dest: in_set_remove1 [THEN iffD1] set_remove1_subset [THEN subsetD])
qed (simp add: remove_entry_def)

lemma accounted_remove_entries: "accounted st \<Longrightarrow> accounted (remove_entries rs st)"
  unfolding remove_entries_def by (induction rs arbitrary: st) (auto intro: accounted_remove_entry)

lemma exclusive_remove [simp]:
  "exclusive (remove_entry r st) = exclusive st" "exclusive (remove_entries rs st) = exclusive st"
  by (simp_all add: exclusive_def open_refs_def)

lemma update_entry_simps [simp]:
  "members (update_entry r f st) = members st" "leases (update_entry r f st) = leases st"
  "created (update_entry r f st) = created st" "disposed (update_entry r f st) = disposed st"
  "generation (update_entry r f st) = generation st" "length (heap (update_entry r f st)) = length (heap st)"
  by (simp_all add: update_entry_def)

lemma update_entry_nth:
  "q < length (heap st) \<Longrightarrow> heap (update_entry r f st) ! q = (if q = r then f (heap st ! q) else heap st ! q)"
  by (simp add: update_entry_def nth_list_update)

lemma accounted_update:
  assumes "\<And>e. e_resource (f e) = e_resource e"
  shows "accounted (update_entry r f st) = accounted st"
proof -
  have "pool_resources (update_entry r f st) = pool_resources st" if "\<forall>q \<in> set (members st). q < length (heap st)"
    using that assms by (auto simp: pool_resources_def update_entry_nth)
  then show ?thesis by (auto simp: accounted_def)
qed

lemma idle_for_remove: "distinct (members st) \<Longrightarrow>
    idle_for key (remove_entries rs st) = filter (\<lambda>r. r \<notin> set rs) (idle_for key st)"
  by (simp add: idle_for_def members_remove_entries conj_commute)

lemma limited_remove_entries:
  "distinct (members st) \<Longrightarrow> limited n st \<Longrightarrow> limited n (remove_entries rs st)"
  unfolding limited_def by (metis idle_for_remove length_filter_le le_trans)

lemma remove_entries_single: "remove_entries [r] st = remove_entry r st"
  by (simp add: remove_entries_def)

lemma limited_remove_entry: "distinct (members st) \<Longrightarrow> limited n st \<Longrightarrow> limited n (remove_entry r st)"
  using limited_remove_entries [of st n "[r]"] by (simp add: remove_entries_single)

lemma idle_for_subset:
  assumes "members st' = members st"
    and "\<And>q e. q \<in> set (members st) \<Longrightarrow> e_key (heap st' ! q) = e_key (heap st ! q) \<and>
      (\<not> busy (heap st' ! q) \<and> \<not> invalid (heap st' ! q) \<longrightarrow> \<not> busy (heap st ! q) \<and> \<not> invalid (heap st ! q))"
  shows "length (idle_for key st') \<le> length (idle_for key st)"
proof -
  have "idle_for key st' = filter (\<lambda>q. \<not> busy (heap st' ! q) \<and> \<not> invalid (heap st' ! q)) (idle_for key st)"
    unfolding idle_for_def filter_filter assms(1) Let_def using assms(2) by (auto intro!: filter_cong)
  then show ?thesis by (simp add: length_filter_le)
qed

text \<open>The invariant of the whole pool.\<close>

definition pool_ok :: "nat \<Rightarrow> 'r pool \<Rightarrow> bool" where
  "pool_ok n st \<longleftrightarrow> accounted st \<and> exclusive st \<and> limited n st"

lemma pool_ok_remove_entries: "pool_ok n st \<Longrightarrow> pool_ok n (remove_entries rs st)"
  unfolding pool_ok_def by (auto intro: accounted_remove_entries limited_remove_entries simp: accounted_def [of st])

lemma candidates_in:
  "candidates usable key st = r # rs \<Longrightarrow>
     r \<in> set (members st) \<and> \<not> busy (heap st ! r) \<and> \<not> invalid (heap st ! r) \<and> e_key (heap st ! r) = key \<and>
     usable (e_resource (heap st ! r))"
proof -
  assume "candidates usable key st = r # rs"
  then have "r \<in> set (candidates usable key st)" by simp
  then show ?thesis by (auto simp: candidates_def newest_first_def Let_def)
qed

lemma pool_ok_lease:
  assumes "pool_ok n st" "r \<in> set (members st)" "\<not> busy (heap st ! r)"
  shows "pool_ok n (lease_entry r st)"
proof -
  let ?st = "update_entry r (\<lambda>e. e\<lparr>busy := True\<rparr>) st"
  have r: "r < length (heap st)" using assms by (auto simp: pool_ok_def accounted_def)
  have "accounted ?st" using assms(1) by (simp add: accounted_update pool_ok_def)
  then have "accounted (lease_entry r st)" by (simp add: accounted_def pool_resources_def lease_entry_def)
  moreover have "exclusive (lease_entry r st)"
    proof -
    have "distinct (open_refs st)" "\<forall>q \<in> set (open_refs st). q < length (heap st) \<and> busy (heap st ! q)"
      using assms(1) by (auto simp: pool_ok_def exclusive_def)
    moreover have "open_refs (lease_entry r st) = open_refs st @ [r]"
      by (simp add: open_refs_def lease_entry_def)
    moreover have "length (heap (lease_entry r st)) = length (heap st)" by (simp add: lease_entry_def)
    moreover have "heap (lease_entry r st) ! q = (if q = r then (heap st ! q)\<lparr>busy := True\<rparr> else heap st ! q)"
      if "q < length (heap st)" for q using that by (simp add: lease_entry_def update_entry_nth)
    ultimately show ?thesis using assms(3) r by (auto simp: exclusive_def)
  qed
  moreover have "limited n (lease_entry r st)"
  proof -
    have "length (idle_for key (lease_entry r st)) \<le> length (idle_for key st)" for key
      by (rule idle_for_subset)
         (use assms(1) in \<open>auto simp: lease_entry_def update_entry_nth pool_ok_def accounted_def\<close>)
    then show ?thesis using assms(1) by (auto simp: pool_ok_def limited_def intro: le_trans)
  qed
  ultimately show ?thesis by (simp add: pool_ok_def)
qed

lemma pool_ok_existing: "pool_ok n st \<Longrightarrow> acquire_existing usable key st = Some st' \<Longrightarrow> pool_ok n st'"
  by (auto simp: acquire_existing_def split: list.splits dest!: candidates_in intro: pool_ok_lease)

lemma pool_ok_created: "pool_ok n st \<Longrightarrow> pool_ok n (fst (acquire_created now key gen res st))"
proof -
  assume ok: "pool_ok n st"
  let ?e = "\<lparr>e_key = key, e_resource = res, busy = False, invalid = False, idleSince = now\<rparr>"
  let ?lost = "st\<lparr>created := created st @ [res], disposed := disposed st @ [res]\<rparr>"
  let ?new = "st\<lparr>created := created st @ [res], heap := heap st @ [?e], members := members st @ [length (heap st)]\<rparr>"
  let ?leased = "lease_entry (length (heap st)) ?new"
  have r: "\<forall>r \<in> set (members st). r < length (heap st)" using ok by (simp add: pool_ok_def accounted_def)
  have "pool_ok n ?lost"
    using ok by (simp add: pool_ok_def accounted_def exclusive_def open_refs_def limited_def idle_for_def)
  moreover have "pool_ok n ?leased"
  proof -
    have "pool_resources ?new = pool_resources st @ [res]"
      using r by (simp add: pool_resources_def nth_append)
    then have "accounted ?new"
      using ok r by (auto simp: pool_ok_def accounted_def)
    then have "accounted (update_entry (length (heap st)) (\<lambda>e. e\<lparr>busy := True\<rparr>) ?new)"
      by (subst accounted_update) simp_all
    then have "accounted ?leased"
      by (simp add: accounted_def pool_resources_def lease_entry_def)
    moreover have "exclusive ?leased"
    proof -
      have "distinct (open_refs st)" "\<forall>q \<in> set (open_refs st). q < length (heap st) \<and> busy (heap st ! q)"
        using ok by (auto simp: pool_ok_def exclusive_def)
      moreover have "open_refs ?leased = open_refs st @ [length (heap st)]"
        by (simp add: open_refs_def lease_entry_def)
      ultimately show ?thesis
        by (auto simp: exclusive_def lease_entry_def update_entry_nth nth_append)
    qed
    moreover have "idle_for k ?leased = idle_for k st" for k
      using r by (auto simp: idle_for_def lease_entry_def update_entry_nth nth_append Let_def intro!: filter_cong)
    ultimately show ?thesis using ok by (simp add: pool_ok_def limited_def)
  qed
  ultimately show ?thesis by (simp add: acquire_created_def Let_def)
qed

lemma open_refs_close:
  assumes "lid < length (leases st)" "\<not> snd (leases st ! lid)" "distinct (open_refs st)"
  shows "distinct (map fst (filter (\<lambda>l. \<not> snd l) ((leases st)[lid := (q, True)]))) \<and>
    set (map fst (filter (\<lambda>l. \<not> snd l) ((leases st)[lid := (q, True)]))) = set (open_refs st) - {fst (leases st ! lid)}"
proof -
  let ?before = "take lid (leases st)" and ?after = "drop (Suc lid) (leases st)"
  have split: "leases st = ?before @ leases st ! lid # ?after"
    using assms(1) by (rule id_take_nth_drop)
  have upd: "(leases st)[lid := (q, True)] = ?before @ (q, True) # ?after"
    using assms(1) by (rule upd_conv_take_nth_drop)
  have "open_refs st = map fst (filter (\<lambda>l. \<not> snd l) ?before) @ fst (leases st ! lid) #
      map fst (filter (\<lambda>l. \<not> snd l) ?after)"
    unfolding open_refs_def using assms(2) by (subst split) simp
  then show ?thesis
    using assms(3) unfolding upd by auto
qed

lemma limited_drop:
  assumes "accounted st" "length (idle_for key st) \<le> n \<or> rs = drop n (newest_first st (idle_for key st))"
    and "\<And>k. k \<noteq> key \<Longrightarrow> length (idle_for k st) \<le> n"
  shows "limited n (remove_entries rs st)"
proof -
  have d: "distinct (members st)" using assms(1) by (simp add: accounted_def)
  have "length (idle_for k (remove_entries rs st)) \<le> n" for k
  proof (cases "k = key \<and> rs = drop n (newest_first st (idle_for key st))")
    case True
    let ?xs = "idle_for key st" and ?ys = "newest_first st (idle_for key st)"
    have "distinct ?ys" using d by (simp add: newest_first_def idle_for_def)
    have "set (filter (\<lambda>r. r \<notin> set rs) ?xs) \<subseteq> set (take n ?ys)"
    proof
      fix x assume x: "x \<in> set (filter (\<lambda>r. r \<notin> set rs) ?xs)"
      then have "x \<in> set ?ys" by (simp add: newest_first_def)
      then have "x \<in> set (take n ?ys @ drop n ?ys)" by simp
      with x True show "x \<in> set (take n ?ys)" by (simp del: append_take_drop_id)
    qed
    then have "card (set (filter (\<lambda>r. r \<notin> set rs) ?xs)) \<le> card (set (take n ?ys))" by (rule card_mono [rotated]) simp
    also have "\<dots> \<le> n" by (rule le_trans [OF card_length]) simp
    finally have "card (set (filter (\<lambda>r. r \<notin> set rs) ?xs)) \<le> n" .
    moreover have "distinct (filter (\<lambda>r. r \<notin> set rs) ?xs)" using d by (simp add: idle_for_def)
    ultimately show ?thesis
      using True by (simp add: idle_for_remove [OF d] distinct_card del: set_filter)
  next
    case False
    then have "length (idle_for k st) \<le> n" using assms(2,3) by metis
    then show ?thesis by (simp add: idle_for_remove [OF d] le_trans [OF length_filter_le])
  qed
  then show ?thesis by (simp add: limited_def)
qed

lemma pool_ok_release: "pool_ok n st \<Longrightarrow> pool_ok n (release usable n now lid discard st)"
proof (cases "\<not> lid < length (leases st) \<or> snd (leases st ! lid)")
  case False
  assume ok: "pool_ok n st"
  let ?r = "fst (leases st ! lid)"
  let ?e = "heap st ! ?r"
  let ?bad = "invalid ?e \<or> discard \<or> \<not> usable (e_resource ?e)"
  let ?st0 = "st\<lparr>leases := (leases st)[lid := (?r, True)]\<rparr>"
  let ?st1 = "update_entry ?r (\<lambda>e. e\<lparr>busy := False, invalid := ?bad, idleSince := now\<rparr>) ?st0"
  have acc0: "accounted ?st0"
    using ok by (simp add: pool_ok_def accounted_def pool_resources_def)
  have acc: "accounted ?st1"
    by (subst accounted_update) (simp_all add: acc0)
  have "set (open_refs ?st1) = set (open_refs st) - {?r} \<and> distinct (open_refs ?st1)"
    using open_refs_close [of lid st ?r] False ok by (simp add: open_refs_def pool_ok_def exclusive_def)
  then have exc: "exclusive ?st1"
    using ok by (auto simp: exclusive_def pool_ok_def update_entry_nth)
  have nth1: "heap ?st1 ! q = (if q = ?r then ?e\<lparr>busy := False, invalid := ?bad, idleSince := now\<rparr> else heap st ! q)"
    if "q \<in> set (members st)" for q
    using that acc0 by (auto simp: accounted_def update_entry_nth)
  have others: "length (idle_for k ?st1) \<le> n" if "k \<noteq> e_key ?e" for k
  proof -
    have "idle_for k ?st1 = idle_for k st"
      unfolding idle_for_def Let_def by (rule filter_cong) (use that nth1 in auto)
    then show ?thesis using ok by (simp add: pool_ok_def limited_def)
  qed
  show ?thesis
  proof (cases ?bad)
    case True
    have "members (remove_entry ?r ?st1) = filter (\<lambda>q. q \<noteq> ?r) (members st)"
      using acc0 by (auto simp: accounted_def distinct_remove1_removeAll removeAll_filter_not_eq intro!: filter_cong)
    then have "idle_for k (remove_entry ?r ?st1) = filter (\<lambda>q. q \<noteq> ?r) (idle_for k st)" for k
      unfolding idle_for_def Let_def by (auto simp: nth1 conj_commute intro!: filter_cong)
    then have "limited n (remove_entry ?r ?st1)"
      using ok unfolding limited_def pool_ok_def by (metis length_filter_le le_trans)
    then show ?thesis
      using False True acc exc
      by (simp add: release_def Let_def pool_ok_def accounted_remove_entry)
  next
    case bad: False
    have "limited n (remove_entries (drop n (newest_first ?st1 (idle_for (e_key ?e) ?st1))) ?st1)"
      by (rule limited_drop [OF acc]) (use others in auto)
    then show ?thesis
      using False bad acc exc
      by (simp add: release_def Let_def pool_ok_def accounted_remove_entries)
  qed
qed (simp add: release_def)

lemma invalidated_fold:
  "members (fold (\<lambda>r. update_entry r (\<lambda>e. e\<lparr>invalid := True\<rparr>)) rs st) = members st \<and>
   leases (fold (\<lambda>r. update_entry r (\<lambda>e. e\<lparr>invalid := True\<rparr>)) rs st) = leases st \<and>
   (accounted (fold (\<lambda>r. update_entry r (\<lambda>e. e\<lparr>invalid := True\<rparr>)) rs st) = accounted st) \<and>
   length (heap (fold (\<lambda>r. update_entry r (\<lambda>e. e\<lparr>invalid := True\<rparr>)) rs st)) = length (heap st) \<and>
   (\<forall>q < length (heap st). heap (fold (\<lambda>r. update_entry r (\<lambda>e. e\<lparr>invalid := True\<rparr>)) rs st) ! q =
      (if q \<in> set rs then (heap st ! q)\<lparr>invalid := True\<rparr> else heap st ! q))"
  by (induction rs arbitrary: st) (auto simp: accounted_update update_entry_nth)

lemma pool_ok_invalidate: "pool_ok n st \<Longrightarrow> pool_ok n (invalidate matches st)"
proof -
  assume ok: "pool_ok n st"
  let ?sel = "filter (\<lambda>r. case matches of None \<Rightarrow> True
           | Some m \<Rightarrow> m (e_key (heap st ! r)) (e_resource (heap st ! r))) (members st)"
  let ?st0 = "st\<lparr>generation := generation st + 1\<rparr>"
  let ?st1 = "fold (\<lambda>r. update_entry r (\<lambda>e. e\<lparr>invalid := True\<rparr>)) ?sel ?st0"
  note f = invalidated_fold [of ?sel ?st0]
  have "accounted ?st0" using ok by (simp add: pool_ok_def accounted_def pool_resources_def)
  then have "accounted ?st1" using f by blast
  moreover have "exclusive ?st1"
    using ok f by (auto simp: pool_ok_def exclusive_def open_refs_def)
  moreover have "limited n ?st1"
  proof -
    have "length (idle_for key ?st1) \<le> length (idle_for key st)" for key
      by (rule idle_for_subset) (use ok f in \<open>auto simp: pool_ok_def accounted_def\<close>)
    then show ?thesis using ok by (auto simp: pool_ok_def limited_def intro: le_trans)
  qed
  ultimately have "pool_ok n ?st1" by (simp add: pool_ok_def)
  then show ?thesis by (simp add: invalidate_def Let_def pool_ok_remove_entries)
qed

section \<open>Runs\<close>

text \<open>
  Anything the users of a pool and its timer do, interleaved at the awaits: \<open>usable\<close> and the
  clock may answer anything at each step. \<open>limit\<close> and \<open>idleMs\<close> are the pool's options.
\<close>

inductive pool_step :: "nat \<Rightarrow> int \<Rightarrow> 'r pool \<Rightarrow> 'r pool \<Rightarrow> bool" for limit idleMs where
  cleans: "pool_step limit idleMs st (pool_cleanup usable idleMs now st)"
| reuses: "acquire_existing usable key st = Some st' \<Longrightarrow> pool_step limit idleMs st st'"
| creates: "pool_step limit idleMs st (fst (acquire_created now key gen res st))"
| releases: "pool_step limit idleMs st (release usable limit now lid discard st)"
| invalidates: "pool_step limit idleMs st (invalidate matches st)"

inductive_cases pool_stepE: "pool_step limit idleMs st st'"

lemma pool_ok_step: "pool_step limit idleMs st st' \<Longrightarrow> pool_ok limit st \<Longrightarrow> pool_ok limit st'"
  by (erule pool_stepE)
     (auto simp: pool_cleanup_def intro: pool_ok_remove_entries pool_ok_existing pool_ok_created pool_ok_release pool_ok_invalidate)

lemma pool_ok_run: "(pool_step limit idleMs)\<^sup>*\<^sup>* st st' \<Longrightarrow> pool_ok limit st \<Longrightarrow> pool_ok limit st'"
  by (induction rule: rtranclp_induct) (auto intro: pool_ok_step)

lemma pool_ok_new: "pool_ok limit new_pool"
  by (simp add: pool_ok_def accounted_def exclusive_def limited_def new_pool_def pool_resources_def open_refs_def idle_for_def)

text \<open>C28: Whatever the users of a pool do, in any order and with any interleaving at the awaits: every
  resource that was created is in the pool or has been disposed of, and never both or twice;
  two open leases hold different entries; and no key keeps more than the limit of idle
  entries.\<close>

theorem pool_accounts_for_every_resource:
  assumes "(pool_step limit idleMs)\<^sup>*\<^sup>* new_pool st"
  shows "mset (created st) = mset (pool_resources st) + mset (disposed st) \<and>
    distinct (open_refs st) \<and> (\<forall>key. length (idle_for key st) \<le> limit)"
  using pool_ok_run [OF assms pool_ok_new]
  by (simp add: pool_ok_def accounted_def exclusive_def limited_def)

text \<open>C29: The pool drains: closing it at any time leaves no entry and disposes of every resource that was
  created so far, leased or not; a resource whose creation was under way is disposed of when
  it arrives; and releasing a lease later disposes of nothing again.\<close>

theorem close_drains_the_pool:
  assumes "(pool_step limit idleMs)\<^sup>*\<^sup>* new_pool st"
  shows "members (close_pool st) = [] \<and> mset (disposed (close_pool st)) = mset (created st) \<and>
    (let late = acquire_created now key (generation st) res (close_pool st) in
       \<not> snd late \<and> members (fst late) = [] \<and> disposed (fst late) = disposed (close_pool st) @ [res]) \<and>
    disposed (release usable limit now lid discard (close_pool st)) = disposed (close_pool st)"
proof -
  let ?c = "close_pool st"
  have ok: "pool_ok limit st" by (rule pool_ok_run [OF assms pool_ok_new])
  then have d: "distinct (members st)" by (simp add: pool_ok_def accounted_def)
  note f = invalidated_fold [of "members st" "st\<lparr>generation := generation st + 1\<rparr>"]
  have m: "members ?c = []"
    using d f by (simp add: close_pool_def invalidate_def Let_def members_remove_entries)
  have fold_created: "created (fold (\<lambda>r. update_entry r (\<lambda>e. e\<lparr>invalid := True\<rparr>)) rs s) = created s"
    "generation (fold (\<lambda>r. update_entry r (\<lambda>e. e\<lparr>invalid := True\<rparr>)) rs s) = generation s"
    for rs :: "nat list" and s :: "'a pool"
    by (induction rs arbitrary: s) simp_all
  have g: "generation ?c = Suc (generation st)" "created ?c = created st"
    by (simp_all add: close_pool_def invalidate_def Let_def fold_created)
  have "pool_ok limit ?c" unfolding close_pool_def by (rule pool_ok_invalidate [OF ok])
  then have "mset (created ?c) = mset (pool_resources ?c) + mset (disposed ?c)"
    by (simp add: pool_ok_def accounted_def)
  then have disp: "mset (disposed ?c) = mset (created st)"
    using m g by (simp add: pool_resources_def)
  have none: "remove_entries rs s = s" "remove_entry r s = s" if "members s = []" for rs r and s :: "'a pool"
    using that by (auto simp: remove_entries_def remove_entry_def intro!: fold_invariant [where P = "(=) s" and Q = "\<lambda>_. True", symmetric])
  have rel: "disposed (release usable limit now lid discard ?c) = disposed ?c"
    using m by (simp add: release_def Let_def none)
  show ?thesis
    using m g disp rel by (simp add: acquire_created_def Let_def)
qed

section \<open>Samples\<close>

definition sample_pool :: "string pool" where
  "sample_pool = release (\<lambda>_. True) 2 70 0 False (fst (acquire_created 50 ''k'' 0 ''c1'' new_pool))"

lemma sample_pool_run: "(pool_step 2 1000)\<^sup>*\<^sup>* new_pool sample_pool"
  unfolding sample_pool_def
  by (meson creates releases rtranclp.rtrancl_into_rtrancl rtranclp.rtrancl_refl)

lemma pool_accounts_for_every_resource_witness:
  "created sample_pool = [''c1''] \<and> mset (pool_resources sample_pool) + mset (disposed sample_pool) = {#''c1''#}"
proof -
  have c: "created sample_pool = [''c1'']" by code_simp
  then show ?thesis
    using pool_accounts_for_every_resource [OF sample_pool_run] by simp
qed

lemma close_drains_the_pool_witness:
  "members sample_pool = [0] \<and> mset (disposed (close_pool sample_pool)) = {#''c1''#}"
proof -
  have c: "created sample_pool = [''c1''] \<and> members sample_pool = [0]" by code_simp
  then show ?thesis
    using close_drains_the_pool [OF sample_pool_run] by simp
qed

end
