(* ===== verification/SqlStatements.thy ===== *)
theory SqlStatements
  imports JsText
begin

text \<open>
  Splitting a script of the database workbench into statements
  (\<open>IM-ops/viron/src/shared/sql-statements.ts\<close>). The scanner walks an index over the text, which
  every round increases; a position is a number of characters.
\<close>

record sql_statement =
  sql :: string
  s_start :: nat
  s_end :: nat

text \<open>
  \<open>trimmedStatement\<close>: the part from \<open>start\<close> to \<open>end\<close> without the white space at its ends, if anything
  is left.
\<close>

definition slice :: "string \<Rightarrow> nat \<Rightarrow> nat \<Rightarrow> string" where
  "slice source a b = take (b - a) (drop a source)"

definition trimmedStatement :: "string \<Rightarrow> nat \<Rightarrow> nat \<Rightarrow> sql_statement option" where
  "trimmedStatement source a b =
     (let part = slice source a b; from = a + length (takeWhile is_space part) in
      if trim part = [] then None
      else Some \<lparr>sql = trim part, s_start = from, s_end = from + length (trim part)\<rparr>)"

section \<open>Scripts with explicit boundaries\<close>

definition boundary_text :: string where
  "boundary_text = ''-- ENVMAN_STATEMENT_BOUNDARY''"

text \<open>\<open>\r?\n\<close> at the head of a text: the length of what it matches.\<close>

definition line_break :: "string \<Rightarrow> nat option" where
  "line_break s = (if starts_with s [CHR 0x0D, newline] then Some 2
     else if starts_with s [newline] then Some 1 else None)"

definition boundary_at :: "string \<Rightarrow> nat option" where
  "boundary_at s = (case line_break s of None \<Rightarrow> None
     | Some n \<Rightarrow> if starts_with (drop n s) boundary_text
         then (case line_break (drop (n + length boundary_text) s) of None \<Rightarrow> None
               | Some m \<Rightarrow> Some (n + length boundary_text + m))
         else None)"

lemma line_break_pos: "line_break s = Some n \<Longrightarrow> 0 < n"
  by (auto simp: line_break_def split: if_splits)

lemma boundary_at_pos: "boundary_at s = Some n \<Longrightarrow> 0 < n"
  by (auto simp: boundary_at_def dest: line_break_pos split: option.splits if_splits)

text \<open>The statements from \<open>start\<close> on, with the search for the next boundary at \<open>index\<close>.\<close>

function split_boundaries :: "string \<Rightarrow> nat \<Rightarrow> nat \<Rightarrow> sql_statement list" where
  "split_boundaries source start index =
     (if index \<ge> length source then (case trimmedStatement source start (length source) of None \<Rightarrow> [] | Some t \<Rightarrow> [t])
      else case boundary_at (drop index source) of
        None \<Rightarrow> split_boundaries source start (index + 1)
      | Some n \<Rightarrow> (case trimmedStatement source start index of None \<Rightarrow> [] | Some t \<Rightarrow> [t]) @
          split_boundaries source (index + n) (index + n))"
  by pat_completeness auto

termination
  by (relation "measure (\<lambda>(source, start, index). length source - index)") (auto dest: boundary_at_pos)

declare split_boundaries.simps [simp del]

section \<open>The scanner\<close>

record sql_scan =
  delimiter :: string
  statementStart :: nat
  quote :: "char option"
  lineComment :: bool
  blockComment :: bool
  found :: "sql_statement list"

text \<open>\<open>/^\s*DELIMITER\s+(\S+)\s*$/i\<close> on one line: the new delimiter.\<close>

definition delimiter_directive :: "string \<Rightarrow> string option" where
  "delimiter_directive line =
     (let rest = trim_start line; tail = drop 9 rest; word = trim tail in
      if to_lower (take 9 rest) = ''delimiter'' \<and> tail \<noteq> [] \<and> is_space (hd tail) \<and> word \<noteq> [] \<and> list_all (\<lambda>c. \<not> is_space c) word
      then Some word else None)"

text \<open>The end of the line a position lies in: the place of its line break, if there is one.\<close>

definition line_end :: "string \<Rightarrow> nat \<Rightarrow> nat option" where
  "line_end source index = (let line = takeWhile (\<lambda>c. c \<noteq> newline) (drop index source) in
     if index + length line < length source then Some (index + length line) else None)"

definition char_at :: "string \<Rightarrow> nat \<Rightarrow> char option" where
  "char_at source i = (if i < length source then Some (source ! i) else None)"

definition add_statement :: "string \<Rightarrow> nat \<Rightarrow> sql_scan \<Rightarrow> sql_scan" where
  "add_statement source b st = (case trimmedStatement source (statementStart st) b of None \<Rightarrow> st
     | Some t \<Rightarrow> st\<lparr>found := found st @ [t]\<rparr>)"

text \<open>
  The head of a round: a directive on a line of its own, when no statement has begun, gives
  the new state and the index behind the line.
\<close>

definition at_line_start :: "string \<Rightarrow> nat \<Rightarrow> bool" where
  "at_line_start source index \<longleftrightarrow> index = 0 \<or> source ! (index - 1) = newline"

definition directive_step :: "string \<Rightarrow> nat \<Rightarrow> sql_scan \<Rightarrow> (nat \<times> sql_scan) option" where
  "directive_step source index st =
     (if quote st = None \<and> \<not> lineComment st \<and> \<not> blockComment st \<and> at_line_start source index then
        (let stop = (case line_end source index of None \<Rightarrow> length source | Some e \<Rightarrow> e) in
         case delimiter_directive (slice source index stop) of None \<Rightarrow> None
         | Some d \<Rightarrow> if trimmedStatement source (statementStart st) index = None
             then (let after = (case line_end source index of None \<Rightarrow> length source | Some e \<Rightarrow> e + 1) in
               Some (stop + 1, st\<lparr>delimiter := d, statementStart := after\<rparr>))
             else None)
      else None)"

text \<open>The rest of a round, on the character at the index: the next index and the new state.\<close>

definition char_step :: "string \<Rightarrow> nat \<Rightarrow> sql_scan \<Rightarrow> nat \<times> sql_scan" where
  "char_step source index st =
     (let c = source ! index; next = char_at source (index + 1) in
      if lineComment st then (index + 1, if c = newline then st\<lparr>lineComment := False\<rparr> else st)
      else if blockComment st then
        (if c = CHR ''*'' \<and> next = Some (CHR ''/'') then (index + 2, st\<lparr>blockComment := False\<rparr>)
         else (index + 1, st))
      else if quote st \<noteq> None then
        (if c = CHR 0x5C \<and> next \<noteq> None then (index + 2, st)
         else if quote st = Some c then
           (if next = quote st then (index + 2, st) else (index + 1, st\<lparr>quote := None\<rparr>))
         else (index + 1, st))
      else if c = CHR ''-'' \<and> next = Some (CHR ''-'') then (index + 2, st\<lparr>lineComment := True\<rparr>)
      else if c = CHR ''#'' then (index + 1, st\<lparr>lineComment := True\<rparr>)
      else if c = CHR ''/'' \<and> next = Some (CHR ''*'') then (index + 2, st\<lparr>blockComment := True\<rparr>)
      else if c = CHR 0x27 \<or> c = CHR 0x22 \<or> c = CHR 0x60 then (index + 1, st\<lparr>quote := Some c\<rparr>)
      else if delimiter st \<noteq> [] \<and> starts_with (drop index source) (delimiter st) then
        (let after = index + length (delimiter st) in
         (after, (add_statement source index st)\<lparr>statementStart := after\<rparr>))
      else (index + 1, st))"

definition sql_step :: "string \<Rightarrow> nat \<Rightarrow> sql_scan \<Rightarrow> nat \<times> sql_scan" where
  "sql_step source index st = (case directive_step source index st of
     Some r \<Rightarrow> r | None \<Rightarrow> char_step source index st)"

lemma if_case: "(b \<Longrightarrow> P x) \<Longrightarrow> (\<not> b \<Longrightarrow> P y) \<Longrightarrow> P (if b then x else y)"
  by simp

lemma line_end_ge: "line_end source index = Some e \<Longrightarrow> index \<le> e \<and> e < length source"
  by (auto simp: line_end_def Let_def split: if_splits)

lemma directive_step_forward:
  "directive_step source index st = Some r \<Longrightarrow> index < length source \<Longrightarrow> index < fst r"
  by (auto simp: directive_step_def Let_def dest: line_end_ge split: if_splits option.splits)

lemma char_step_forward: "index < fst (char_step source index st)"
  unfolding char_step_def Let_def by (intro if_case [where P = "\<lambda>r. index < fst r"]) auto

lemma sql_step_forward: "index < length source \<Longrightarrow> index < fst (sql_step source index st)"
  unfolding sql_step_def using directive_step_forward char_step_forward by (auto split: option.split)

function sql_loop :: "string \<Rightarrow> nat \<Rightarrow> sql_scan \<Rightarrow> sql_scan" where
  "sql_loop source index st =
     (if index \<ge> length source then st
      else sql_loop source (fst (sql_step source index st)) (snd (sql_step source index st)))"
  by pat_completeness auto

termination
  by (relation "measure (\<lambda>p. length (fst p) - fst (snd p))") (auto intro!: diff_less_mono2 sql_step_forward)

declare sql_loop.simps [simp del]

definition sql_start :: sql_scan where
  "sql_start = \<lparr>delimiter = '';'', statementStart = 0, quote = None, lineComment = False, blockComment = False, found = []\<rparr>"

definition parseSqlStatements :: "string \<Rightarrow> sql_statement list" where
  "parseSqlStatements source =
     (if contains_text source boundary_text then split_boundaries source 0 0
      else found (add_statement source (length source) (sql_loop source 0 sql_start)))"

definition splitSqlStatements :: "string \<Rightarrow> string list" where
  "splitSqlStatements source = map sql (parseSqlStatements source)"

definition sqlStatementAtOffset :: "string \<Rightarrow> int \<Rightarrow> string" where
  "sqlStatementAtOffset source offset =
     (let statements = parseSqlStatements source;
        bounded = nat (max 0 (min (int (length source)) offset)) in
      case find (\<lambda>t. s_start t \<le> bounded \<and> bounded \<le> s_end t) statements of
        Some t \<Rightarrow> sql t
      | None \<Rightarrow> (case find (\<lambda>t. s_end t < bounded) (rev statements) of
          Some t \<Rightarrow> sql t
        | None \<Rightarrow> (case statements of t # _ \<Rightarrow> sql t | [] \<Rightarrow> trim source)))"

section \<open>Where statements lie\<close>

text \<open>
  A statement is the trimmed, non-empty text between its ends; the statements of a list come
  one after the other from \<open>lo\<close> to \<open>hi\<close>.
\<close>

definition statement_ok :: "string \<Rightarrow> sql_statement \<Rightarrow> bool" where
  "statement_ok source t \<longleftrightarrow> s_start t < s_end t \<and> s_end t \<le> length source \<and>
     sql t = slice source (s_start t) (s_end t) \<and> trim (sql t) = sql t"

fun placed :: "string \<Rightarrow> nat \<Rightarrow> sql_statement list \<Rightarrow> nat \<Rightarrow> bool" where
  "placed source lo [] hi = (lo \<le> hi)"
| "placed source lo (t # ts) hi = (lo \<le> s_start t \<and> statement_ok source t \<and> placed source (s_end t) ts hi)"

lemma placed_weaken: "placed source lo ts hi \<Longrightarrow> lo' \<le> lo \<Longrightarrow> placed source lo' ts hi"
  by (cases ts) auto

lemma placed_append: "placed source lo ts m \<Longrightarrow> placed source m us hi \<Longrightarrow> placed source lo (ts @ us) hi"
  by (induction ts arbitrary: lo) (auto intro: placed_weaken)

lemma placed_upto: "placed source lo ts m \<Longrightarrow> m \<le> hi \<Longrightarrow> placed source lo ts hi"
  using placed_append [of source lo ts m "[]" hi] by simp

lemma trimmedStatement_ok:
  assumes "trimmedStatement source a b = Some t" "b \<le> length source"
  shows "a \<le> s_start t \<and> statement_ok source t \<and> s_end t \<le> b"
proof -
  let ?part = "slice source a b" and ?n = "length (takeWhile is_space (slice source a b))"
  obtain post where part: "?part = takeWhile is_space ?part @ trim ?part @ post"
    using trim_split by blast
  have t: "t = \<lparr>sql = trim ?part, s_start = a + ?n, s_end = a + ?n + length (trim ?part)\<rparr>" "trim ?part \<noteq> []"
    using assms(1) by (auto simp: trimmedStatement_def Let_def split: if_splits)
  have len: "?n + length (trim ?part) \<le> length ?part"
    using arg_cong [OF part, of length] by simp
  have "a \<le> b"
    using t(2) by (cases "a \<le> b") (auto simp: slice_def)
  have "slice source (a + ?n) (a + ?n + length (trim ?part)) = take (length (trim ?part)) (drop ?n ?part)"
  proof -
    have "length ?part \<le> b - a" by (simp add: slice_def)
    then have "min (length (trim ?part)) (b - a - ?n) = length (trim ?part)" using len by simp
    then show ?thesis unfolding slice_def drop_take drop_drop take_take by (simp add: add.commute)
  qed
  also have "drop ?n ?part = trim ?part @ post"
    by (subst part) simp
  finally have "slice source (a + ?n) (a + ?n + length (trim ?part)) = trim ?part" by simp
  moreover have "length ?part \<le> b - a" by (simp add: slice_def)
  ultimately show ?thesis
    using t len assms(2) \<open>a \<le> b\<close> by (auto simp: statement_ok_def)
qed

lemma placed_trimmed:
  "a \<le> b \<Longrightarrow> b \<le> length source \<Longrightarrow> b \<le> hi \<Longrightarrow>
     placed source a (case trimmedStatement source a b of None \<Rightarrow> [] | Some t \<Rightarrow> [t]) hi"
  by (cases "trimmedStatement source a b") (auto dest: trimmedStatement_ok)

lemma line_break_length: "line_break s = Some n \<Longrightarrow> n \<le> length s"
  by (auto simp: line_break_def starts_with_iff split: if_splits)

lemma boundary_at_length: "boundary_at s = Some n \<Longrightarrow> n \<le> length s"
proof -
  assume "boundary_at s = Some n"
  then obtain k m where k: "n = k + length boundary_text + m"
    "line_break (drop (k + length boundary_text) s) = Some m" "line_break s = Some k"
    by (auto simp: boundary_at_def split: option.splits if_splits)
  then have "m \<le> length (drop (k + length boundary_text) s)"
    by (blast intro: line_break_length)
  moreover have "0 < m" using k(2) by (rule line_break_pos)
  ultimately show ?thesis using k(1) by simp
qed

lemma split_boundaries_placed:
  "start \<le> index \<Longrightarrow> index \<le> length source \<Longrightarrow> placed source start (split_boundaries source start index) (length source)"
proof (induction source start index rule: split_boundaries.induct)
  case (1 source start index)
  show ?case
  proof (cases "index \<ge> length source")
    case True
    then show ?thesis
      using "1.prems" by (simp add: split_boundaries.simps [of source] placed_trimmed)
  next
    case False
    show ?thesis
    proof (cases "boundary_at (drop index source)")
      case None
      then show ?thesis
        using "1.IH"(1) [OF False None] "1.prems" False by (simp add: split_boundaries.simps [of source])
    next
      case (Some n)
      have n: "index + n \<le> length source" using boundary_at_length [OF Some] False by simp
      show ?thesis
        using "1.IH"(2) [OF False Some] "1.prems" n False Some placed_trimmed [of start index source "index + n"]
        by (simp add: split_boundaries.simps [of source start]) (rule placed_append)
    qed
  qed
qed

text \<open>The state of the scanner before the round at \<open>index\<close>.\<close>

definition scan_ok :: "string \<Rightarrow> nat \<Rightarrow> sql_scan \<Rightarrow> bool" where
  "scan_ok source index st \<longleftrightarrow> placed source 0 (found st) (statementStart st) \<and>
     statementStart st \<le> length source \<and> statementStart st \<le> index"

lemma add_statement_placed:
  assumes "scan_ok source index st" "statementStart st \<le> b" "b \<le> length source"
  shows "placed source 0 (found (add_statement source b st)) b"
  using assms placed_trimmed [of "statementStart st" b source b]
    placed_append [of source 0 "found st" "statementStart st" "[the (trimmedStatement source (statementStart st) b)]" b]
  by (cases "trimmedStatement source (statementStart st) b")
     (auto simp: add_statement_def scan_ok_def intro: placed_upto)

lemma starts_with_length: "starts_with s p \<Longrightarrow> length p \<le> length s"
  by (auto simp: starts_with_iff)

lemma char_step_ok:
  assumes "scan_ok source index st" "index < length source"
  shows "scan_ok source (fst (char_step source index st)) (snd (char_step source index st))"
proof -
  have keep: "scan_ok source i st'"
    if "found st' = found st" "statementStart st' = statementStart st" "index \<le> i" for i st'
    using assms(1) that by (simp add: scan_ok_def)
  have del: "scan_ok source i ((add_statement source index st)\<lparr>statementStart := i\<rparr>)"
    if "index \<le> i" "i \<le> length source" for i
    using add_statement_placed [OF assms(1), of index] assms that
    by (auto simp: scan_ok_def intro: placed_upto)
  show ?thesis
    unfolding char_step_def Let_def
    by (intro if_case [where P = "\<lambda>r. scan_ok source (fst r) (snd r)"])
       (use assms(2) in \<open>auto intro!: keep del dest: starts_with_length\<close>)
qed

lemma directive_step_ok:
  assumes "scan_ok source index st" "index < length source" "directive_step source index st = Some r"
  shows "scan_ok source (fst r) (snd r)"
proof -
  let ?after = "case line_end source index of None \<Rightarrow> length source | Some e \<Rightarrow> e + 1"
  have r: "found (snd r) = found st" "statementStart (snd r) = ?after" "?after \<le> fst r"
    using assms(3) by (auto simp: directive_step_def Let_def split: if_splits option.splits)
  have "?after \<le> length source" "index \<le> ?after"
    using assms(2) by (auto dest: line_end_ge split: option.split)
  then show ?thesis
    using assms(1) r by (auto simp: scan_ok_def intro: placed_upto)
qed

lemma sql_step_ok:
  "scan_ok source index st \<Longrightarrow> index < length source \<Longrightarrow>
     scan_ok source (fst (sql_step source index st)) (snd (sql_step source index st))"
  unfolding sql_step_def
  by (cases "directive_step source index st") (auto intro: char_step_ok directive_step_ok)

lemma sql_loop_ok:
  "scan_ok source index st \<Longrightarrow> \<exists>i. scan_ok source i (sql_loop source index st)"
proof (induction source index st rule: sql_loop.induct)
  case (1 source index st)
  then show ?case
    using sql_step_ok [of source index st] by (cases "index \<ge> length source") (auto simp: sql_loop.simps [of source index])
qed

lemma parse_placed: "placed source 0 (parseSqlStatements source) (length source)"
proof (cases "contains_text source boundary_text")
  case True
  then show ?thesis by (simp add: parseSqlStatements_def split_boundaries_placed)
next
  case False
  have "scan_ok source 0 sql_start" by (simp add: scan_ok_def sql_start_def)
  then obtain i where i: "scan_ok source i (sql_loop source 0 sql_start)" using sql_loop_ok by blast
  then have "statementStart (sql_loop source 0 sql_start) \<le> length source" by (simp add: scan_ok_def)
  then show ?thesis
    using add_statement_placed [OF i] False by (simp add: parseSqlStatements_def)
qed

lemma placed_sorted:
  "placed source lo ts hi \<Longrightarrow> sorted_wrt (\<lambda>a b. s_end a \<le> s_start b) ts \<and> (\<forall>t \<in> set ts. statement_ok source t \<and> lo \<le> s_start t \<and> s_end t \<le> hi)"
proof (induction ts arbitrary: lo)
  case (Cons t ts)
  then have IH: "sorted_wrt (\<lambda>a b. s_end a \<le> s_start b) ts" "\<forall>u \<in> set ts. statement_ok source u \<and> s_end t \<le> s_start u \<and> s_end u \<le> hi"
    by auto
  have "s_end t \<le> hi"
  proof (cases ts)
    case (Cons u us)
    with IH(2) show ?thesis by (auto simp: statement_ok_def)
  qed (use Cons.prems in simp)
  then show ?case using IH Cons.prems by (fastforce simp: statement_ok_def)
qed simp

text \<open>C30: Whatever the text (quotes, comments, delimiter directives, explicit boundaries): every
  statement found is a non-empty trimmed slice of the source between its offsets, and the statements
  come one after the other without overlap.\<close>

theorem statements_are_slices_in_order:
  "sorted_wrt (\<lambda>a b. s_end a \<le> s_start b) (parseSqlStatements source) \<and>
   (\<forall>t \<in> set (parseSqlStatements source). s_start t < s_end t \<and> s_end t \<le> length source \<and>
      sql t = slice source (s_start t) (s_end t) \<and> trim (sql t) = sql t)"
  using placed_sorted [OF parse_placed, of source] unfolding statement_ok_def by blast

section \<open>Plain scripts\<close>

text \<open>
  A script without quotes, comments, backslashes and directives, for which splitting has a
  simple meaning: cut at every semicolon, trim, and drop what is empty.
\<close>

definition sql_special :: "char \<Rightarrow> bool" where
  "sql_special c \<longleftrightarrow> c \<in> set [CHR 0x27, CHR 0x22, CHR 0x60, CHR ''-'', CHR ''#'', CHR ''/'', CHR 0x5C]"

definition plain_script :: "string \<Rightarrow> bool" where
  "plain_script source \<longleftrightarrow> list_all (\<lambda>c. \<not> sql_special c) source \<and> \<not> contains_text (to_lower source) ''delimiter''"

definition cut_at_semicolons :: "string \<Rightarrow> string list" where
  "cut_at_semicolons source = filter (\<lambda>t. t \<noteq> []) (map trim (split_on (CHR '';'') source))"

lemma split_on_fresh: "c \<notin> set xs \<Longrightarrow> split_on c xs = [xs]"
  by (induction xs) auto

lemma split_on_first: "c \<notin> set xs \<Longrightarrow> split_on c (xs @ c # ys) = xs # split_on c ys"
  by (induction xs) auto

lemma to_lower_append: "to_lower (a @ b) = to_lower a @ to_lower b"
  by (simp add: to_lower_def)

lemma plain_no_directive:
  assumes "plain_script source"
  shows "delimiter_directive (slice source a b) = None"
proof (rule ccontr)
  let ?line = "slice source a b"
  let ?rest = "trim_start ?line"
  assume "delimiter_directive ?line \<noteq> None"
  then have d: "to_lower (take 9 ?rest) = ''delimiter''"
    by (auto simp: delimiter_directive_def Let_def split: if_splits)
  have line: "source = take a source @ ?line @ drop (b - a) (drop a source)"
    unfolding slice_def by (metis append_take_drop_id)
  have rest: "?line = takeWhile is_space ?line @ take 9 ?rest @ drop 9 ?rest"
    by (simp add: trim_start_def)
  have "\<exists>u v. source = u @ take 9 ?rest @ v"
    using line rest by (metis append.assoc)
  then obtain u v where "source = u @ take 9 ?rest @ v" by blast
  then have "to_lower source = to_lower u @ ''delimiter'' @ to_lower v"
    using d by (metis to_lower_append)
  then have "contains_text (to_lower source) ''delimiter''"
    unfolding contains_text_iff by blast
  with assms show False by (simp add: plain_script_def)
qed

lemma plain_step:
  assumes "plain_script source" "i < length source" "quote st = None" "\<not> lineComment st" "\<not> blockComment st"
    "delimiter st = '';''"
  shows "sql_step source i st = (if source ! i = CHR '';''
     then (i + 1, (add_statement source i st)\<lparr>statementStart := i + 1\<rparr>) else (i + 1, st))"
proof -
  have ns: "\<not> sql_special (source ! i)"
    using assms(1,2) by (simp add: plain_script_def list_all_length)
  have dir: "directive_step source i st = None"
    by (simp add: directive_step_def plain_no_directive [OF assms(1)] Let_def)
  have semi: "starts_with (drop i source) '';'' \<longleftrightarrow> source ! i = CHR '';''"
    using assms(2) by (auto simp: starts_with_def take_Suc hd_drop_conv_nth)
  show ?thesis
    using ns assms semi unfolding sql_step_def dir
    by (simp add: char_step_def Let_def sql_special_def)
qed

lemma trimmed_sql:
  "map sql (case trimmedStatement source a b of None \<Rightarrow> [] | Some t \<Rightarrow> [t]) = filter (\<lambda>t. t \<noteq> []) [trim (slice source a b)]"
  by (simp add: trimmedStatement_def Let_def)

lemma map_sql_add: "map sql (found (add_statement source b st)) =
    map sql (found st) @ filter (\<lambda>t. t \<noteq> []) [trim (slice source (statementStart st) b)]"
  unfolding trimmed_sql [symmetric] by (simp add: add_statement_def split: option.split)

lemma add_statement_simps [simp]:
  "quote (add_statement source b st) = quote st" "lineComment (add_statement source b st) = lineComment st"
  "blockComment (add_statement source b st) = blockComment st" "delimiter (add_statement source b st) = delimiter st"
  by (simp_all add: add_statement_def split: option.split)

lemma slice_to_end: "slice source a (length source) = drop a source"
  by (simp add: slice_def)

lemma slice_snoc: "a \<le> i \<Longrightarrow> i < length source \<Longrightarrow> slice source a (Suc i) = slice source a i @ [source ! i]"
  by (simp add: slice_def Suc_diff_le take_Suc_conv_app_nth)

lemma slice_rest: "a \<le> i \<Longrightarrow> i < length source \<Longrightarrow> drop a source = slice source a i @ source ! i # drop (Suc i) source"
proof -
  assume "a \<le> i" "i < length source"
  then have "drop (i - a) (drop a source) = source ! i # drop (Suc i) source"
    by (simp add: Cons_nth_drop_Suc)
  then show ?thesis unfolding slice_def by (metis append_take_drop_id)
qed

lemma plain_loop:
  assumes "plain_script source"
  shows "quote st = None \<Longrightarrow> \<not> lineComment st \<Longrightarrow> \<not> blockComment st \<Longrightarrow> delimiter st = '';'' \<Longrightarrow>
    statementStart st \<le> i \<Longrightarrow> i \<le> length source \<Longrightarrow> CHR '';'' \<notin> set (slice source (statementStart st) i) \<Longrightarrow>
    map sql (found (add_statement source (length source) (sql_loop source i st))) =
      map sql (found st) @ cut_at_semicolons (drop (statementStart st) source)"
  using assms
proof (induction source i st rule: sql_loop.induct)
  case (1 source i st)
  show ?case
  proof (cases "i \<ge> length source")
    case True
    then have "i = length source" using "1.prems" by simp
    then have "split_on (CHR '';'') (drop (statementStart st) source) = [drop (statementStart st) source]"
      using "1.prems"(7) by (simp add: slice_to_end split_on_fresh)
    with True show ?thesis
      by (simp add: sql_loop.simps [of source i] map_sql_add slice_to_end cut_at_semicolons_def)
  next
    case False
    then have i: "i < length source" by simp
    note step = plain_step [OF "1.prems"(8) i "1.prems"(1-4)]
    have loop: "sql_loop source i st = sql_loop source (fst (sql_step source i st)) (snd (sql_step source i st))"
      using False by (simp add: sql_loop.simps [of source i])
    show ?thesis
    proof (cases "source ! i = CHR '';''")
      case True
      let ?st = "(add_statement source i st)\<lparr>statementStart := i + 1\<rparr>"
      have s: "sql_step source i st = (i + 1, ?st)" using step True by simp
      have "map sql (found (add_statement source (length source) (sql_loop source (i + 1) ?st))) =
          map sql (found ?st) @ cut_at_semicolons (drop (i + 1) source)"
        using "1.IH" [OF False, unfolded s] "1.prems" i by (simp add: slice_def)
      moreover have "cut_at_semicolons (drop (statementStart st) source) =
          filter (\<lambda>t. t \<noteq> []) [trim (slice source (statementStart st) i)] @ cut_at_semicolons (drop (i + 1) source)"
        unfolding cut_at_semicolons_def slice_rest [OF "1.prems"(5) i] True split_on_first [OF "1.prems"(7)] by simp
      ultimately show ?thesis
        unfolding loop s by (simp add: map_sql_add)
    next
      case no: False
      have s: "sql_step source i st = (i + 1, st)" using step no by simp
      show ?thesis
        unfolding loop s using "1.IH" [OF False, unfolded s] "1.prems" i no by (simp add: slice_snoc)
    qed
  qed
qed


section \<open>Samples\<close>

lemma statements_are_slices_in_order_witness:
  "sql (parseSqlStatements ''a; b '' ! 1) = slice ''a; b '' 3 4"
proof -
  have "parseSqlStatements ''a; b '' ! 1 = \<lparr>sql = ''b'', s_start = 3, s_end = 4\<rparr> \<and>
      length (parseSqlStatements ''a; b '') = 2" by code_simp
  then show ?thesis
    using statements_are_slices_in_order [of "''a; b ''"] nth_mem [of 1 "parseSqlStatements ''a; b ''"] by fastforce
qed


end
