(* ===== verification/QueryManager.thy ===== *)
theory QueryManager
  imports SqlStatements Lifecycle AccessControl
begin

text \<open>
  The queries of the database workbench
  (\<open>IM-ops/viron/src/server/database-workbench/query-manager.ts\<close>): jobs run in the background, one
  statement after the other, and can be cancelled at any await. The body of \<open>run\<close> is split at
  its awaits: \<open>phase\<close> is the await a job is at, and \<open>advance\<close> the code from there to the next one.

  The driver's answers are arguments. User messages are constructors of \<open>job_error\<close>. The
  registry of active connections that is touched along the way and the audit log are not kept.
\<close>

section \<open>Results\<close>

text \<open>A value of the driver: what \<open>safeValue\<close> tells apart, and objects and arrays of values.\<close>

datatype db_value = DText string | DInt int | DNull | DBig int | DBuffer "string" | DDate string
  | DObj "(string \<times> db_value) list" | DArr "db_value list"

record db_field =
  f_name :: string
  f_table :: string
  f_type :: "int option"

datatype field_entry = FieldUndef | FieldPacket db_field | FieldList "db_field list"

text \<open>The fields of an answer: \<open>undefined\<close>, or an array of packets or of the fields of each result.\<close>

type_synonym answer_fields = "field_entry list option"

record result_set =
  rs_columns :: "(string \<times> string \<times> int) list"
  rs_rows :: "(string \<times> db_value) list list"
  rs_affected :: int
  rs_insertId :: int
  rs_info :: string
  rs_truncated :: bool
  rs_statement :: "string option"

definition MAX_RESULT_ROWS :: nat where "MAX_RESULT_ROWS = 10000"

fun digit_string :: "nat \<Rightarrow> string" where
  "digit_string n = (if n < 10 then [char_of (48 + n)] else digit_string (n div 10) @ [char_of (48 + n mod 10)])"

definition int_string :: "int \<Rightarrow> string" where
  "int_string i = (if i < 0 then ''-'' @ digit_string (nat (- i)) else digit_string (nat i))"

definition hex_digit :: "nat \<Rightarrow> char" where
  "hex_digit n = (if n < 10 then char_of (48 + n) else char_of (87 + n))"

definition hex_string :: "string \<Rightarrow> string" where
  "hex_string bytes = concat (map (\<lambda>b. [hex_digit (code b div 16), hex_digit (code b mod 16)]) bytes)"

definition safeValue :: "db_value \<Rightarrow> db_value" where
  "safeValue v = (case v of
     DBig i \<Rightarrow> DText (int_string i)
   | DBuffer b \<Rightarrow> DText (''0x'' @ hex_string b)
   | DDate d \<Rightarrow> DText d
   | _ \<Rightarrow> v)"

text \<open>\<open>Object.entries\<close> of an object or an array; a row is never itself a buffer or a date.\<close>

definition safeRow :: "db_value \<Rightarrow> (string \<times> db_value) list" where
  "safeRow row = (case row of
     DObj fs \<Rightarrow> map (\<lambda>(k, v). (k, safeValue v)) fs
   | DArr vs \<Rightarrow> map (\<lambda>(i, v). (digit_string i, safeValue v)) (enumerate 0 vs)
   | _ \<Rightarrow> [(''value'', safeValue row)])"

definition header_int :: "db_value \<Rightarrow> string \<Rightarrow> int" where
  "header_int header k = (case header of
     DObj fs \<Rightarrow> (case map_of fs k of Some (DInt i) \<Rightarrow> i | Some (DBig i) \<Rightarrow> i | _ \<Rightarrow> 0)
   | _ \<Rightarrow> 0)"

definition header_text :: "db_value \<Rightarrow> string \<Rightarrow> string" where
  "header_text header k = (case header of
     DObj fs \<Rightarrow> (case map_of fs k of Some (DText s) \<Rightarrow> s | _ \<Rightarrow> [])
   | _ \<Rightarrow> [])"

definition packets :: "field_entry list \<Rightarrow> db_field list" where
  "packets fs = concat (map (\<lambda>f. case f of FieldPacket p \<Rightarrow> [p] | _ \<Rightarrow> []) fs)"

definition resultSet :: "db_value \<Rightarrow> db_field list option \<Rightarrow> result_set" where
  "resultSet rows flds = (case rows of
     DArr rs \<Rightarrow> \<lparr>rs_columns = map (\<lambda>f. (f_name f, f_table f, case f_type f of None \<Rightarrow> 0 | Some t \<Rightarrow> t))
           (case flds of None \<Rightarrow> [] | Some fs \<Rightarrow> fs),
         rs_rows = map safeRow (take MAX_RESULT_ROWS rs), rs_affected = 0, rs_insertId = 0, rs_info = [],
         rs_truncated = (length rs > MAX_RESULT_ROWS), rs_statement = None\<rparr>
   | _ \<Rightarrow> \<lparr>rs_columns = [], rs_rows = [], rs_affected = header_int rows ''affectedRows'',
         rs_insertId = header_int rows ''insertId'', rs_info = header_text rows ''info'', rs_truncated = False,
         rs_statement = None\<rparr>)"

definition normalizeResults :: "db_value \<Rightarrow> answer_fields \<Rightarrow> result_set list" where
  "normalizeResults rows flds = (case (rows, flds) of
     (DArr rs, Some fs) \<Rightarrow>
       if length rs = length fs \<and> list_ex (\<lambda>f. case f of FieldPacket _ \<Rightarrow> False | _ \<Rightarrow> True) fs
       then map (\<lambda>(r, f). resultSet r (case f of FieldList l \<Rightarrow> Some l | _ \<Rightarrow> None)) (zip rs fs)
       else [resultSet rows (Some (packets fs))]
   | _ \<Rightarrow> [resultSet rows (map_option packets flds)])"

record driver_error =
  err_code :: "string option"
  err_sqlMessage :: string
  err_message :: string
  err_text :: string

datatype job_error = AuthenticationFailed | PortRefused | TimedOut | CancelledByAdmin
  | StatementsFailed nat | Told string

definition databaseError :: "driver_error \<Rightarrow> job_error" where
  "databaseError e =
     (if err_code e = Some ''ER_ACCESS_DENIED_ERROR'' then AuthenticationFailed
      else if err_code e = Some ''ECONNREFUSED'' then PortRefused
      else if err_code e = Some ''ETIMEDOUT'' \<or> err_code e = Some ''PROTOCOL_SEQUENCE_TIMEOUT'' then TimedOut
      else Told (if err_sqlMessage e \<noteq> [] then err_sqlMessage e
        else if err_message e \<noteq> [] then err_message e else err_text e))"

section \<open>Jobs\<close>

datatype query_status = QPending | QRunning | QSuccess | QError | QCancelled

text \<open>The results of a statement, or its error under \<open>continueOnError\<close>.\<close>

datatype job_result = Rows result_set | Failed string job_error

datatype job_phase = Connecting | AwaitQuery | AwaitStatement string "string list" nat | Closing | Finished

record query_job =
  j_id :: string
  j_owner :: string
  j_scope :: "string option"
  j_workspace :: "workspace_type \<times> string"
  j_connection :: string
  j_connectionName :: string
  j_database :: string
  j_sql :: string
  continueOnError :: bool
  j_status :: query_status
  j_createdAt :: int
  startedAt :: "int option"
  j_completedAt :: "int option"
  durationMs :: "int option"
  j_error :: "job_error option"
  resultSets :: "job_result list"
  connected :: bool
  j_phase :: job_phase

record history_entry =
  h_job :: string
  h_status :: query_status
  h_rows :: int
  h_error :: "job_error option"

text \<open>The manager: its jobs, the connections it destroyed under a running query, and the history rows.\<close>

record query_manager =
  jobs :: "(string, query_job) jsmap"
  destroyed :: "string list"
  history :: "history_entry list"

definition isCancelled :: "query_job \<Rightarrow> bool" where
  "isCancelled j \<longleftrightarrow> j_status j = QCancelled"

definition unfinished :: "query_job \<Rightarrow> bool" where
  "unfinished j \<longleftrightarrow> j_status j \<in> {QPending, QRunning}"

section \<open>A run\<close>

datatype answer = Answered db_value answer_fields | Refused driver_error

text \<open>The \<open>catch\<close> block, and the way into \<open>finally\<close>.\<close>

definition catch_error :: "driver_error \<Rightarrow> query_job \<Rightarrow> query_job" where
  "catch_error e j = (if isCancelled j then j else j\<lparr>j_status := QError, j_error := Some (databaseError e)\<rparr>)
     \<lparr>j_phase := Closing\<rparr>"

text \<open>The head of the loop over the statements that are left, or the code behind the loop.\<close>

definition next_statement :: "string list \<Rightarrow> nat \<Rightarrow> query_job \<Rightarrow> query_job" where
  "next_statement rest errors j = (case rest of
     [] \<Rightarrow> j\<lparr>j_status := (if errors > 0 then QError else QSuccess),
          j_error := (if errors > 0 then Some (StatementsFailed errors) else j_error j), j_phase := Closing\<rparr>
   | s # rest' \<Rightarrow> if isCancelled j then j\<lparr>j_phase := Closing\<rparr> else j\<lparr>j_phase := AwaitStatement s rest' errors\<rparr>)"

definition job_statements :: "query_job \<Rightarrow> string list" where
  "job_statements j = (let ss = splitSqlStatements (j_sql j) in if ss = [] then [j_sql j] else ss)"

definition advance :: "int \<Rightarrow> answer \<Rightarrow> query_job \<Rightarrow> query_job" where
  "advance now a j = (case j_phase j of
     Connecting \<Rightarrow> (case a of
       Refused e \<Rightarrow> catch_error e j
     | Answered _ _ \<Rightarrow> (let j' = j\<lparr>connected := True\<rparr> in
         if isCancelled j then j'\<lparr>j_phase := Closing\<rparr>
         else if \<not> continueOnError j then j'\<lparr>j_phase := AwaitQuery\<rparr>
         else next_statement (job_statements j) 0 j'))
   | AwaitQuery \<Rightarrow> (case a of
       Refused e \<Rightarrow> catch_error e j
     | Answered rows flds \<Rightarrow>
         if isCancelled j then j\<lparr>j_phase := Closing\<rparr>
         else j\<lparr>resultSets := map Rows (normalizeResults rows flds), j_status := QSuccess, j_phase := Closing\<rparr>)
   | AwaitStatement s rest errors \<Rightarrow>
       (if isCancelled j then j\<lparr>j_phase := Closing\<rparr>
        else case a of
          Answered rows flds \<Rightarrow> next_statement rest errors
            (j\<lparr>resultSets := resultSets j @ map (\<lambda>r. Rows (r\<lparr>rs_statement := Some s\<rparr>)) (normalizeResults rows flds)\<rparr>)
        | Refused e \<Rightarrow> next_statement rest (errors + 1)
            (j\<lparr>resultSets := resultSets j @ [Failed s (databaseError e)]\<rparr>))
   | Closing \<Rightarrow> j\<lparr>connected := False, j_completedAt := Some now,
         durationMs := Some (now - (case startedAt j of None \<Rightarrow> now | Some t \<Rightarrow> t)), j_phase := Finished\<rparr>
   | Finished \<Rightarrow> j)"

definition row_count :: "query_job \<Rightarrow> int" where
  "row_count j = sum_list (map (\<lambda>r. case r of Rows s \<Rightarrow> int (length (rs_rows s)) + rs_affected s | Failed _ _ \<Rightarrow> 0) (resultSets j))"

definition history_of :: "query_job \<Rightarrow> history_entry" where
  "history_of j = \<lparr>h_job = j_id j, h_status = j_status j, h_rows = row_count j, h_error = j_error j\<rparr>"

definition start_job :: "int \<Rightarrow> query_job \<Rightarrow> query_job" where
  "start_job now j = j\<lparr>j_status := QRunning, startedAt := Some now, j_phase := Connecting\<rparr>"

section \<open>The manager\<close>

datatype create_error = TooManyQueries | NoSuchConnection

definition active_jobs :: "query_manager \<Rightarrow> nat" where
  "active_jobs m = length (filter (\<lambda>(k, j). unfinished j) (jobs m))"

text \<open>\<open>create\<close> up to its query for the connection's name, and from the answer on.\<close>

definition create_begin :: "query_manager \<Rightarrow> create_error option" where
  "create_begin m = (if active_jobs m \<ge> 10 then Some TooManyQueries else None)"

definition create_finish ::
    "int \<Rightarrow> string \<Rightarrow> auth_user \<Rightarrow> string \<Rightarrow> string \<Rightarrow> string \<Rightarrow> string option \<Rightarrow> bool \<Rightarrow> string option \<Rightarrow>
      query_manager \<Rightarrow> (create_error + query_job) \<times> query_manager" where
  "create_finish now qid user connection statement database scope goOn name m = (case name of
     None \<Rightarrow> (Inl NoSuchConnection, m)
   | Some n \<Rightarrow> (let j = start_job now \<lparr>j_id = qid, j_owner = u_id user, j_scope = scope, j_workspace = workspaceParams user,
         j_connection = connection, j_connectionName = n, j_database = database, j_sql = statement,
         continueOnError = goOn, j_status = QPending, j_createdAt = now, startedAt = None, j_completedAt = None,
         durationMs = None, j_error = None, resultSets = [], connected = False, j_phase = Connecting\<rparr> in
       (Inr j, m\<lparr>jobs := map_set qid j (jobs m)\<rparr>)))"

definition owned_job :: "string \<Rightarrow> string \<Rightarrow> string option \<Rightarrow> query_manager \<Rightarrow> query_job option" where
  "owned_job qid owner scope m = (case map_of (jobs m) qid of None \<Rightarrow> None
     | Some j \<Rightarrow> if j_owner j = owner \<and> j_scope j = scope then Some j else None)"

text \<open>\<open>get\<close>: the public view leaves out the connection and the owner.\<close>

definition get_job :: "string \<Rightarrow> string \<Rightarrow> string option \<Rightarrow> query_manager \<Rightarrow>
    (string \<times> query_status \<times> job_error option \<times> job_result list) option" where
  "get_job qid owner scope m =
     map_option (\<lambda>j. (j_id j, j_status j, j_error j, resultSets j)) (owned_job qid owner scope m)"

definition activeCount :: "string \<Rightarrow> string option \<Rightarrow> query_manager \<Rightarrow> nat" where
  "activeCount owner scope m = length (filter (\<lambda>(k, j). j_owner j = owner \<and> j_scope j = scope \<and> unfinished j) (jobs m))"

definition hasActive :: "string \<Rightarrow> string \<Rightarrow> string option \<Rightarrow> query_manager \<Rightarrow> bool" where
  "hasActive owner connection scope m = list_ex (\<lambda>(k, j). j_owner j = owner \<and> j_connection j = connection \<and>
     j_scope j = scope \<and> unfinished j) (jobs m)"

text \<open>What cancelling does to a job, and which connection it destroys.\<close>

definition cancel_job :: "job_error option \<Rightarrow> query_job \<Rightarrow> query_job" where
  "cancel_job why j = (if unfinished j
     then j\<lparr>j_status := QCancelled, j_error := (case why of None \<Rightarrow> j_error j | Some e \<Rightarrow> Some e)\<rparr> else j)"

definition cancel_where :: "(query_job \<Rightarrow> bool) \<Rightarrow> job_error option \<Rightarrow> query_manager \<Rightarrow> query_manager" where
  "cancel_where P why m = m\<lparr>
     jobs := map (\<lambda>(k, j). (k, if P j then cancel_job why j else j)) (jobs m),
     destroyed := destroyed m @ map fst (filter (\<lambda>(k, j). P j \<and> unfinished j \<and> connected j) (jobs m))\<rparr>"

definition cancel_query :: "string \<Rightarrow> string \<Rightarrow> string option \<Rightarrow> query_manager \<Rightarrow> bool \<times> query_manager" where
  "cancel_query qid owner scope m = (case owned_job qid owner scope m of None \<Rightarrow> (False, m)
     | Some j \<Rightarrow> if \<not> unfinished j then (False, m)
         else (True, m\<lparr>jobs := map_set qid (cancel_job (Some CancelledByAdmin) j) (jobs m),
                 destroyed := destroyed m @ (if connected j then [qid] else [])\<rparr>))"

definition closeAll :: "query_manager \<Rightarrow> query_manager" where
  "closeAll m = cancel_where (\<lambda>j. True) None m"

text \<open>An absent scope closes the owner's jobs of every scope.\<close>

definition closeOwner :: "string \<Rightarrow> string option option \<Rightarrow> query_manager \<Rightarrow> query_manager" where
  "closeOwner owner scope m = cancel_where
     (\<lambda>j. j_owner j = owner \<and> (case scope of None \<Rightarrow> True | Some s \<Rightarrow> j_scope j = s)) (Some CancelledByAdmin) m"

definition closeConnection :: "string \<Rightarrow> string \<Rightarrow> string \<Rightarrow> string option \<Rightarrow> query_manager \<Rightarrow> query_manager" where
  "closeConnection owner connection reason scope m = cancel_where
     (\<lambda>j. j_owner j = owner \<and> j_connection j = connection \<and> j_scope j = scope) (Some (Told reason)) m"

definition cleanup_jobs :: "int \<Rightarrow> query_manager \<Rightarrow> query_manager" where
  "cleanup_jobs now m = m\<lparr>jobs := filter (\<lambda>(k, j). case j_completedAt j of None \<Rightarrow> True
     | Some t \<Rightarrow> \<not> t < now - 30 * 60000) (jobs m)\<rparr>"

text \<open>The answer to the await of a job arrives; the last one writes the history.\<close>

definition answer_job :: "int \<Rightarrow> string \<Rightarrow> answer \<Rightarrow> query_manager \<Rightarrow> query_manager" where
  "answer_job now qid a m = (case map_of (jobs m) qid of None \<Rightarrow> m
     | Some j \<Rightarrow> m\<lparr>jobs := map_set qid (advance now a j) (jobs m),
         history := history m @ (if j_phase j = Closing then [history_of j] else [])\<rparr>)"

section \<open>Runs of a job\<close>

text \<open>The statuses a job can have at an await, and the well-formed jobs.\<close>

definition job_ok :: "query_job \<Rightarrow> bool" where
  "job_ok j \<longleftrightarrow>
     (j_phase j \<notin> {Closing, Finished} \<longrightarrow> j_status j \<in> {QRunning, QCancelled}) \<and>
     (j_phase j \<in> {Closing, Finished} \<longrightarrow> \<not> unfinished j) \<and>
     (j_completedAt j \<noteq> None \<longleftrightarrow> j_phase j = Finished)"

inductive job_step :: "query_job \<Rightarrow> query_job \<Rightarrow> bool" where
  answers: "job_ok j \<Longrightarrow> job_step j (advance now a j)"
| cancels: "job_ok j \<Longrightarrow> job_step j (cancel_job why j)"

inductive_cases job_stepE: "job_step j j'"

primrec status_rank :: "query_status \<Rightarrow> nat" where
  "status_rank QPending = 0"
| "status_rank QRunning = 1"
| "status_rank QSuccess = 2"
| "status_rank QError = 2"
| "status_rank QCancelled = 2"

lemma status_rank_bounded: "status_rank q \<le> 2"
  by (cases q) simp_all

lemma status_rank_final: "status_rank q = 2 \<longleftrightarrow> q \<notin> {QPending, QRunning}"
  by (cases q) simp_all

lemmas job_defs = advance_def catch_error_def next_statement_def cancel_job_def isCancelled_def unfinished_def Let_def

lemma job_statements_not_Nil [simp]: "job_statements j \<noteq> []"
  by (simp add: job_statements_def Let_def)

text \<open>A cancelled job ignores whatever its awaits bring, and so does one that has ended.\<close>

lemma advance_ended:
  assumes "job_ok j" "\<not> unfinished j"
  shows "j_status (advance now a j) = j_status j \<and> resultSets (advance now a j) = resultSets j \<and>
    j_error (advance now a j) = j_error j \<and> j_phase (advance now a j) \<in> {Closing, Finished}"
proof (cases "j_phase j")
  case Connecting
  then have "isCancelled j" using assms by (auto simp: job_ok_def unfinished_def isCancelled_def)
  then show ?thesis using Connecting by (cases a) (simp_all add: advance_def catch_error_def Let_def)
next
  case AwaitQuery
  then have "isCancelled j" using assms by (auto simp: job_ok_def unfinished_def isCancelled_def)
  then show ?thesis using AwaitQuery by (cases a) (simp_all add: advance_def catch_error_def)
next
  case (AwaitStatement s rest n)
  then have "isCancelled j" using assms by (auto simp: job_ok_def unfinished_def isCancelled_def)
  then show ?thesis using AwaitStatement by (simp add: advance_def)
qed (simp_all add: advance_def)

lemma next_statement_cases:
  assumes "j_status j = QRunning" "j_completedAt j = None"
  shows "job_ok (next_statement rest n j) \<and> j_status (next_statement rest n j) \<in> {QRunning, QSuccess, QError}"
  using assms by (cases rest) (auto simp: next_statement_def job_ok_def unfinished_def isCancelled_def)

lemma advance_running:
  assumes ok: "job_ok j" and run: "unfinished j"
  shows "job_ok (advance now a j) \<and> (j_status (advance now a j) = QRunning \<or> \<not> unfinished (advance now a j))"
proof -
  have r: "j_status j = QRunning" "j_completedAt j = None" "j_phase j \<notin> {Closing, Finished}" "\<not> isCancelled j"
    using ok run by (auto simp: job_ok_def unfinished_def isCancelled_def)
  have err: "job_ok (catch_error e j) \<and> \<not> unfinished (catch_error e j)" for e
    using r by (simp add: catch_error_def job_ok_def unfinished_def)
  have nxt: "job_ok (next_statement rest n j') \<and>
      (j_status (next_statement rest n j') = QRunning \<or> \<not> unfinished (next_statement rest n j'))"
    if "j_status j' = QRunning" "j_completedAt j' = None" for rest n j'
    using next_statement_cases [OF that, of rest n] by (auto simp: unfinished_def)
  show ?thesis
  proof (cases "j_phase j")
    case Connecting
    then show ?thesis
      using r err nxt by (cases a) (auto simp: advance_def Let_def job_ok_def unfinished_def)
  next
    case AwaitQuery
    then show ?thesis
      using r err by (cases a) (auto simp: advance_def job_ok_def unfinished_def)
  next
    case (AwaitStatement s rest n)
    then show ?thesis
      using r nxt by (cases a) (auto simp: advance_def)
  qed (use r in auto)
qed

lemma advance_ok: "job_ok j \<Longrightarrow> job_ok (advance now a j)"
proof (cases "unfinished j")
  case False
  assume ok: "job_ok j"
  have "j_completedAt (advance now a j) \<noteq> None \<longleftrightarrow> j_phase (advance now a j) = Finished"
    using ok False by (cases "j_phase j"; cases a)
      (auto simp: job_defs job_ok_def split: list.splits)
  then show ?thesis
    using advance_ended [OF ok False, of now a] False by (auto simp: job_ok_def unfinished_def)
qed (use advance_running in blast)

lemma cancel_ok: "job_ok j \<Longrightarrow> job_ok (cancel_job why j)"
  by (auto simp: cancel_job_def job_ok_def unfinished_def)

lemma job_ok_step: "job_step j j' \<Longrightarrow> job_ok j'"
  by (erule job_stepE) (simp_all add: advance_ok cancel_ok)

text \<open>What a job reports: its results and its error.\<close>

definition report :: "query_job \<Rightarrow> job_result list \<times> job_error option" where
  "report j = (resultSets j, j_error j)"

lemma job_step_forward: "job_step j j' \<Longrightarrow> j_status j' = j_status j \<or> status_rank (j_status j) < status_rank (j_status j')"
proof (erule job_stepE)
  fix now a assume j': "j' = advance now a j" and ok: "job_ok j"
  show ?thesis
  proof (cases "unfinished j")
    case True
    then show ?thesis
      using advance_running [OF ok True, of now a] ok j'
      by (cases "j_status j"; cases "j_status j'") (auto simp: unfinished_def job_ok_def)
  qed (use advance_ended [OF ok, of now a] j' in simp)
qed (auto simp: cancel_job_def unfinished_def)

lemma job_step_frozen: "job_step j j' \<Longrightarrow> status_rank (j_status j) = 2 \<Longrightarrow> report j' = report j"
  by (erule job_stepE)
     (auto simp: report_def cancel_job_def unfinished_def status_rank_final dest: advance_ended)

interpretation query_job: frozen_lifecycle job_step j_status status_rank 2 report
  by unfold_locales (auto dest: job_step_forward job_step_frozen simp: status_rank_bounded)

text \<open>C32: A query that was cancelled, or ended otherwise, keeps its status, its results and its error
  whatever the connection and the statements under way still bring and however often it is
  cancelled again.\<close>

theorem cancelled_query_stays_cancelled:
  assumes "job_step\<^sup>*\<^sup>* j j'" "\<not> unfinished j"
  shows "j_status j' = j_status j \<and> resultSets j' = resultSets j \<and> j_error j' = j_error j"
proof -
  have "status_rank (j_status j) = 2" using assms(2) by (simp add: status_rank_final unfinished_def)
  then show ?thesis
    using query_job.settled [OF assms(1)] query_job.part_frozen [OF assms(1)] by (simp add: report_def)
qed

section \<open>Runs end\<close>

text \<open>The awaits a job has at most left.\<close>

definition awaits_left :: "query_job \<Rightarrow> nat" where
  "awaits_left j = (case j_phase j of
     Connecting \<Rightarrow> 2 + (if continueOnError j then length (job_statements j) else 1)
   | AwaitQuery \<Rightarrow> 2
   | AwaitStatement s rest n \<Rightarrow> 2 + length rest
   | Closing \<Rightarrow> 1
   | Finished \<Rightarrow> 0)"

lemma next_statement_left:
  "awaits_left (next_statement rest n j) \<le> 1 + length rest"
  by (cases rest) (simp_all add: next_statement_def awaits_left_def)

lemma advance_left: "awaits_left (advance now a j) \<le> awaits_left j - 1"
proof -
  have c: "awaits_left (catch_error e j) = 1" for e by (simp add: catch_error_def awaits_left_def)
  show ?thesis
    using c next_statement_left
    by (cases "j_phase j"; cases a)
       (auto simp: advance_def awaits_left_def [of j] Let_def awaits_left_def [of "_\<lparr>j_phase := _\<rparr>"]
         intro: le_trans [OF next_statement_left])
qed

lemma answers_left: "awaits_left (fold (\<lambda>(now, a). advance now a) as j) \<le> awaits_left j - length as"
proof (induction as arbitrary: j)
  case (Cons p as)
  obtain now a where p: "p = (now, a)" by force
  show ?case
    using Cons [of "advance now a j"] advance_left [of now a j] p by simp
qed simp

lemma answers_ok: "job_ok j \<Longrightarrow> job_ok (fold (\<lambda>(now, a). advance now a) as j)"
  by (induction as arbitrary: j) (auto intro: advance_ok)

text \<open>C33: Every query ends: once as many awaits have been answered as its statements need (one for the
  connection, one for each statement, one for closing), whatever the answers, the job has a
  final status and its time of completion.\<close>

theorem every_query_ends:
  assumes "job_ok j" "length as \<ge> awaits_left j"
  shows "let j' = fold (\<lambda>(now, a). advance now a) as j in
    j_phase j' = Finished \<and> \<not> unfinished j' \<and> j_completedAt j' \<noteq> None"
proof -
  let ?j = "fold (\<lambda>(now, a). advance now a) as j"
  have "awaits_left ?j = 0" using answers_left [of as j] assms(2) by simp
  then have "j_phase ?j = Finished" by (simp add: awaits_left_def split: job_phase.splits if_splits)
  then show ?thesis using answers_ok [OF assms(1), of as] by (simp add: job_ok_def Let_def)
qed

section \<open>The limit on running queries\<close>

lemma active_jobs_set:
  assumes "map_of (jobs m) q = None" "unfinished j"
  shows "active_jobs (m\<lparr>jobs := map_set q j (jobs m)\<rparr>) = Suc (active_jobs m)"
proof -
  have "length (filter (\<lambda>(k, j). unfinished j) (map_set q j xs)) = Suc (length (filter (\<lambda>(k, j). unfinished j) xs))"
    if "map_of xs q = None" for xs
    using that assms(2) by (induction xs) (auto split: if_splits)
  then show ?thesis using assms(1) by (simp add: active_jobs_def)
qed

lemma created_job:
  assumes "create_finish now q user c sqltext db scope goOn (Some n) m = (r, m')" "map_of (jobs m) q = None"
  shows "\<exists>j. r = Inr j \<and> job_ok j \<and> j_status j = QRunning \<and> active_jobs m' = Suc (active_jobs m) \<and>
    jobs m' = map_set q j (jobs m)"
  using assms by (auto simp: create_finish_def Let_def start_job_def job_ok_def unfinished_def active_jobs_set)

text \<open>C34: The limit of ten queries is checked before the await for the connection's name and not again
  behind it: two creations that overlap both pass the check with nine queries running, and then
  eleven are.\<close>

theorem overlapping_creates_exceed_limit:
  assumes "active_jobs m = 9" "map_of (jobs m) q1 = None" "map_of (jobs m) q2 = None" "q1 \<noteq> q2"
    and "create_finish t1 q1 u1 c1 s1 d1 o1 g1 (Some n1) m = (r1, m1)"
    and "create_finish t2 q2 u2 c2 s2 d2 o2 g2 (Some n2) m1 = (r2, m2)"
  shows "create_begin m = None \<and> active_jobs m2 = 11"
proof -
  obtain j where m1: "active_jobs m1 = 10" "jobs m1 = map_set q1 j (jobs m)"
    using created_job [OF assms(5,2)] assms(1) by auto
  then have "map_of (jobs m1) q2 = None" using assms(3,4) by simp
  then have "active_jobs m2 = 11" using created_job [OF assms(6)] m1(1) by auto
  then show ?thesis using assms(1) by (simp add: create_begin_def)
qed

section \<open>Samples\<close>

definition sample_job :: query_job where
  "sample_job = \<lparr>j_id = ''q'', j_owner = ''u1'', j_scope = None, j_workspace = (Personal, ''w''), j_connection = ''c'',
     j_connectionName = ''db'', j_database = [], j_sql = ''select 1; drop x'', continueOnError = True,
     j_status = QRunning, j_createdAt = 5, startedAt = Some 5, j_completedAt = None, durationMs = None, j_error = None,
     resultSets = [], connected = False, j_phase = Connecting\<rparr>"

definition sample_error :: driver_error where
  "sample_error = \<lparr>err_code = None, err_sqlMessage = ''no table x'', err_message = [], err_text = []\<rparr>"

definition sample_answers :: "(int \<times> answer) list" where
  "sample_answers = [(6, Answered DNull None), (7, Answered (DArr [DObj [(''1'', DInt 1)]]) (Some [])),
     (8, Refused sample_error), (9, Answered DNull None)]"

lemma every_query_ends_witness:
  "j_completedAt (fold (\<lambda>(now, a). advance now a) sample_answers sample_job) \<noteq> None \<and>
   j_error (fold (\<lambda>(now, a). advance now a) sample_answers sample_job) = Some (StatementsFailed 1)"
proof -
  have "job_ok sample_job" by (simp add: job_ok_def sample_job_def unfinished_def)
  moreover have "awaits_left sample_job \<le> length sample_answers" by code_simp
  moreover have "j_error (fold (\<lambda>(now, a). advance now a) sample_answers sample_job) = Some (StatementsFailed 1)" by code_simp
  ultimately show ?thesis using every_query_ends [of sample_job sample_answers] by (simp add: Let_def)
qed

lemma cancelled_query_stays_cancelled_witness:
  "j_status (advance 6 (Answered DNull None) (cancel_job (Some CancelledByAdmin) sample_job)) = QCancelled"
proof -
  let ?j = "cancel_job (Some CancelledByAdmin) sample_job"
  have ok: "job_ok ?j" by (rule cancel_ok) (simp add: job_ok_def sample_job_def unfinished_def)
  have c: "j_status ?j = QCancelled" by code_simp
  have "job_step\<^sup>*\<^sup>* ?j (advance 6 (Answered DNull None) ?j)" by (intro r_into_rtranclp answers ok)
  then have "j_status (advance 6 (Answered DNull None) ?j) = j_status ?j"
    by (rule cancelled_query_stays_cancelled [THEN conjunct1]) (simp add: c unfinished_def)
  then show ?thesis using c by simp
qed

definition nine_jobs :: query_manager where
  "nine_jobs = \<lparr>jobs = map (\<lambda>k. (digit_string k, sample_job)) [0..<9], destroyed = [], history = []\<rparr>"

lemma overlapping_creates_exceed_limit_witness:
  "\<exists>m2. active_jobs m2 = 11 \<and> create_begin nine_jobs = None"
proof -
  let ?u = "\<lparr>u_id = ''u1'', workspace = \<lparr>w_type = Personal, w_id = ''w'', w_role = Owner\<rparr>\<rparr>"
  obtain r1 m1 where 1: "create_finish 1 ''x'' ?u ''c'' ''s'' [] None False (Some ''n'') nine_jobs = (r1, m1)" by force
  obtain r2 m2 where 2: "create_finish 1 ''y'' ?u ''c'' ''s'' [] None False (Some ''n'') m1 = (r2, m2)" by force
  have "active_jobs nine_jobs = 9 \<and> map_of (jobs nine_jobs) ''x'' = None \<and> map_of (jobs nine_jobs) ''y'' = None"
    by code_simp
  then show ?thesis using overlapping_creates_exceed_limit [OF _ _ _ _ 1 2] by auto
qed

end
