(* ===== verification/TabOrder.thy ===== *)
theory TabOrder
  imports Prelude
begin

text \<open>
  The order of pages and tabs (\<open>IM-ops/viron/src/shared/tab-order.ts\<close>).
\<close>

definition reorderIds :: "string list \<Rightarrow> string \<Rightarrow> string \<Rightarrow> bool \<Rightarrow> string list" where
  "reorderIds ids dragged target insertAfter =
     (if dragged = [] \<or> target = [] \<or> dragged = target then ids
      else if dragged \<notin> set ids \<or> target \<notin> set ids then ids
      else let reordered = filter (\<lambda>i. i \<noteq> dragged) ids in
        case find_index (\<lambda>i. i = target) reordered of
          None \<Rightarrow> ids
        | Some t \<Rightarrow> let place = t + (if insertAfter then 1 else 0) in
            take place reordered @ dragged # drop place reordered)"

definition sameOrder :: "string list \<Rightarrow> string list \<Rightarrow> bool" where
  "sameOrder left right \<longleftrightarrow> length left = length right \<and> list_all (\<lambda>i. left ! i = right ! i) [0..<length left]"

definition hasExactIds :: "string list \<Rightarrow> string list \<Rightarrow> bool" where
  "hasExactIds ordered current \<longleftrightarrow> length ordered = length current \<and>
     length (js_uniq current) = length current \<and> length (js_uniq ordered) = length ordered \<and>
     list_all (\<lambda>i. i \<in> set current) ordered"

definition reorderMap :: "(string, 'a) jsmap \<Rightarrow> string list \<Rightarrow> (string, 'a) jsmap option" where
  "reorderMap items ordered =
     (if \<not> hasExactIds ordered (map fst items) then None
      else Some (map (\<lambda>i. (i, the (map_of items i))) ordered))"

definition idAfterClose :: "string list \<Rightarrow> string \<Rightarrow> string \<Rightarrow> string option" where
  "idAfterClose pages active closed =
     (let remaining = filter (\<lambda>i. i \<noteq> closed) pages in
      if active \<noteq> closed \<and> active \<in> set remaining then Some active
      else if remaining = [] then None
      else let closedIndex = (case find_index (\<lambda>i. i = closed) pages of None \<Rightarrow> 0 | Some i \<Rightarrow> i) in
        Some (remaining ! min closedIndex (length remaining - 1)))"

section \<open>Reordering permutes\<close>

lemma sameOrder_iff: "sameOrder xs ys \<longleftrightarrow> xs = ys"
  by (auto simp: sameOrder_def list_all_iff intro!: nth_equalityI)

lemma length_js_uniq_distinct: "length (js_uniq xs) = length xs \<longleftrightarrow> distinct xs"
  by (auto simp: js_uniq_def length_remdups_card_conv card_distinct distinct_card)

lemma hasExactIds_iff: "hasExactIds xs ys \<longleftrightarrow> distinct xs \<and> distinct ys \<and> mset xs = mset ys"
proof
  assume h: "hasExactIds xs ys"
  then have d: "distinct xs" "distinct ys" "set xs \<subseteq> set ys" "length xs = length ys"
    by (auto simp: hasExactIds_def length_js_uniq_distinct list_all_iff)
  then have "card (set xs) = card (set ys)" by (simp add: distinct_card)
  then have "set xs = set ys" using d(3) by (simp add: card_subset_eq)
  then show "distinct xs \<and> distinct ys \<and> mset xs = mset ys"
    using d set_eq_iff_mset_eq_distinct by blast
next
  assume h: "distinct xs \<and> distinct ys \<and> mset xs = mset ys"
  then have "length xs = length ys" "set xs = set ys"
    using mset_eq_length mset_eq_setD by blast+
  with h show "hasExactIds xs ys"
    by (simp add: hasExactIds_def length_js_uniq_distinct list_all_iff)
qed

lemma find_index_split:
  "find_index (\<lambda>i. i = t) xs = Some n \<Longrightarrow> xs = take n xs @ t # drop (Suc n) xs"
  using find_index_Some [of "\<lambda>i. i = t" xs n] id_take_nth_drop [of n xs] by auto

text \<open>Dragging a tab moves exactly that tab: the others keep their order, the tab ends up directly
  before or behind its target, and no id is lost or doubled.\<close>

theorem drag_moves_one_tab:
  assumes "distinct ids" "dragged \<in> set ids" "target \<in> set ids" "dragged \<noteq> target" "dragged \<noteq> []" "target \<noteq> []"
  shows "mset (reorderIds ids dragged target after) = mset ids \<and>
    filter (\<lambda>i. i \<noteq> dragged) (reorderIds ids dragged target after) = filter (\<lambda>i. i \<noteq> dragged) ids \<and>
    (\<exists>a b. reorderIds ids dragged target after = a @ (if after then [target, dragged] else [dragged, target]) @ b)"
proof -
  let ?r = "filter (\<lambda>i. i \<noteq> dragged) ids"
  have t: "target \<in> set ?r" using assms by simp
  then obtain n where n: "find_index (\<lambda>i. i = target) ?r = Some n"
    using find_index_None [of "\<lambda>i. i = target" ?r] by (cases "find_index (\<lambda>i. i = target) ?r") auto
  obtain A B where split: "?r = A @ target # B" and len: "length A = n"
    using find_index_split [OF n] find_index_length [OF n] by (metis length_take min.absorb4)
  let ?place = "n + (if after then 1 else 0)"
  have eq: "reorderIds ids dragged target after = take ?place ?r @ dragged # drop ?place ?r"
    using assms n by (simp add: reorderIds_def Let_def)
  have "mset ids = add_mset dragged (mset ?r)"
  proof -
    have "ids \<noteq> []" using assms(2) by auto
    have "filter (\<lambda>i. i = dragged) ids = [dragged]"
      using assms(1,2) by (induction ids) (auto simp: filter_empty_conv)
    then have "mset ids = mset [dragged] + mset ?r"
      using mset_filter [of "\<lambda>i. i = dragged" ids] multiset_partition [of "mset ids" "\<lambda>i. i = dragged"] by simp
    then show ?thesis by simp
  qed
  moreover have "mset (take ?place ?r @ dragged # drop ?place ?r) = add_mset dragged (mset ?r)"
  proof -
    have "mset (take ?place ?r @ dragged # drop ?place ?r) = add_mset dragged (mset (take ?place ?r @ drop ?place ?r))"
      by (simp del: append_take_drop_id)
    then show ?thesis by (simp only: append_take_drop_id)
  qed
  moreover have "filter (\<lambda>i. i \<noteq> dragged) (take ?place ?r @ dragged # drop ?place ?r) = ?r"
  proof -
    have "filter (\<lambda>i. i \<noteq> dragged) (take ?place ?r) = take ?place ?r" "filter (\<lambda>i. i \<noteq> dragged) (drop ?place ?r) = drop ?place ?r"
      by (auto simp: filter_id_conv dest!: in_set_takeD in_set_dropD)
    then show ?thesis by simp
  qed
  moreover have "\<exists>a b. take ?place ?r @ dragged # drop ?place ?r = a @ (if after then [target, dragged] else [dragged, target]) @ b"
  proof (cases after)
    case True
    have "take (Suc n) ?r = A @ [target]" "drop (Suc n) ?r = B"
      unfolding split using len by auto
    with True show ?thesis by (intro exI [of _ A] exI [of _ B]) simp
  next
    case False
    have "take n ?r = A" "drop n ?r = target # B" unfolding split using len by auto
    with False show ?thesis by (intro exI [of _ A] exI [of _ B]) simp
  qed
  ultimately show ?thesis unfolding eq by simp
qed

lemma reorderMap_keeps:
  assumes "reorderMap items ordered = Some items'"
  shows "map fst items' = ordered \<and> map_of items' = map_of items"
proof -
  have ok: "hasExactIds ordered (map fst items)" and eq: "items' = map (\<lambda>i. (i, the (map_of items i))) ordered"
    using assms by (auto simp: reorderMap_def split: if_splits)
  then have "set ordered = fst ` set items"
    using hasExactIds_iff mset_eq_setD by (metis list.set_map)
  then have dom: "k \<in> set ordered \<longleftrightarrow> map_of items k \<noteq> None" for k
    by (simp add: map_of_eq_None_iff)
  have "map_of items' k = map_of items k" for k
    using dom [of k] unfolding eq by (auto simp: map_of_map_restrict restrict_map_def)
  then show ?thesis using eq by (auto simp: comp_def)
qed

lemma idAfterClose_in: "idAfterClose pages active closed = Some p \<Longrightarrow> p \<in> set pages \<and> p \<noteq> closed"
proof -
  let ?r = "filter (\<lambda>i. i \<noteq> closed) pages"
  assume "idAfterClose pages active closed = Some p"
  then consider "p = active" "active \<in> set ?r" | i where "p = ?r ! min i (length ?r - 1)" "?r \<noteq> []"
    by (auto simp: idAfterClose_def Let_def split: if_splits)
  then have "p \<in> set ?r"
  proof cases
    case (2 i)
    then have "min i (length ?r - 1) < length ?r" by (cases ?r) auto
    with 2 show ?thesis by (metis nth_mem)
  qed simp
  then show ?thesis by simp
qed

section \<open>Samples\<close>

lemma drag_moves_one_tab_witness:
  "reorderIds [''a'', ''b'', ''c''] ''a'' ''b'' True = [''b'', ''a'', ''c''] \<and>
   mset (reorderIds [''a'', ''b'', ''c''] ''a'' ''b'' True) = mset [''a'', ''b'', ''c'']"
  using drag_moves_one_tab [of "[''a'', ''b'', ''c'']" "''a''" "''b''" True] by (simp add: reorderIds_def)

end
