(* ===== verification/DockPanel.thy ===== *)
theory DockPanel
  imports JsText AccessControl
begin

text \<open>
  The panels that float over the desktop client: the dock of active environments
  (\<open>IM-ops/viron/src/shared/active-environment-dock.ts\<close>), the connection quality panel
  (\<open>connection-quality.ts\<close>) and where a connection is executed (\<open>execution-mode.ts\<close>).
  Lengths are whole pixels. \<open>lastActivityAt\<close> is an instant; the code compares its ISO texts,
  whose order is that of the instants.
\<close>

section \<open>Connections and environments\<close>

datatype connection_kind = CkWeb | CkSsh | CkLogs | CkSftp | CkDatabase | CkRedis

datatype execution_mode = ServerMode | LocalMode

record connection_item =
  ci_id :: string
  ci_owner :: string
  ci_type :: connection_kind
  ci_label :: string
  ci_resource :: string
  originEnvironmentId :: "string option"
  ci_environmentIds :: "string list"
  environmentNames :: "string list"
  ci_workspaceType :: workspace_type
  ci_workspaceId :: string
  ci_mode :: execution_mode
  currentExecutionInstance :: bool
  ci_lastActivity :: int
  ci_closing :: bool

record dock_connection =
  dc_id :: string
  dc_type :: connection_kind
  dc_label :: string
  dc_resource :: string
  dc_mode :: execution_mode
  dc_lastActivity :: int
  dc_closing :: bool

record dock_environment =
  de_id :: string
  de_name :: string
  de_lastActivity :: int
  de_connections :: "dock_connection list"

record dock_scope =
  sc_owner :: string
  sc_workspaceType :: workspace_type
  sc_workspaceId :: string
  sc_desktop :: bool
  remembered :: "(string, string) jsmap"

definition environmentIdForConnection :: "connection_item \<Rightarrow> (string, string) jsmap \<Rightarrow> string option" where
  "environmentIdForConnection item rem =
     (if truthy_id (originEnvironmentId item) then originEnvironmentId item
      else case map_of rem (ci_id item) of
        Some r \<Rightarrow> if r \<noteq> [] \<and> r \<in> set (ci_environmentIds item) then Some r
          else if ci_type item \<in> {CkWeb, CkLogs} \<and> length (ci_environmentIds item) = 1
            then Some (hd (ci_environmentIds item)) else None
      | None \<Rightarrow> if ci_type item \<in> {CkWeb, CkLogs} \<and> length (ci_environmentIds item) = 1
            then Some (hd (ci_environmentIds item)) else None)"

definition environmentName :: "connection_item \<Rightarrow> string \<Rightarrow> string" where
  "environmentName item e = (case find_index (\<lambda>i. i = e) (ci_environmentIds item) of
     None \<Rightarrow> e
   | Some i \<Rightarrow> if i < length (environmentNames item) \<and> environmentNames item ! i \<noteq> []
       then environmentNames item ! i else e)"

definition dock_connection_of :: "connection_item \<Rightarrow> dock_connection" where
  "dock_connection_of item = \<lparr>dc_id = ci_id item, dc_type = ci_type item, dc_label = ci_label item,
     dc_resource = ci_resource item, dc_mode = ci_mode item, dc_lastActivity = ci_lastActivity item,
     dc_closing = ci_closing item\<rparr>"

definition in_dock_scope :: "dock_scope \<Rightarrow> connection_item \<Rightarrow> bool" where
  "in_dock_scope sc item \<longleftrightarrow> ci_owner item = sc_owner sc \<and> ci_workspaceType item = sc_workspaceType sc \<and>
     ci_workspaceId item = sc_workspaceId sc \<and>
     \<not> (sc_desktop sc \<and> ci_mode item = LocalMode \<and> \<not> currentExecutionInstance item)"

definition dock_add :: "dock_scope \<Rightarrow> connection_item \<Rightarrow> (string, dock_environment) jsmap \<Rightarrow> (string, dock_environment) jsmap" where
  "dock_add sc item envs =
     (if \<not> in_dock_scope sc item then envs
      else case environmentIdForConnection item (remembered sc) of
        None \<Rightarrow> envs
      | Some e \<Rightarrow> if e = [] then envs else
          let c = dock_connection_of item in
          map_set e (case map_of envs e of
            Some old \<Rightarrow> old\<lparr>de_connections := de_connections old @ [c],
              de_lastActivity := max (de_lastActivity old) (dc_lastActivity c)\<rparr>
          | None \<Rightarrow> \<lparr>de_id = e, de_name = environmentName item e, de_lastActivity = dc_lastActivity c,
              de_connections = [c]\<rparr>) envs)"

definition dockEnvironments :: "connection_item list \<Rightarrow> dock_scope \<Rightarrow> dock_environment list" where
  "dockEnvironments items sc =
     js_sort (\<lambda>l r. de_lastActivity r - de_lastActivity l)
       (map (\<lambda>e. e\<lparr>de_connections := js_sort (\<lambda>l r. dc_lastActivity r - dc_lastActivity l) (de_connections e)\<rparr>)
         (map snd (fold (dock_add sc) items [])))"

definition stackAfterNavigation :: "string list \<Rightarrow> string \<Rightarrow> string \<Rightarrow> string list" where
  "stackAfterNavigation stack previous current =
     (let rest = filter (\<lambda>e. e \<noteq> previous \<and> e \<noteq> current) stack in
      if previous \<noteq> [] \<and> previous \<noteq> current then previous # rest else rest)"

text \<open>The stack first, then the rest, each id once; the last environment of an id is the one found.\<close>

definition visibleEnvironments :: "dock_environment list \<Rightarrow> string list \<Rightarrow> string \<Rightarrow> dock_environment list" where
  "visibleEnvironments envs stack current =
     concat (map (\<lambda>e. case map_of (rev (map (\<lambda>x. (de_id x, x)) envs)) e of
         Some x \<Rightarrow> if e \<noteq> current then [x] else [] | None \<Rightarrow> [])
       (js_uniq (stack @ map de_id envs)))"

section \<open>Geometry\<close>

record point =
  px :: int
  py :: int

record extent =
  ex_width :: int
  ex_height :: int

record rect = point +
  r_width :: int
  r_height :: int

definition pointInsideBounds :: "point \<Rightarrow> rect \<Rightarrow> bool" where
  "pointInsideBounds p b \<longleftrightarrow> px b \<le> px p \<and> px p < px b + r_width b \<and> py b \<le> py p \<and> py p < py b + r_height b"

definition CARD_WIDTH :: int where "CARD_WIDTH = 320"
definition CARD_GAP :: int where "CARD_GAP = 8"
definition LAYER_X :: int where "LAYER_X = 6"
definition LAYER_Y :: int where "LAYER_Y = 10"
definition LAYER_DEPTH :: int where "LAYER_DEPTH = 3"
definition PADDING :: int where "PADDING = 4"
definition MAX_HEIGHT :: int where "MAX_HEIGHT = 640"
definition MARGIN :: int where "MARGIN = 16"

lemmas dock_constants = CARD_WIDTH_def CARD_GAP_def LAYER_X_def LAYER_Y_def LAYER_DEPTH_def PADDING_def
  MAX_HEIGHT_def MARGIN_def

text \<open>\<open>Math.round(width / (16 / 9))\<close>: to the nearest, halves upward.\<close>

definition cardSize :: "extent \<Rightarrow> extent" where
  "cardSize v = (let reserved = MARGIN * 2 + PADDING * 2 + LAYER_X * LAYER_DEPTH;
       w = max 120 (min CARD_WIDTH (ex_width v - reserved)) in
     \<lparr>ex_width = w, ex_height = (18 * w + 16) div 32\<rparr>)"

definition panelSize :: "bool \<Rightarrow> nat \<Rightarrow> extent \<Rightarrow> extent" where
  "panelSize expanded cnt v =
     (let card = cardSize v; n = int cnt; depth = min LAYER_DEPTH (max 0 (n - 1));
        w = ex_width card + PADDING * 2 + LAYER_X * LAYER_DEPTH in
      if \<not> expanded then \<lparr>ex_width = w, ex_height = ex_height card + PADDING * 2 + LAYER_Y * depth\<rparr>
      else \<lparr>ex_width = w,
        ex_height = min MAX_HEIGHT (n * ex_height card + max 0 (n - 1) * CARD_GAP + PADDING * 2)\<rparr>)"

text \<open>The highest coordinate a panel of some length may start at.\<close>

definition last_place :: "int \<Rightarrow> int \<Rightarrow> int" where
  "last_place room len = max MARGIN (room - len - MARGIN)"

definition clampPosition :: "point \<Rightarrow> extent \<Rightarrow> bool \<Rightarrow> nat \<Rightarrow> point" where
  "clampPosition p v expanded cnt = (let s = panelSize expanded cnt v in
     \<lparr>px = min (max MARGIN (px p)) (last_place (ex_width v) (ex_width s)),
      py = min (max MARGIN (py p)) (last_place (ex_height v) (ex_height s))\<rparr>)"

definition snapPosition :: "point \<Rightarrow> extent \<Rightarrow> bool \<Rightarrow> nat \<Rightarrow> point" where
  "snapPosition p v expanded cnt =
     (let c = clampPosition p v expanded cnt; s = panelSize expanded cnt v;
        left = px c; right = ex_width v - px c - ex_width s;
        top = py c; bottom = ex_height v - py c - ex_height s;
        nearest = min (min left right) (min top bottom) in
      if nearest > 72 then c
      else if nearest = left then c\<lparr>px := MARGIN\<rparr>
      else if nearest = right then c\<lparr>px := last_place (ex_width v) (ex_width s)\<rparr>
      else if nearest = top then c\<lparr>py := MARGIN\<rparr>
      else c\<lparr>py := last_place (ex_height v) (ex_height s)\<rparr>)"

section \<open>Where panels end up\<close>

lemma clamp_range:
  "MARGIN \<le> px (clampPosition p v b n) \<and> px (clampPosition p v b n) \<le> last_place (ex_width v) (ex_width (panelSize b n v)) \<and>
   MARGIN \<le> py (clampPosition p v b n) \<and> py (clampPosition p v b n) \<le> last_place (ex_height v) (ex_height (panelSize b n v))"
  by (simp add: clampPosition_def last_place_def Let_def)

lemma snap_range:
  "MARGIN \<le> px (snapPosition p v b n) \<and> px (snapPosition p v b n) \<le> last_place (ex_width v) (ex_width (panelSize b n v)) \<and>
   MARGIN \<le> py (snapPosition p v b n) \<and> py (snapPosition p v b n) \<le> last_place (ex_height v) (ex_height (panelSize b n v))"
  using clamp_range [of p v b n] by (simp add: snapPosition_def last_place_def Let_def)

lemma clamp_inside:
  assumes "MARGIN \<le> px p" "px p \<le> last_place (ex_width v) (ex_width (panelSize b n v))"
    "MARGIN \<le> py p" "py p \<le> last_place (ex_height v) (ex_height (panelSize b n v))"
  shows "clampPosition p v b n = p"
  using assms by (simp add: clampPosition_def Let_def)

text \<open>C36: Clamping and snapping put the panel between the margins of the viewport whenever it fits
  there, wherever it was dragged; what clamping has placed, and what snapping has placed, another
  clamping leaves where it is.\<close>

theorem panel_stays_in_viewport:
  assumes "ex_width (panelSize expanded n v) + 2 * MARGIN \<le> ex_width v"
    and "ex_height (panelSize expanded n v) + 2 * MARGIN \<le> ex_height v"
    and "q = clampPosition p v expanded n \<or> q = snapPosition p v expanded n"
  shows "MARGIN \<le> px q \<and> px q + ex_width (panelSize expanded n v) + MARGIN \<le> ex_width v \<and>
    MARGIN \<le> py q \<and> py q + ex_height (panelSize expanded n v) + MARGIN \<le> ex_height v \<and>
    clampPosition q v expanded n = q"
proof -
  have range: "MARGIN \<le> px q \<and> px q \<le> last_place (ex_width v) (ex_width (panelSize expanded n v)) \<and>
      MARGIN \<le> py q \<and> py q \<le> last_place (ex_height v) (ex_height (panelSize expanded n v))"
    using assms(3) clamp_range [of p v expanded n] snap_range [of p v expanded n] by blast
  then have "clampPosition q v expanded n = q" by (intro clamp_inside) auto
  then show ?thesis using range assms(1,2) by (simp add: last_place_def)
qed

section \<open>Which environments the dock shows\<close>

text \<open>The map the loop builds: its keys are the ids of its environments, each once.\<close>

definition dock_map_ok :: "(string, dock_environment) jsmap \<Rightarrow> bool" where
  "dock_map_ok m \<longleftrightarrow> keys_distinct m \<and> (\<forall>(k, e) \<in> set m. de_id e = k \<and> k \<noteq> [])"

lemma dock_add_ok: "dock_map_ok m \<Longrightarrow> dock_map_ok (dock_add sc item m)"
proof -
  assume ok: "dock_map_ok m"
  have upd: "dock_map_ok (map_set e x m)" if "de_id x = e" "e \<noteq> []" for e x
    using ok that set_map_set [of e x m] by (auto simp: dock_map_ok_def)
  have old: "map_of m e = Some x \<Longrightarrow> de_id x = e" for e x
    using ok by (auto simp: dock_map_ok_def dest!: map_of_SomeD)
  show ?thesis
    using ok by (auto simp: dock_add_def Let_def intro!: upd dest: old split: option.split)
qed

lemma dock_fold_ok: "dock_map_ok m \<Longrightarrow> dock_map_ok (fold (dock_add sc) items m)"
  by (induction items arbitrary: m) (auto intro: dock_add_ok)

text \<open>The connections the map holds are those of the items that belong to the dock.\<close>

definition shown_in_dock :: "dock_scope \<Rightarrow> connection_item \<Rightarrow> bool" where
  "shown_in_dock sc item \<longleftrightarrow> in_dock_scope sc item \<and> truthy_id (environmentIdForConnection item (remembered sc))"

definition map_connections :: "(string, dock_environment) jsmap \<Rightarrow> dock_connection multiset" where
  "map_connections m = sum_list (map (\<lambda>p. mset (de_connections (snd p))) m)"

lemma sum_list_js_sort: "sum_list (map f (js_sort c xs)) = sum_list (map f xs)"
  for f :: "'a \<Rightarrow> 'b::comm_monoid_add"
  by (metis mset_js_sort mset_map sum_mset_sum_list)

lemma map_connections_set:
  "keys_distinct m \<Longrightarrow> map_connections (map_set k x m) +
     (case map_of m k of None \<Rightarrow> {#} | Some y \<Rightarrow> mset (de_connections y)) = mset (de_connections x) + map_connections m"
proof (induction m)
  case Nil
  then show ?case by (simp add: map_connections_def)
next
  case (Cons p m)
  obtain a b where p: "p = (a, b)" by force
  have d: "keys_distinct m" "map_of m a = None"
    using Cons.prems p by (auto simp: keys_distinct_def map_of_eq_None_iff)
  show ?case
  proof (cases "a = k")
    case True
    then show ?thesis using p by (simp add: map_connections_def)
  next
    case False
    have cons: "map_connections ((a, b) # xs) = mset (de_connections b) + map_connections xs" for xs
      by (simp add: map_connections_def)
    show ?thesis
      using Cons.IH [OF d(1)] False p by (simp add: cons add.assoc)
  qed
qed

lemma map_connections_append:
  assumes "keys_distinct m" "map_of m k = Some y" "de_connections x = de_connections y @ [c]"
  shows "map_connections (map_set k x m) = map_connections m + {#c#}"
  using map_connections_set [OF assms(1), of k x] assms(2,3) by simp

lemma map_connections_fresh:
  assumes "keys_distinct m" "map_of m k = None" "de_connections x = [c]"
  shows "map_connections (map_set k x m) = map_connections m + {#c#}"
  using map_connections_set [OF assms(1), of k x] assms(2,3) by simp

lemma dock_add_connections:
  assumes "dock_map_ok m"
  shows "map_connections (dock_add sc item m) =
    map_connections m + (if shown_in_dock sc item then {#dock_connection_of item#} else {#})"
proof -
  have d: "keys_distinct m" using assms by (simp add: dock_map_ok_def)
  show ?thesis
    by (auto simp: dock_add_def shown_in_dock_def truthy_id_def map_connections_append [OF d]
        map_connections_fresh [OF d] dock_connection_of_def Let_def split: option.split)
qed

lemma dock_fold_connections:
  "dock_map_ok m \<Longrightarrow> map_connections (fold (dock_add sc) items m) =
     map_connections m + mset (map dock_connection_of (filter (shown_in_dock sc) items))"
  by (induction items arbitrary: m) (auto simp: dock_add_connections dock_add_ok)


section \<open>Samples\<close>

lemma panel_stays_in_viewport_witness:
  "px (snapPosition \<lparr>px = -50, py = 300\<rparr> \<lparr>ex_width = 1000, ex_height = 800\<rparr> True 2) \<ge> MARGIN"
proof -
  let ?v = "\<lparr>ex_width = 1000, ex_height = 800\<rparr>"
  have "ex_width (panelSize True 2 ?v) + 2 * MARGIN \<le> ex_width ?v \<and>
      ex_height (panelSize True 2 ?v) + 2 * MARGIN \<le> ex_height ?v" by code_simp
  then show ?thesis using panel_stays_in_viewport [of True 2 ?v] by blast
qed

end
