(* ===== verification/ConnectionQuality.thy ===== *)
theory ConnectionQuality
  imports Complex_Main Prelude
begin

text \<open>
  The quality of a connection as its panel shows it
  (\<open>IM-ops/viron/src/shared/connection-quality.ts\<close>) and where each kind of connection is
  executed (\<open>execution-mode.ts\<close>). Latencies are rational numbers of milliseconds; the code
  computes with doubles.
\<close>

section \<open>Quality\<close>

datatype quality_status = QIdle | Good | Fair | Poor | Offline

record probe_sample =
  s_at :: int
  s_latency :: "rat option"

record quality_health =
  q_latency :: "int option"
  q_jitter :: "int option"
  q_failureRate :: rat
  q_status :: quality_status

text \<open>\<open>Math.round\<close>: halves upward.\<close>

definition js_round :: "rat \<Rightarrow> int" where
  "js_round x = \<lfloor>x + 1 / 2\<rfloor>"

definition successes :: "probe_sample list \<Rightarrow> rat list" where
  "successes samples = concat (map (\<lambda>s. case s_latency s of None \<Rightarrow> [] | Some l \<Rightarrow> [l]) samples)"

definition deltas :: "rat list \<Rightarrow> rat list" where
  "deltas ls = map (\<lambda>(a, b). \<bar>b - a\<bar>) (zip ls (tl ls))"

definition mean :: "rat list \<Rightarrow> rat" where
  "mean xs = sum_list xs / of_nat (length xs)"

definition connectionQualityHealth :: "probe_sample list \<Rightarrow> quality_health" where
  "connectionQualityHealth samples =
     (if samples = [] then \<lparr>q_latency = None, q_jitter = None, q_failureRate = 0, q_status = QIdle\<rparr>
      else let ok = successes samples; n = length samples;
        rate = of_nat (n - length ok) / of_nat n in
      if ok = [] then \<lparr>q_latency = None, q_jitter = None, q_failureRate = rate, q_status = Offline\<rparr>
      else let latency = js_round (mean ok); ds = deltas ok;
        jitter = (if ds \<noteq> [] then js_round (mean ds) else 0);
        st = (if rate \<ge> 1 / 5 \<or> latency \<ge> 250 \<or> jitter \<ge> 80 then Poor
              else if rate > 1 / 20 \<or> latency \<ge> 100 \<or> jitter \<ge> 30 then Fair else Good)
      in \<lparr>q_latency = Some latency, q_jitter = Some jitter, q_failureRate = rate, q_status = st\<rparr>)"

definition appendConnectionQualitySample :: "probe_sample list \<Rightarrow> probe_sample \<Rightarrow> nat \<Rightarrow> probe_sample list" where
  "appendConnectionQualitySample samples sample limit = slice_last limit (samples @ [sample])"

record overlay_state =
  ov_bounds :: "int \<times> int \<times> int \<times> int"
  ov_rootOffset :: "int \<times> int"
  ov_panelSize :: "int \<times> int"
  ov_interactionLayer :: bool

definition overlayInteractionState :: "overlay_state \<Rightarrow> overlay_state" where
  "overlayInteractionState st = (let (x, y, w, h) = ov_bounds st; (dx, dy) = ov_rootOffset st; (pw, ph) = ov_panelSize st in
     st\<lparr>ov_interactionLayer := True, ov_bounds := (x + dx, y + dy, pw, ph), ov_rootOffset := (0, 0)\<rparr>)"

lemma length_successes: "length (successes samples) \<le> length samples"
  by (induction samples) (auto simp: successes_def split: option.split)

lemma failure_rate_range: "0 \<le> q_failureRate (connectionQualityHealth samples) \<and> q_failureRate (connectionQualityHealth samples) \<le> 1"
proof (cases "samples = []")
  case False
  then have "(of_nat (length samples - length (successes samples)) :: rat) / of_nat (length samples) \<le> 1"
    by (simp add: divide_le_eq_1)
  with False show ?thesis by (simp add: connectionQualityHealth_def Let_def)
qed (simp add: connectionQualityHealth_def)

lemma offline_iff: "q_status (connectionQualityHealth samples) = Offline \<longleftrightarrow> samples \<noteq> [] \<and> list_all (\<lambda>s. s_latency s = None) samples"
proof -
  have "successes samples = [] \<longleftrightarrow> list_all (\<lambda>s. s_latency s = None) samples"
    by (induction samples) (auto simp: successes_def split: option.split)
  then show ?thesis by (simp add: connectionQualityHealth_def Let_def)
qed

section \<open>Where connections are executed\<close>

datatype desktop_mode = LocalDesktop | ServerDesktop

datatype execution_target = OnLocal | OnServerTarget | Unavailable

record local_capabilities =
  l_web :: bool
  l_ssh :: bool
  l_sftp :: bool
  l_logs :: bool
  l_database :: bool
  l_redis :: bool
  l_inspection :: bool

record forwarding_capabilities =
  fw_enabled :: bool
  fw_web :: bool
  fw_ssh :: bool
  fw_sftp :: bool
  fw_logs :: bool
  fw_database :: bool
  fw_redis :: bool

record execution_targets =
  t_web :: execution_target
  t_ssh :: execution_target
  t_sftp :: execution_target
  t_logs :: execution_target
  t_database :: execution_target
  t_redis :: execution_target
  t_inspectionSsh :: execution_target
  t_inspectionDatabase :: execution_target
  t_inspectionRedis :: execution_target

definition localTarget :: "bool \<Rightarrow> execution_target" where
  "localTarget enabled = (if enabled then OnLocal else Unavailable)"

text \<open>An absent capability counts as a missing one: \<open>has None f\<close> is false.\<close>

definition has :: "'a option \<Rightarrow> ('a \<Rightarrow> bool) \<Rightarrow> bool" where
  "has v f = (case v of None \<Rightarrow> False | Some x \<Rightarrow> f x)"

definition resolveExecutionTargets ::
    "desktop_mode \<Rightarrow> local_capabilities option \<Rightarrow> forwarding_capabilities option \<Rightarrow> execution_targets" where
  "resolveExecutionTargets mode loc fw =
     (if mode \<noteq> ServerDesktop then
        \<lparr>t_web = localTarget (has loc l_web), t_ssh = localTarget (has loc l_ssh), t_sftp = localTarget (has loc l_sftp),
          t_logs = localTarget (has loc l_logs), t_database = localTarget (has loc l_database),
          t_redis = localTarget (has loc l_redis),
          t_inspectionSsh = localTarget (has loc l_inspection \<and> has loc l_ssh),
          t_inspectionDatabase = localTarget (has loc l_inspection \<and> has loc l_database),
          t_inspectionRedis = localTarget (has loc l_inspection \<and> has loc l_redis)\<rparr>
      else let on = has fw fw_enabled;
        server = (\<lambda>f. if on \<and> has fw f then OnServerTarget else Unavailable) in
        \<lparr>t_web = (if on \<and> has fw fw_web then OnServerTarget else localTarget (has loc l_web)),
          t_ssh = server fw_ssh, t_sftp = server fw_sftp, t_logs = server fw_logs,
          t_database = server fw_database, t_redis = server fw_redis,
          t_inspectionSsh = server fw_ssh, t_inspectionDatabase = server fw_database,
          t_inspectionRedis = server fw_redis\<rparr>)"

text \<open>In server mode only web pages may fall back to the desktop.\<close>

lemma server_mode_never_local:
  "OnLocal \<notin> set [t_ssh r, t_sftp r, t_logs r, t_database r, t_redis r, t_inspectionSsh r,
      t_inspectionDatabase r, t_inspectionRedis r]"
  if "r = resolveExecutionTargets ServerDesktop loc fw"
  using that by (simp add: resolveExecutionTargets_def Let_def)

end
