(* ===== verification/Shortcuts.thy ===== *)
theory Shortcuts
  imports JsText
begin

text \<open>
  The keyboard shortcuts of the desktop client
  (\<open>IM-ops/viron/src/shared/keyboard-shortcuts.ts\<close>): the text of a binding, recording one from
  a key press, and finding the action of a key press. The platform is whether it is \<open>darwin\<close>;
  the case of a letter is that of ASCII. Labels are left out.
\<close>

datatype action = AppSettings | AppAgentQuickInput | WorkspaceSearch | WorkspaceNew | WorkspaceDesign
  | WorkspaceClose | WorkspaceSave | WorkspaceRefresh | WorkspaceExecute

record shortcut_definition =
  sd_id :: action
  sd_default :: string
  sd_darwin :: "string option"
  sd_win32 :: "string option"

record shortcut_input =
  in_key :: string
  in_meta :: bool
  in_control :: bool
  in_alt :: bool
  in_shift :: bool

definition SHORTCUT_DEFINITIONS :: "shortcut_definition list" where
  "SHORTCUT_DEFINITIONS = [
    \<lparr>sd_id = AppSettings, sd_default = ''Mod+,'', sd_darwin = None, sd_win32 = None\<rparr>,
    \<lparr>sd_id = AppAgentQuickInput, sd_default = ''Alt+Space'', sd_darwin = Some ''Alt+Space'', sd_win32 = Some ''Mod+Shift+A''\<rparr>,
    \<lparr>sd_id = WorkspaceSearch, sd_default = ''Mod+F'', sd_darwin = None, sd_win32 = None\<rparr>,
    \<lparr>sd_id = WorkspaceNew, sd_default = ''Mod+N'', sd_darwin = None, sd_win32 = None\<rparr>,
    \<lparr>sd_id = WorkspaceDesign, sd_default = ''Mod+D'', sd_darwin = None, sd_win32 = None\<rparr>,
    \<lparr>sd_id = WorkspaceClose, sd_default = ''Mod+W'', sd_darwin = None, sd_win32 = None\<rparr>,
    \<lparr>sd_id = WorkspaceSave, sd_default = ''Mod+S'', sd_darwin = None, sd_win32 = None\<rparr>,
    \<lparr>sd_id = WorkspaceRefresh, sd_default = ''Mod+R'', sd_darwin = None, sd_win32 = None\<rparr>,
    \<lparr>sd_id = WorkspaceExecute, sd_default = ''Mod+Enter'', sd_darwin = None, sd_win32 = None\<rparr>]"

definition modifierKeys :: "string list" where
  "modifierKeys = [''Alt'', ''Control'', ''Meta'', ''Shift'']"

definition reservedBindings :: "string list" where
  "reservedBindings = [''Mod+A'', ''Mod+C'', ''Mod+H'', ''Mod+M'', ''Mod+Q'', ''Mod+V'', ''Mod+X'', ''Mod+Z'',
    ''Mod+Shift+Z'', ''Mod+Shift+W'', ''Mod+Space'', ''Mod+Tab'', ''Alt+Tab'']"

text \<open>\<open>normalizedKey\<close>; the no-break space arrives as its two UTF-8 bytes.\<close>

definition normalizedKey :: "string \<Rightarrow> string" where
  "normalizedKey k =
     (if k = '' '' \<or> k = [CHR 0xC2, CHR 0xA0] then ''Space''
      else if k = ''Esc'' then ''Escape''
      else case k of [] \<Rightarrow> [] | c # s \<Rightarrow> upper_char c # s)"

definition shortcutDefaultBinding :: "bool \<Rightarrow> shortcut_definition \<Rightarrow> string" where
  "shortcutDefaultBinding darwin d = (case (if darwin then sd_darwin d else sd_win32 d) of
     Some b \<Rightarrow> b | None \<Rightarrow> sd_default d)"

type_synonym bindings = "action \<Rightarrow> string"

definition defaultShortcutBindings :: "bool \<Rightarrow> bindings" where
  "defaultShortcutBindings darwin a = (case find (\<lambda>d. sd_id d = a) SHORTCUT_DEFINITIONS of
     Some d \<Rightarrow> shortcutDefaultBinding darwin d | None \<Rightarrow> [])"

text \<open>\<open>/^F(?:[1-9]|1[0-2])$/\<close>.\<close>

definition function_keys :: "string list" where
  "function_keys = [''F1'', ''F2'', ''F3'', ''F4'', ''F5'', ''F6'', ''F7'', ''F8'', ''F9'', ''F10'', ''F11'', ''F12'']"

definition modifier_names :: "string list" where
  "modifier_names = [''Mod'', ''Ctrl'', ''Meta'', ''Shift'', ''Alt'']"

definition parseShortcutBinding :: "string \<Rightarrow> (string list \<times> string) option" where
  "parseShortcutBinding b = (let parts = filter (\<lambda>p. p \<noteq> []) (split_on (CHR ''+'') b) in
     if parts = [] then None
     else let modifiers = butlast parts; key = last parts in
       if \<not> list_all (\<lambda>p. p \<in> set modifier_names) modifiers then None
       else if modifiers = [] \<and> key \<notin> set function_keys then None
       else Some (modifiers, key))"

definition pressed_modifiers :: "bool \<Rightarrow> shortcut_input \<Rightarrow> string list" where
  "pressed_modifiers darwin i =
     (if (if darwin then in_meta i else in_control i) then [''Mod''] else []) @
     (if (if darwin then in_control i else in_meta i) then [if darwin then ''Ctrl'' else ''Meta''] else []) @
     (if in_shift i then [''Shift''] else []) @ (if in_alt i then [''Alt''] else [])"

definition shortcutBindingFromInput :: "bool \<Rightarrow> shortcut_input \<Rightarrow> string option" where
  "shortcutBindingFromInput darwin i = (let key = normalizedKey (in_key i); ms = pressed_modifiers darwin i in
     if key = [] \<or> key \<in> set modifierKeys then None
     else if ms = [] \<and> key \<notin> set function_keys then None
     else Some (join_with ''+'' (ms @ [key])))"

text \<open>\<open>sanitizeShortcutOverrides\<close> on an object whose keys are known actions and others.\<close>

definition sanitizeShortcutOverrides :: "(action option \<times> string option) list \<Rightarrow> (action, string) jsmap" where
  "sanitizeShortcutOverrides entries = fold (\<lambda>(a, b) m. case (a, b) of
      (Some act, Some s) \<Rightarrow> if s = [] \<or> parseShortcutBinding s \<noteq> None then map_set act s m else m
    | _ \<Rightarrow> m) entries []"

definition effectiveShortcutBindings :: "bool \<Rightarrow> (action option \<times> string option) list \<Rightarrow> bindings" where
  "effectiveShortcutBindings darwin overrides a =
     (case map_of (sanitizeShortcutOverrides overrides) a of Some s \<Rightarrow> s | None \<Rightarrow> defaultShortcutBindings darwin a)"

definition shortcutOverridesFromBindings :: "bool \<Rightarrow> bindings \<Rightarrow> (action \<times> string) list" where
  "shortcutOverridesFromBindings darwin bs = concat (map (\<lambda>d.
     if bs (sd_id d) = defaultShortcutBindings darwin (sd_id d) then [] else [(sd_id d, bs (sd_id d))]) SHORTCUT_DEFINITIONS)"

definition shortcutActionForInput :: "bindings \<Rightarrow> bool \<Rightarrow> shortcut_input \<Rightarrow> action option" where
  "shortcutActionForInput bs darwin i = (case shortcutBindingFromInput darwin i of None \<Rightarrow> None
     | Some b \<Rightarrow> map_option sd_id (find (\<lambda>d. bs (sd_id d) = b) SHORTCUT_DEFINITIONS))"

definition shortcutConflict :: "bindings \<Rightarrow> action \<Rightarrow> string \<Rightarrow> action option" where
  "shortcutConflict bs a b = (if b = [] then None
     else map_option sd_id (find (\<lambda>d. sd_id d \<noteq> a \<and> bs (sd_id d) = b) SHORTCUT_DEFINITIONS))"

datatype shortcut_error = NeedsModifier | Reserved | ReservedByWindows

definition shortcutValidationError :: "bool \<Rightarrow> string \<Rightarrow> shortcut_error option" where
  "shortcutValidationError win32 b =
     (if b = [] then None
      else if parseShortcutBinding b = None then Some NeedsModifier
      else if b \<in> set reservedBindings then Some Reserved
      else if win32 \<and> b = ''Alt+Space'' then Some ReservedByWindows
      else None)"

section \<open>What is recorded can be read\<close>

lemma split_on_word: "c \<notin> set w \<Longrightarrow> split_on c w = [w]"
  by (induction w) auto

lemma split_on_word_first: "c \<notin> set w \<Longrightarrow> split_on c (w @ c # s) = w # split_on c s"
  by (induction w) auto

lemma split_join: "ws \<noteq> [] \<Longrightarrow> \<forall>w \<in> set ws. c \<notin> set w \<Longrightarrow> split_on c (join_with [c] ws) = ws"
proof (induction ws)
  case (Cons w ws)
  then show ?case by (cases ws) (auto simp: split_on_word split_on_word_first)
qed simp

lemma pressed_modifiers_known:
  "m \<in> set (pressed_modifiers darwin i) \<Longrightarrow> m \<in> set modifier_names \<and> CHR ''+'' \<notin> set m \<and> m \<noteq> []"
  by (auto simp: pressed_modifiers_def modifier_names_def split: if_splits)

text \<open>C37: What is recorded from a key press reads back as the modifiers that were pressed and the key,
  so it passes validation up to the reserved combinations, unless the key is the plus sign.\<close>

theorem recorded_binding_parses:
  assumes "shortcutBindingFromInput darwin i = Some b" "CHR ''+'' \<notin> set (normalizedKey (in_key i))"
  shows "parseShortcutBinding b = Some (pressed_modifiers darwin i, normalizedKey (in_key i)) \<and>
    (shortcutValidationError win32 b = None \<or> b \<in> set reservedBindings \<or> b = ''Alt+Space'')"
proof -
  let ?k = "normalizedKey (in_key i)" and ?ms = "pressed_modifiers darwin i"
  have b: "b = join_with ''+'' (?ms @ [?k])" and k: "?k \<noteq> []" and f: "?ms \<noteq> [] \<or> ?k \<in> set function_keys"
    using assms(1) by (auto simp: shortcutBindingFromInput_def Let_def split: if_splits)
  have "split_on (CHR ''+'') b = ?ms @ [?k]"
    unfolding b by (rule split_join) (use assms(2) pressed_modifiers_known in auto)
  moreover have "filter (\<lambda>p. p \<noteq> []) (?ms @ [?k]) = ?ms @ [?k]"
    unfolding filter_id_conv using pressed_modifiers_known k by auto
  moreover have "list_all (\<lambda>p. p \<in> set modifier_names) ?ms"
    using pressed_modifiers_known by (auto simp: list_all_iff)
  ultimately have p: "parseShortcutBinding b = Some (?ms, ?k)"
    using f by (simp add: parseShortcutBinding_def Let_def)
  moreover have "b \<noteq> []" using p by (auto simp: parseShortcutBinding_def Let_def)
  ultimately show ?thesis by (simp add: shortcutValidationError_def)
qed

text \<open>A shortcut on the plus sign is recorded but never accepted.\<close>

lemma plus_key_is_refused:
  "map_option (shortcutValidationError True)
     (shortcutBindingFromInput False \<lparr>in_key = ''+'', in_meta = False, in_control = True, in_alt = False, in_shift = False\<rparr>) =
   Some (Some NeedsModifier)"
  by code_simp

text \<open>An action found for a key press is bound to it, and none is found only when no action is.\<close>

lemma shortcutAction_bound:
  "shortcutActionForInput bs darwin i = Some a \<Longrightarrow> shortcutBindingFromInput darwin i = Some (bs a)"
  by (auto simp: shortcutActionForInput_def find_Some_iff split: option.splits)

lemma sanitized_overrides_parse:
  "map_of (sanitizeShortcutOverrides entries) a = Some s \<Longrightarrow> s = [] \<or> parseShortcutBinding s \<noteq> None"
proof -
  have keep: "\<forall>a s. map_of m a = Some s \<longrightarrow> s = [] \<or> parseShortcutBinding s \<noteq> None \<Longrightarrow>
      map_of (fold (\<lambda>(a, b) m. case (a, b) of
        (Some act, Some s) \<Rightarrow> if s = [] \<or> parseShortcutBinding s \<noteq> None then map_set act s m else m
      | _ \<Rightarrow> m) entries m) a = Some s \<Longrightarrow> s = [] \<or> parseShortcutBinding s \<noteq> None" for m
  proof (induction entries arbitrary: m)
    case (Cons p entries)
    show ?case
      by (rule Cons.IH [OF _ Cons.prems(2) [unfolded fold_Cons comp_def]])
         (use Cons.prems(1) in \<open>auto split: prod.splits option.splits if_splits\<close>)
  qed simp
  show "map_of (sanitizeShortcutOverrides entries) a = Some s \<Longrightarrow> s = [] \<or> parseShortcutBinding s \<noteq> None"
    unfolding sanitizeShortcutOverrides_def by (erule keep [rotated]) simp
qed

section \<open>Samples\<close>

lemma recorded_binding_parses_witness:
  "parseShortcutBinding ''Mod+Shift+F'' = Some ([''Mod'', ''Shift''], ''F'')"
proof -
  let ?i = "\<lparr>in_key = ''f'', in_meta = True, in_control = False, in_alt = False, in_shift = True\<rparr>"
  have "shortcutBindingFromInput True ?i = Some ''Mod+Shift+F''" "CHR ''+'' \<notin> set (normalizedKey (in_key ?i))"
    "pressed_modifiers True ?i = [''Mod'', ''Shift'']" "normalizedKey (in_key ?i) = ''F''"
    by code_simp+
  then show ?thesis using recorded_binding_parses [of True ?i "''Mod+Shift+F''"] by simp
qed

end
