(* ===== verification/JsNumber.thy ===== *)
theory JsNumber
  imports Complex_Main JsText
begin

text \<open>
  \<open>Number(s)\<close> of a string, as the code uses it: the value of a numeric literal with white
  space around it, 0 for a blank string, and \<open>None\<close> for \<open>NaN\<close> and the infinities. The value is
  exact; the language rounds it to a double, which changes no integer up to \<open>2 ^ 53\<close>.
\<close>

definition digit_value :: "char \<Rightarrow> nat" where
  "digit_value c = (if is_digit c then code c - 48 else if is_upper c then code c - 55 else code c - 87)"

definition radix_value :: "nat \<Rightarrow> string \<Rightarrow> rat" where
  "radix_value base s = of_nat (foldl (\<lambda>n c. base * n + digit_value c) 0 s)"

definition radix_literal :: "string \<Rightarrow> rat option" where
  "radix_literal s = (let p = to_lower (take 2 s); d = drop 2 s in
     if p = ''0x'' \<and> d \<noteq> [] \<and> list_all (\<lambda>c. is_digit c \<or> is_lower_hex (lower_char c)) d then Some (radix_value 16 d)
     else if p = ''0o'' \<and> d \<noteq> [] \<and> list_all (\<lambda>c. is_digit c \<and> c \<notin> set ''89'') d then Some (radix_value 8 d)
     else if p = ''0b'' \<and> d \<noteq> [] \<and> list_all (\<lambda>c. c \<in> set ''01'') d then Some (radix_value 2 d)
     else None)"

definition signed :: "string \<Rightarrow> bool \<times> string" where
  "signed s = (if starts_with s ''-'' then (True, tl s) else if starts_with s ''+'' then (False, tl s) else (False, s))"

definition exponent_of :: "string \<Rightarrow> int option" where
  "exponent_of s = (if s = [] then Some 0
     else if to_lower (take 1 s) = ''e'' then
       (let r = signed (tl s) in
        if snd r \<noteq> [] \<and> list_all is_digit (snd r)
        then Some ((if fst r then -1 else 1) * int (digits_value (snd r))) else None)
     else None)"

definition decimal_literal :: "string \<Rightarrow> rat option" where
  "decimal_literal s = (let r = signed s;
       whole = takeWhile is_digit (snd r); t = dropWhile is_digit (snd r);
       frac = (if starts_with t ''.'' then takeWhile is_digit (tl t) else []);
       u = (if starts_with t ''.'' then dropWhile is_digit (tl t) else t) in
     if whole = [] \<and> frac = [] then None
     else case exponent_of u of None \<Rightarrow> None
     | Some e \<Rightarrow> Some ((if fst r then -1 else 1) *
         (of_nat (digits_value (whole @ frac)) / 10 ^ length frac) *
         (if e \<ge> 0 then 10 ^ nat e else 1 / 10 ^ nat (- e))))"

definition js_number :: "string \<Rightarrow> rat option" where
  "js_number text = (let s = trim text in
     if s = [] then Some 0
     else case radix_literal s of Some v \<Rightarrow> Some v | None \<Rightarrow> decimal_literal s)"

text \<open>\<open>Number.isInteger(Number(s))\<close> with its value; an absent string is \<open>NaN\<close>.\<close>

definition js_integer :: "string option \<Rightarrow> int option" where
  "js_integer text = (case text of None \<Rightarrow> None
     | Some s \<Rightarrow> (case js_number s of None \<Rightarrow> None
         | Some q \<Rightarrow> if of_int \<lfloor>q\<rfloor> = q then Some \<lfloor>q\<rfloor> else None))"

end
