(* ===== verification/RedisAccess.thy ===== *)
theory RedisAccess
  imports JsNumber
begin

text \<open>
  Which Redis commands the monitor lets through and how much they may read
  (\<open>IM-ops/viron/src/shared/redis.ts\<close>). Arguments are their UTF-8 text. The encoding of replies
  for the wire (base64) is left out.
\<close>

datatype command_access = ReadAccess | WriteAccess | DenyAccess

definition READ_COMMANDS :: "string list" where
  "READ_COMMANDS = [''DBSIZE'', ''EXISTS'', ''GET'', ''HEXISTS'', ''HGET'', ''HLEN'', ''HMGET'', ''HSCAN'',
    ''INFO'', ''LLEN'', ''LPOS'', ''LRANGE'', ''MEMORY'', ''MGET'', ''OBJECT'', ''PING'', ''PTTL'', ''SCAN'',
    ''SCARD'', ''SISMEMBER'', ''SLOWLOG'', ''SMISMEMBER'', ''SSCAN'', ''STRLEN'', ''TIME'', ''TTL'', ''TYPE'',
    ''XLEN'', ''XRANGE'', ''XREVRANGE'', ''ZCARD'', ''ZMSCORE'', ''ZRANGE'', ''ZRANGEBYSCORE'', ''ZRANK'',
    ''ZREVRANGE'', ''ZREVRANGEBYSCORE'', ''ZREVRANK'', ''ZSCAN'', ''ZSCORE'']"

definition WRITE_COMMANDS :: "string list" where
  "WRITE_COMMANDS = [''COPY'', ''DEL'', ''EXPIRE'', ''EXPIREAT'', ''HDEL'', ''HINCRBY'', ''HINCRBYFLOAT'', ''HSET'', ''LINSERT'',
    ''LPOP'', ''LPUSH'', ''LREM'', ''LSET'', ''MSET'', ''PERSIST'', ''PEXPIRE'', ''PEXPIREAT'', ''RENAME'', ''RENAMENX'',
    ''RPOP'', ''RPUSH'', ''SADD'', ''SET'', ''SREM'', ''UNLINK'', ''XADD'', ''XDEL'', ''ZADD'', ''ZINCRBY'', ''ZREM'']"

definition READ_ONLY_SUBCOMMANDS :: "(string \<times> string list) list" where
  "READ_ONLY_SUBCOMMANDS = [
    (''MEMORY'', [''USAGE'', ''STATS'', ''DOCTOR'', ''MALLOC-STATS'']),
    (''OBJECT'', [''ENCODING'', ''FREQ'', ''IDLETIME'', ''REFCOUNT'']),
    (''SLOWLOG'', [''GET'', ''LEN''])]"

definition arg :: "string list \<Rightarrow> nat \<Rightarrow> string option" where
  "arg args i = (if i < length args then Some (args ! i) else None)"

definition redisCommandAccess :: "string \<Rightarrow> string list \<Rightarrow> command_access" where
  "redisCommandAccess command args = (let name = to_upper (trim command) in
     if name \<in> set READ_COMMANDS then
       (case map_of READ_ONLY_SUBCOMMANDS name of
          None \<Rightarrow> ReadAccess
        | Some subs \<Rightarrow> if to_upper (case arg args 0 of None \<Rightarrow> [] | Some a \<Rightarrow> a) \<in> set subs then ReadAccess else DenyAccess)
     else if name \<in> set WRITE_COMMANDS then WriteAccess
     else DenyAccess)"

section \<open>Bounds\<close>

datatype bound_error = OnlyByIndex | TooManyMembers | NeedsCount | TooManyKeys | TooManyPairs | BadCount | NeedsLimit

definition within_thousand :: "int option \<Rightarrow> bool" where
  "within_thousand n = (case n of None \<Rightarrow> False | Some c \<Rightarrow> 1 \<le> c \<and> c \<le> 1000)"

definition word_index :: "string \<Rightarrow> string list \<Rightarrow> nat option" where
  "word_index w args = find_index (\<lambda>a. to_upper a = w) args"

text \<open>The number that stands some places behind a word, and \<open>NaN\<close> when the word is missing.\<close>

definition number_after :: "string \<Rightarrow> nat \<Rightarrow> string list \<Rightarrow> int option" where
  "number_after w d args = (case word_index w args of None \<Rightarrow> None | Some i \<Rightarrow> js_integer (arg args (i + d)))"

definition range_ok :: "string list \<Rightarrow> bool" where
  "range_ok args = (case (js_integer (arg args 1), js_integer (arg args 2)) of
     (Some start, Some stop) \<Rightarrow> \<not> (stop < start \<or> stop - start + 1 > 1000)
   | _ \<Rightarrow> False)"

definition validateRedisBoundedRead :: "string \<Rightarrow> string list \<Rightarrow> bound_error option" where
  "validateRedisBoundedRead command args = (let name = to_upper command in
     if name = ''ZRANGE'' \<and> list_ex (\<lambda>a. to_upper a \<in> set [''BYSCORE'', ''BYLEX'', ''LIMIT'']) args then Some OnlyByIndex
     else if name \<in> set [''LRANGE'', ''ZRANGE'', ''ZREVRANGE''] \<and> \<not> range_ok args then Some TooManyMembers
     else if name \<in> set [''XRANGE'', ''XREVRANGE''] \<and> \<not> within_thousand (number_after ''COUNT'' 1 args) then Some NeedsCount
     else if name \<in> set [''MGET'', ''EXISTS''] \<and> length args > 100 then Some TooManyKeys
     else if name \<in> set [''HMGET'', ''SMISMEMBER'', ''ZMSCORE''] \<and> length args > 101 then Some TooManyMembers
     else if name \<in> set [''DEL'', ''UNLINK''] \<and> length args > 100 then Some TooManyKeys
     else if name = ''MSET'' \<and> (length args mod 2 \<noteq> 0 \<or> length args > 200) then Some TooManyPairs
     else if name \<in> set [''HSCAN'', ''SSCAN'', ''ZSCAN'', ''SCAN''] \<and> word_index ''COUNT'' args \<noteq> None \<and>
       \<not> within_thousand (number_after ''COUNT'' 1 args) then Some BadCount
     else if name \<in> set [''ZRANGEBYSCORE'', ''ZREVRANGEBYSCORE''] \<and> \<not> within_thousand (number_after ''LIMIT'' 2 args)
       then Some NeedsLimit
     else if name \<in> set [''LPOP'', ''RPOP''] \<and> arg args 1 \<noteq> None \<and> \<not> within_thousand (js_integer (arg args 1)) then Some BadCount
     else if name = ''SLOWLOG'' \<and> map_option to_upper (arg args 0) = Some ''GET'' \<and>
       \<not> within_thousand (js_integer (arg args 1)) then Some BadCount
     else if name = ''MEMORY'' \<and> map_option to_upper (arg args 0) = Some ''USAGE'' \<and> word_index ''SAMPLES'' args \<noteq> None \<and>
       \<not> within_thousand (number_after ''SAMPLES'' 1 args) then Some BadCount
     else None)"

section \<open>The report of INFO\<close>

text \<open>\<open>raw.split(/\r?\n/)\<close>: a carriage return before a line break belongs to the break.\<close>

definition drop_cr :: "string \<Rightarrow> string" where
  "drop_cr l = (if l \<noteq> [] \<and> last l = CHR 0x0D then butlast l else l)"

definition info_lines :: "string \<Rightarrow> string list" where
  "info_lines raw = (let ls = split_on newline raw in map drop_cr (butlast ls) @ [last ls])"

type_synonym info = "(string, (string, string) jsmap) jsmap"

definition info_line :: "string \<Rightarrow> string \<times> info \<Rightarrow> string \<times> info" where
  "info_line line st = (let sec = fst st; m = snd st;
       opened = (\<lambda>s m. if map_of m s = None then map_set s [] m else m) in
     if line = [] then st
     else if starts_with line ''# '' then (let s = to_lower (trim (drop 2 line)) in (s, opened s m))
     else let k = takeWhile (\<lambda>c. c \<noteq> CHR '':'') line in
       if k = line \<or> k = [] then st
       else let m' = opened sec m in
         (sec, map_set sec (map_set k (drop (length k + 1) line) (the (map_of m' sec))) m'))"

definition parseRedisInfo :: "string \<Rightarrow> info" where
  "parseRedisInfo raw = snd (fold info_line (info_lines raw) (''default'', []))"

section \<open>What a range may return\<close>

text \<open>
  The documented answer of Redis to a range of indexes on a list of some length: negative
  indexes count from the end, and what lies outside the list is left out.
\<close>

definition redis_range_length :: "int \<Rightarrow> int \<Rightarrow> int \<Rightarrow> int" where
  "redis_range_length len start stop =
     (let s = (if start < 0 then max 0 (len + start) else start);
        e = (if stop < 0 then len + stop else min stop (len - 1)) in max 0 (e - s + 1))"

lemma redis_range_bound: "start \<le> stop \<Longrightarrow> redis_range_length len start stop \<le> stop - start + 1"
  by (auto simp: redis_range_length_def Let_def)

text \<open>C38: A range command that passes the check returns at most a thousand members, whatever the length
  of the list and also with indexes from the end.\<close>

theorem ranges_are_bounded:
  assumes "validateRedisBoundedRead command args = None" "to_upper command \<in> set [''LRANGE'', ''ZRANGE'', ''ZREVRANGE'']"
  shows "\<exists>start stop. js_integer (arg args 1) = Some start \<and> js_integer (arg args 2) = Some stop \<and>
    (\<forall>len. redis_range_length len start stop \<le> 1000)"
proof -
  have "range_ok args"
    using assms by (auto simp: validateRedisBoundedRead_def Let_def split: if_splits)
  then obtain start stop where s: "js_integer (arg args 1) = Some start" "js_integer (arg args 2) = Some stop"
    "start \<le> stop" "stop - start + 1 \<le> 1000"
    by (auto simp: range_ok_def split: option.splits)
  have "\<forall>len. redis_range_length len start stop \<le> 1000"
    by (intro allI order_trans [OF redis_range_bound [OF s(3)] s(4)])
  with s show ?thesis by blast
qed

text \<open>No command is both read and written, and a command the code does not list is denied.\<close>

lemma access_tables_disjoint: "list_all (\<lambda>c. c \<notin> set WRITE_COMMANDS) READ_COMMANDS"
  by code_simp

lemma ranges_are_bounded_witness:
  "js_integer (arg [''k'', ''-5'', ''1e1''] 1) = Some (-5) \<and> (\<forall>len. redis_range_length len (-5) 10 \<le> 1000)"
proof -
  have v: "validateRedisBoundedRead ''lrange'' [''k'', ''-5'', ''1e1''] = None" by code_simp
  have u: "to_upper ''lrange'' \<in> set [''LRANGE'', ''ZRANGE'', ''ZREVRANGE'']" by code_simp
  have i: "js_integer (arg [''k'', ''-5'', ''1e1''] 1) = Some (-5)" by code_simp
  have j: "js_integer (arg [''k'', ''-5'', ''1e1''] 2) = Some 10" by code_simp
  show ?thesis using ranges_are_bounded [OF v u] i j by auto
qed

end
