(* ===== verification/MonitorAlerts.thy ===== *)
theory MonitorAlerts
  imports JsNumber
begin

text \<open>
  Alerts on monitored hosts and services
  (\<open>IM-ops/viron/src/server/monitor-alerts.ts\<close> and \<open>shared/monitor-alerts.ts\<close>): what a sample says
  about each rule of an environment (the observations), and the rule states that turn
  observations into alerts. An alert is raised by two breaches in a row and ends with two
  recoveries in a row.

  The tables are part of the state; rows of joins are arguments in the order the query asks
  for. Measured values are rationals, \<open>None\<close> when they are not finite; instants are milliseconds.
  SHA-256, \<open>JSON.parse\<close> and the random identifiers are arguments.
\<close>

section \<open>Settings\<close>

datatype rule_type = RHostOffline | RCpu | RMemory | RDiskUsage | RTemperature | RDiskAdded | RDiskMissing
  | RDeploymentStatus

datatype target_type = THost | TDeployment

record alert_settings =
  enabled :: bool
  hostOfflineEnabled :: bool
  cpuEnabled :: bool
  cpuThreshold :: rat
  memoryEnabled :: bool
  memoryThreshold :: rat
  diskUsageEnabled :: bool
  diskUsageThreshold :: rat
  temperatureEnabled :: bool
  temperatureThreshold :: rat
  deploymentStatusEnabled :: bool
  diskMissingEnabled :: bool
  excludedDisks :: "string list"
  consecutiveSamples :: nat

definition defaultMonitorAlertSettings :: alert_settings where
  "defaultMonitorAlertSettings = \<lparr>enabled = False, hostOfflineEnabled = True, cpuEnabled = True, cpuThreshold = 90,
     memoryEnabled = True, memoryThreshold = 90, diskUsageEnabled = True, diskUsageThreshold = 90,
     temperatureEnabled = True, temperatureThreshold = 80, deploymentStatusEnabled = True, diskMissingEnabled = True,
     excludedDisks = [], consecutiveSamples = 2\<rparr>"

text \<open>A settings row; its numbers as \<open>Number\<close> reads them.\<close>

record settings_row =
  row_enabled :: rat
  row_hostOffline :: rat
  row_cpu :: rat
  row_cpuThreshold :: rat
  row_memory :: rat
  row_memoryThreshold :: rat
  row_diskUsage :: rat
  row_diskUsageThreshold :: rat
  row_temperature :: rat
  row_temperatureThreshold :: rat
  row_deploymentStatus :: rat
  row_diskMissing :: rat
  row_excludedDisks :: string

definition parseExcludedDisks :: "(string \<Rightarrow> jsval option) \<Rightarrow> string \<Rightarrow> string list" where
  "parseExcludedDisks parse v = (case parse v of
     Some (JArr items) \<Rightarrow> take 512 (concat (map (\<lambda>i. case i of JStr s \<Rightarrow> [s] | _ \<Rightarrow> []) items))
   | _ \<Rightarrow> [])"

definition monitorAlertSettingsFromRow :: "(string \<Rightarrow> jsval option) \<Rightarrow> settings_row option \<Rightarrow> alert_settings" where
  "monitorAlertSettingsFromRow parse row = (case row of
     None \<Rightarrow> defaultMonitorAlertSettings\<lparr>excludedDisks := []\<rparr>
   | Some r \<Rightarrow> \<lparr>enabled = (row_enabled r \<noteq> 0), hostOfflineEnabled = (row_hostOffline r \<noteq> 0),
       cpuEnabled = (row_cpu r \<noteq> 0), cpuThreshold = row_cpuThreshold r,
       memoryEnabled = (row_memory r \<noteq> 0), memoryThreshold = row_memoryThreshold r,
       diskUsageEnabled = (row_diskUsage r \<noteq> 0), diskUsageThreshold = row_diskUsageThreshold r,
       temperatureEnabled = (row_temperature r \<noteq> 0), temperatureThreshold = row_temperatureThreshold r,
       deploymentStatusEnabled = (row_deploymentStatus r \<noteq> 0), diskMissingEnabled = (row_diskMissing r \<noteq> 0),
       excludedDisks = parseExcludedDisks parse (row_excludedDisks r), consecutiveSamples = 2\<rparr>)"

section \<open>Samples\<close>

record disk =
  d_path :: string
  d_device :: "string option"
  d_filesystem :: "string option"
  d_usedPercent :: "rat option"

record temperature =
  t_chip :: string
  t_feature :: "string option"
  t_celsius :: rat

record host_snapshot =
  hostname :: string
  cpuUsedPercent :: "rat option"
  memoryUsedPercent :: "rat option"
  disks :: "disk list"
  temperatures :: "temperature list"

datatype service_status = SRunning | SStopped | SDegraded | SUnknown

record candidate =
  c_provider :: string
  c_externalId :: string
  c_status :: service_status
  c_state :: string

record alert_environment =
  env_id :: string
  env_name :: string
  env_ssh :: string
  env_connectionName :: string
  env_settings :: alert_settings

record deployment =
  dep_id :: string
  dep_service :: string
  dep_serviceName :: string
  dep_ssh :: "string option"
  dep_connectionName :: string
  dep_provider :: string
  dep_externalId :: string
  dep_displayName :: string

text \<open>\<open>JSON.stringify\<close> of a string and of an array of two strings.\<close>

definition hex4 :: "nat \<Rightarrow> string" where
  "hex4 n = (let h = (\<lambda>d. if d < 10 then char_of (48 + d) else char_of (87 + d)) in
     ''00'' @ [h (n div 16 mod 16), h (n mod 16)])"

definition json_char :: "char \<Rightarrow> string" where
  "json_char c = (if c = CHR 0x22 then [CHR 0x5C, CHR 0x22] else if c = CHR 0x5C then [CHR 0x5C, CHR 0x5C]
     else if c = CHR 0x08 then [CHR 0x5C] @ ''b'' else if c = CHR 0x0C then [CHR 0x5C] @ ''f''
     else if c = newline then [CHR 0x5C] @ ''n'' else if c = CHR 0x0D then [CHR 0x5C] @ ''r''
     else if c = CHR 0x09 then [CHR 0x5C] @ ''t''
     else if code c < 32 then [CHR 0x5C] @ ''u'' @ hex4 (code c) else [c])"

definition json_string :: "string \<Rightarrow> string" where
  "json_string s = [CHR 0x22] @ concat (map json_char s) @ [CHR 0x22]"

definition monitorDiskKey :: "disk \<Rightarrow> string" where
  "monitorDiskKey d = ''['' @ json_string (case d_device d of None \<Rightarrow> [] | Some v \<Rightarrow> trim v) @ '','' @
     json_string (trim (d_path d)) @ '']''"

definition diskBaselineRuleKey :: string where
  "diskBaselineRuleKey = ''__viron_disk_mount_baseline__''"

section \<open>Observations\<close>

text \<open>
  The details stored with a state and an alert, as a tree. The two parts of a missing disk's key are
  kept as they are parsed; the code stores their \<open>String\<close>.
\<close>

datatype details =
    ThresholdDetails "rat option" rat
  | TemperatureDetails rat rat string string
  | BaselineDetails
  | DiskUsageDetails string string string "rat option" rat
  | DiskDetails string string string
  | MissingDisk jsval jsval
  | MissingKey string
  | DeploymentDetails service_status string string string
  | AvailabilityDetails bool string string string "string option" "rat option"
  | AddedDetails details
  | RecoveredDetails details

record observation =
  o_targetType :: target_type
  o_targetId :: string
  o_ruleType :: rule_type
  o_ruleKey :: string
  o_ssh :: "string option"
  o_service :: "string option"
  o_deployment :: "string option"
  o_targetName :: string
  o_connectionName :: string
  o_serviceName :: string
  breached :: "bool option"
  o_details :: details
  o_event :: bool

definition thresholdObservation :: "observation \<Rightarrow> rule_type \<Rightarrow> rat option \<Rightarrow> rat \<Rightarrow> observation" where
  "thresholdObservation target rule v threshold = target\<lparr>o_ruleType := rule, o_ruleKey := [],
     breached := map_option (\<lambda>x. x \<ge> threshold) v, o_details := ThresholdDetails v threshold\<rparr>"

definition or_empty :: "string option \<Rightarrow> string" where
  "or_empty v = (case v of None \<Rightarrow> [] | Some s \<Rightarrow> s)"

definition or_text :: "string \<Rightarrow> string \<Rightarrow> string" where
  "or_text a b = (if a \<noteq> [] then a else b)"

definition missingDiskDetails :: "(string \<Rightarrow> jsval option) \<Rightarrow> string \<Rightarrow> details" where
  "missingDiskDetails parse key = (case parse key of
     Some (JArr [a, b]) \<Rightarrow> MissingDisk a b
   | _ \<Rightarrow> MissingKey key)"

definition hottest :: "temperature list \<Rightarrow> temperature" where
  "hottest ts = foldl (\<lambda>cur t. if t_celsius t > t_celsius cur then t else cur) (hd ts) (tl ts)"

definition host_target :: "alert_environment \<Rightarrow> string \<Rightarrow> string \<Rightarrow> observation" where
  "host_target env agent name = \<lparr>o_targetType = THost, o_targetId = agent, o_ruleType = RCpu, o_ruleKey = [],
     o_ssh = Some (env_ssh env), o_service = None, o_deployment = None,
     o_targetName = or_text name (env_connectionName env), o_connectionName = env_connectionName env,
     o_serviceName = [], breached = None, o_details = BaselineDetails, o_event = False\<rparr>"

definition disk_observations :: "alert_settings \<Rightarrow> observation \<Rightarrow> disk \<Rightarrow> observation list" where
  "disk_observations s target d = (let key = monitorDiskKey d; dev = or_empty (d_device d); fs = or_empty (d_filesystem d) in
     if key \<in> set (excludedDisks s) then []
     else (if diskUsageEnabled s then [target\<lparr>o_ruleType := RDiskUsage, o_ruleKey := key,
          breached := map_option (\<lambda>x. x \<ge> diskUsageThreshold s) (d_usedPercent d),
          o_details := DiskUsageDetails (d_path d) dev fs (d_usedPercent d) (diskUsageThreshold s)\<rparr>] else []) @
       (if diskMissingEnabled s then [target\<lparr>o_ruleType := RDiskMissing, o_ruleKey := key, breached := Some False,
          o_details := DiskDetails (d_path d) dev fs\<rparr>] else []))"

definition hostObservations :: "alert_environment \<Rightarrow> string \<Rightarrow> host_snapshot \<Rightarrow> observation list" where
  "hostObservations env agent host = (let s = env_settings env; target = host_target env agent (hostname host) in
     (if cpuEnabled s then [thresholdObservation target RCpu (cpuUsedPercent host) (cpuThreshold s)] else []) @
     (if memoryEnabled s then [thresholdObservation target RMemory (memoryUsedPercent host) (memoryThreshold s)] else []) @
     (if temperatureEnabled s \<and> temperatures host \<noteq> [] then (let t = hottest (temperatures host) in
        [(thresholdObservation target RTemperature (Some (t_celsius t)) (temperatureThreshold s))
           \<lparr>o_details := TemperatureDetails (t_celsius t) (temperatureThreshold s) (t_chip t) (or_empty (t_feature t))\<rparr>])
      else []) @
     (if diskMissingEnabled s then [target\<lparr>o_ruleType := RDiskMissing, o_ruleKey := diskBaselineRuleKey,
        breached := Some False, o_details := BaselineDetails\<rparr>] else []) @
     concat (map (disk_observations s target) (disks host)))"

definition deploymentObservations ::
    "alert_environment \<Rightarrow> deployment list \<Rightarrow> candidate list \<Rightarrow> observation list" where
  "deploymentObservations env deployments candidates =
     (if \<not> deploymentStatusEnabled (env_settings env) then []
      else map (\<lambda>d. let found = map_of (rev (map (\<lambda>c. (c_provider c @ '':'' @ c_externalId c, c)) candidates))
               (dep_provider d @ '':'' @ dep_externalId d);
             st = (case found of None \<Rightarrow> SUnknown | Some c \<Rightarrow> c_status c) in
         \<lparr>o_targetType = TDeployment, o_targetId = dep_id d, o_ruleType = RDeploymentStatus, o_ruleKey = [],
           o_ssh = dep_ssh d, o_service = Some (dep_service d), o_deployment = Some (dep_id d),
           o_targetName = or_text (dep_displayName d) (dep_externalId d), o_connectionName = dep_connectionName d,
           o_serviceName = dep_serviceName d,
           breached = (if st = SStopped \<or> st = SDegraded then Some True else if st = SRunning then Some False else None),
           o_details = DeploymentDetails st (case found of None \<Rightarrow> [] | Some c \<Rightarrow> c_state c) (dep_provider d) (dep_externalId d),
           o_event = False\<rparr>) deployments)"

end
