(* ===== verification/AlertStates.thy ===== *)
theory AlertStates
  imports MonitorAlerts
begin

text \<open>
  The rule states of monitored environments and the alerts they raise
  (\<open>applyObservations\<close> and its callers in \<open>IM-ops/viron/src/server/monitor-alerts.ts\<close>).

  The two tables are lists. \<open>s_last\<close> is the stored \<open>last_evaluated_at\<close>; \<open>s_seen\<close> is the copy of the
  rows a call has loaded, which one branch of the code leaves behind. The columns \<open>created_at\<close> and
  \<open>updated_at\<close>, which nothing reads here, are left out. \<open>uuid n\<close> is the \<open>n\<close>-th random
  identifier and \<open>hash\<close> is SHA-256.
\<close>

section \<open>The tables\<close>

record alert_state =
  s_id :: string
  s_environment :: string
  s_targetType :: target_type
  s_targetId :: string
  s_ruleType :: rule_type
  s_hash :: string
  s_ruleKey :: string
  s_ssh :: "string option"
  s_service :: "string option"
  s_deployment :: "string option"
  s_targetName :: string
  s_connectionName :: string
  s_serviceName :: string
  breachCount :: nat
  recoveryCount :: nat
  activeAlert :: "string option"
  s_value :: details
  s_last :: int
  s_seen :: int

datatype alert_status = AlertActive | AlertEvent | AlertRecovered

record alert =
  a_id :: string
  a_environment :: string
  a_state :: string
  a_targetType :: target_type
  a_targetId :: string
  a_ruleType :: rule_type
  a_ruleKey :: string
  a_ssh :: "string option"
  a_service :: "string option"
  a_deployment :: "string option"
  a_environmentName :: string
  a_targetName :: string
  a_connectionName :: string
  a_serviceName :: string
  a_status :: alert_status
  a_details :: details
  a_triggered :: int
  a_recovered :: "int option"

record alert_db =
  states :: "alert_state list"
  alerts :: "alert list"
  issued :: nat

definition target_text :: "target_type \<Rightarrow> string" where
  "target_text t = (case t of THost \<Rightarrow> ''host'' | TDeployment \<Rightarrow> ''deployment'')"

definition rule_text :: "rule_type \<Rightarrow> string" where
  "rule_text r = (case r of RHostOffline \<Rightarrow> ''host_offline'' | RCpu \<Rightarrow> ''cpu'' | RMemory \<Rightarrow> ''memory''
     | RDiskUsage \<Rightarrow> ''disk_usage'' | RTemperature \<Rightarrow> ''temperature'' | RDiskAdded \<Rightarrow> ''disk_added''
     | RDiskMissing \<Rightarrow> ''disk_missing'' | RDeploymentStatus \<Rightarrow> ''deployment_status'')"

definition stateKey :: "target_type \<Rightarrow> string \<Rightarrow> rule_type \<Rightarrow> string \<Rightarrow> string" where
  "stateKey t i r h = target_text t @ [CHR 0x00] @ i @ [CHR 0x00] @ rule_text r @ [CHR 0x00] @ h"

definition state_key :: "alert_state \<Rightarrow> string" where
  "state_key s = stateKey (s_targetType s) (s_targetId s) (s_ruleType s) (s_hash s)"

definition key_of :: "(string \<Rightarrow> string) \<Rightarrow> observation \<Rightarrow> string" where
  "key_of hash ob = stateKey (o_targetType ob) (o_targetId ob) (o_ruleType ob) (hash (o_ruleKey ob))"

text \<open>The rows of an environment, and the row of a key: the table allows one.\<close>

definition env_rows :: "string \<Rightarrow> alert_db \<Rightarrow> alert_state list" where
  "env_rows e db = filter (\<lambda>s. s_environment s = e) (states db)"

definition state_of :: "alert_state list \<Rightarrow> string \<Rightarrow> alert_state option" where
  "state_of rows k = find (\<lambda>s. state_key s = k) rows"

definition put_state :: "alert_state \<Rightarrow> alert_db \<Rightarrow> alert_db" where
  "put_state s db = db\<lparr>states := map (\<lambda>r. if s_id r = s_id s then s else r) (states db)\<rparr>"

section \<open>Disks that came and went\<close>

definition missing_key :: "(string \<Rightarrow> string) \<Rightarrow> observation \<Rightarrow> string" where
  "missing_key hash ob = stateKey (o_targetType ob) (o_targetId ob) RDiskMissing (hash (o_ruleKey ob))"

definition added_key :: "(string \<Rightarrow> string) \<Rightarrow> observation \<Rightarrow> string" where
  "added_key hash ob = stateKey (o_targetType ob) (o_targetId ob) RDiskAdded (hash (o_ruleKey ob))"

definition disk_present :: "observation list \<Rightarrow> observation list" where
  "disk_present obs = filter (\<lambda>ob. o_ruleType ob = RDiskMissing \<and> o_ruleKey ob \<noteq> diskBaselineRuleKey) obs"

definition baseline_targets :: "alert_state list \<Rightarrow> string set" where
  "baseline_targets rows = set (map s_targetId
     (filter (\<lambda>s. s_ruleType s = RDiskMissing \<and> s_ruleKey s = diskBaselineRuleKey) rows))"

text \<open>
  Once a host has its baseline, a disk without a state is a new one: its \<open>disk_missing\<close> rule waits
  until the event that it was added has been raised.
\<close>

definition suppressed_disks :: "(string \<Rightarrow> string) \<Rightarrow> alert_state list \<Rightarrow> observation list \<Rightarrow> string list" where
  "suppressed_disks hash rows obs = map (missing_key hash) (filter (\<lambda>ob.
     o_targetId ob \<in> baseline_targets rows \<and> state_of rows (missing_key hash ob) = None \<and>
     Option.bind (state_of rows (added_key hash ob)) activeAlert = None) (disk_present obs))"

definition added_disks :: "(string \<Rightarrow> string) \<Rightarrow> alert_state list \<Rightarrow> observation list \<Rightarrow> observation list" where
  "added_disks hash rows obs = map (\<lambda>ob. ob\<lparr>o_ruleType := RDiskAdded, breached := Some True, o_event := True,
       o_details := AddedDetails (o_details ob)\<rparr>)
     (filter (\<lambda>ob. \<not> (state_of rows (added_key hash ob) = None \<and>
        (o_targetId ob \<notin> baseline_targets rows \<or> state_of rows (missing_key hash ob) \<noteq> None))) (disk_present obs))"

definition missing_observation :: "(string \<Rightarrow> jsval option) \<Rightarrow> alert_state \<Rightarrow> observation" where
  "missing_observation parse s = \<lparr>o_targetType = THost, o_targetId = s_targetId s, o_ruleType = RDiskMissing,
     o_ruleKey = s_ruleKey s, o_ssh = s_ssh s, o_service = None, o_deployment = None, o_targetName = s_targetName s,
     o_connectionName = s_connectionName s, o_serviceName = [], breached = Some True,
     o_details = missingDiskDetails parse (s_ruleKey s), o_event = False\<rparr>"

definition row_missing_key :: "alert_state \<Rightarrow> string" where
  "row_missing_key s = stateKey (s_targetType s) (s_targetId s) RDiskMissing (s_hash s)"

definition gone_after_added ::
    "alert_settings \<Rightarrow> string list \<Rightarrow> alert_state list \<Rightarrow> string list \<Rightarrow> alert_state \<Rightarrow> bool" where
  "gone_after_added cfg current rows hosts s \<longleftrightarrow> s_targetType s = THost \<and> s_ruleType s = RDiskAdded \<and>
     activeAlert s \<noteq> None \<and> s_targetId s \<in> set hosts \<and> row_missing_key s \<notin> set current \<and>
     state_of rows (row_missing_key s) = None \<and> s_ruleKey s \<notin> set (excludedDisks cfg)"

definition gone_disk :: "alert_settings \<Rightarrow> string list \<Rightarrow> string list \<Rightarrow> alert_state \<Rightarrow> bool" where
  "gone_disk cfg current hosts s \<longleftrightarrow> s_ruleKey s \<noteq> diskBaselineRuleKey \<and> s_targetType s = THost \<and>
     s_targetId s \<in> set hosts \<and> s_ruleType s = RDiskMissing \<and> row_missing_key s \<notin> set current \<and>
     s_ruleKey s \<notin> set (excludedDisks cfg)"

definition all_observations :: "(string \<Rightarrow> string) \<Rightarrow> (string \<Rightarrow> jsval option) \<Rightarrow> alert_settings \<Rightarrow>
    alert_state list \<Rightarrow> string list \<Rightarrow> observation list \<Rightarrow> observation list" where
  "all_observations hash parse cfg rows hosts obs = (let current = map (missing_key hash) (disk_present obs) in
     obs @ added_disks hash rows obs @
     map (missing_observation parse) (filter (gone_after_added cfg current rows hosts) rows) @
     map (missing_observation parse) (filter (gone_disk cfg current hosts) rows))"

text \<open>A new disk that left before its event was raised starts counting again.\<close>

definition restarts :: "string list \<Rightarrow> string list \<Rightarrow> alert_state \<Rightarrow> bool" where
  "restarts current hosts s \<longleftrightarrow> s_targetType s = THost \<and> s_ruleType s = RDiskAdded \<and> s_targetId s \<in> set hosts \<and>
     activeAlert s = None \<and> row_missing_key s \<notin> set current \<and> breachCount s \<noteq> 0"

definition restart_counts :: "string \<Rightarrow> string list \<Rightarrow> string list \<Rightarrow> int \<Rightarrow> alert_db \<Rightarrow> alert_db" where
  "restart_counts e current hosts t db = db\<lparr>states := map (\<lambda>s.
     if s_environment s = e \<and> restarts current hosts s
     then s\<lparr>breachCount := 0, recoveryCount := 0, s_last := t, s_seen := t\<rparr> else s) (states db)\<rparr>"

section \<open>One observation\<close>

definition with_metadata :: "observation \<Rightarrow> alert_state \<Rightarrow> alert_state" where
  "with_metadata ob s = s\<lparr>s_ssh := o_ssh ob, s_service := o_service ob, s_deployment := o_deployment ob,
     s_targetName := o_targetName ob, s_connectionName := o_connectionName ob, s_serviceName := o_serviceName ob,
     s_value := o_details ob\<rparr>"

definition first_state :: "(string \<Rightarrow> string) \<Rightarrow> string \<Rightarrow> string \<Rightarrow> int \<Rightarrow> observation \<Rightarrow> alert_state" where
  "first_state hash sid e t ob = \<lparr>s_id = sid, s_environment = e, s_targetType = o_targetType ob,
     s_targetId = o_targetId ob, s_ruleType = o_ruleType ob, s_hash = hash (o_ruleKey ob), s_ruleKey = o_ruleKey ob,
     s_ssh = o_ssh ob, s_service = o_service ob, s_deployment = o_deployment ob, s_targetName = o_targetName ob,
     s_connectionName = o_connectionName ob, s_serviceName = o_serviceName ob,
     breachCount = (if breached ob = Some True then 1 else 0), recoveryCount = 0, activeAlert = None,
     s_value = o_details ob, s_last = t, s_seen = t\<rparr>"

definition new_alert :: "string \<Rightarrow> alert_environment \<Rightarrow> alert_state \<Rightarrow> int \<Rightarrow> observation \<Rightarrow> alert" where
  "new_alert aid env s t ob = \<lparr>a_id = aid, a_environment = env_id env, a_state = s_id s, a_targetType = o_targetType ob,
     a_targetId = o_targetId ob, a_ruleType = o_ruleType ob, a_ruleKey = o_ruleKey ob, a_ssh = o_ssh ob,
     a_service = o_service ob, a_deployment = o_deployment ob, a_environmentName = env_name env,
     a_targetName = o_targetName ob, a_connectionName = o_connectionName ob, a_serviceName = o_serviceName ob,
     a_status = (if o_event ob then AlertEvent else AlertActive), a_details = o_details ob, a_triggered = t,
     a_recovered = None\<rparr>"

definition recover_alert :: "string \<Rightarrow> details \<Rightarrow> int \<Rightarrow> alert list \<Rightarrow> alert list" where
  "recover_alert aid d t as = map (\<lambda>a. if a_id a = aid \<and> a_status a = AlertActive
     then a\<lparr>a_status := AlertRecovered, a_details := d, a_recovered := Some t\<rparr> else a) as"

definition on_breach ::
    "(nat \<Rightarrow> string) \<Rightarrow> alert_environment \<Rightarrow> int \<Rightarrow> observation \<Rightarrow> alert_state \<Rightarrow> alert_db \<Rightarrow> alert_db" where
  "on_breach uuid env t ob s db = (let s' = (with_metadata ob s)\<lparr>recoveryCount := 0, s_last := t, s_seen := t\<rparr> in
     if activeAlert s \<noteq> None then put_state s' db
     else if breachCount s + 1 \<ge> consecutiveSamples (env_settings env)
     then put_state (s'\<lparr>breachCount := breachCount s + 1, activeAlert := Some (uuid (issued db))\<rparr>)
       (db\<lparr>alerts := alerts db @ [new_alert (uuid (issued db)) env s t ob], issued := issued db + 1\<rparr>)
     else put_state (s'\<lparr>breachCount := breachCount s + 1\<rparr>) db)"

definition on_recovery ::
    "alert_environment \<Rightarrow> int \<Rightarrow> observation \<Rightarrow> alert_state \<Rightarrow> alert_db \<Rightarrow> alert_db" where
  "on_recovery env t ob s db = (let s' = (with_metadata ob s)\<lparr>breachCount := 0, s_last := t, s_seen := t\<rparr> in
     case activeAlert s of
       None \<Rightarrow> put_state (s'\<lparr>recoveryCount := 0\<rparr>) db
     | Some aid \<Rightarrow>
         if recoveryCount s + 1 \<ge> consecutiveSamples (env_settings env)
         then put_state (s'\<lparr>recoveryCount := 0, activeAlert := None\<rparr>)
           (db\<lparr>alerts := recover_alert aid (if o_ruleType ob = RDiskMissing then RecoveredDetails (o_details ob)
              else o_details ob) t (alerts db)\<rparr>)
         else put_state (s'\<lparr>recoveryCount := recoveryCount s + 1\<rparr>) db)"

definition observe :: "(string \<Rightarrow> string) \<Rightarrow> (nat \<Rightarrow> string) \<Rightarrow> alert_environment \<Rightarrow> string list \<Rightarrow> int \<Rightarrow>
    observation \<Rightarrow> alert_db \<Rightarrow> alert_db" where
  "observe hash uuid env suppressed t ob db =
     (if o_ruleType ob = RDiskMissing \<and> missing_key hash ob \<in> set suppressed then db
      else case state_of (env_rows (env_id env) db) (key_of hash ob) of
        None \<Rightarrow> db\<lparr>states := states db @ [first_state hash (uuid (issued db)) (env_id env) t ob], issued := issued db + 1\<rparr>
      | Some s \<Rightarrow>
          if s_seen s \<ge> t then db
          else case breached ob of
            None \<Rightarrow> put_state ((with_metadata ob s)\<lparr>s_last := t\<rparr>) db
          | Some True \<Rightarrow> on_breach uuid env t ob s db
          | Some False \<Rightarrow> on_recovery env t ob s db)"

section \<open>One sample, and what calls it\<close>

definition load_rows :: "string \<Rightarrow> alert_db \<Rightarrow> alert_db" where
  "load_rows e db = db\<lparr>states := map (\<lambda>s. if s_environment s = e then s\<lparr>s_seen := s_last s\<rparr> else s) (states db)\<rparr>"

definition applyObservations :: "(string \<Rightarrow> string) \<Rightarrow> (string \<Rightarrow> jsval option) \<Rightarrow> (nat \<Rightarrow> string) \<Rightarrow>
    alert_environment \<Rightarrow> observation list \<Rightarrow> int \<Rightarrow> string list \<Rightarrow> alert_db \<Rightarrow> alert_db" where
  "applyObservations hash parse uuid env obs t hosts db0 = (let db = load_rows (env_id env) db0;
       rows = env_rows (env_id env) db; current = map (missing_key hash) (disk_present obs);
       suppressed = suppressed_disks hash rows obs in
     fold (observe hash uuid env suppressed t) (all_observations hash parse (env_settings env) rows hosts obs)
       (restart_counts (env_id env) current hosts t db))"

text \<open>A row of the query for monitored environments, and of the one for their deployments.\<close>

record environment_row =
  er_id :: string
  er_name :: string
  er_ssh :: string
  er_connectionName :: string
  er_settings :: "settings_row option"

record deployment_row =
  dr_id :: string
  dr_ssh :: "string option"
  dr_connectionName :: "string option"
  dr_provider :: string
  dr_externalId :: string
  dr_displayName :: "string option"
  dr_service :: string
  dr_serviceName :: string

definition environment_of :: "(string \<Rightarrow> jsval option) \<Rightarrow> environment_row \<Rightarrow> alert_environment" where
  "environment_of parse r = \<lparr>env_id = er_id r, env_name = er_name r, env_ssh = er_ssh r,
     env_connectionName = er_connectionName r, env_settings = monitorAlertSettingsFromRow parse (er_settings r)\<rparr>"

definition add_environment :: "(string \<Rightarrow> jsval option) \<Rightarrow> environment_row \<Rightarrow> alert_environment list \<Rightarrow> alert_environment list" where
  "add_environment parse r envs = (if er_id r \<in> set (map env_id envs) then envs else envs @ [environment_of parse r])"

definition monitoredEnvironments :: "(string \<Rightarrow> jsval option) \<Rightarrow> environment_row list \<Rightarrow> alert_environment list" where
  "monitoredEnvironments parse rows = filter (\<lambda>e. enabled (env_settings e)) (fold (add_environment parse) rows [])"

definition environmentDeployments :: "deployment_row list \<Rightarrow> deployment list" where
  "environmentDeployments rows = map (\<lambda>r. \<lparr>dep_id = dr_id r, dep_service = dr_service r,
     dep_serviceName = dr_serviceName r,
     dep_ssh = (case dr_ssh r of Some (c # s) \<Rightarrow> Some (c # s) | _ \<Rightarrow> None),
     dep_connectionName = or_empty (dr_connectionName r), dep_provider = dr_provider r,
     dep_externalId = dr_externalId r, dep_displayName = or_empty (dr_displayName r)\<rparr>) rows"

text \<open>Whether a host answers: its stored row, and the outcome of the last pull.\<close>

record host_row =
  hr_agent :: string
  hr_hostJson :: string
  hr_lastCollectedAt :: "string option"

record availability =
  av_checkedAt :: int
  av_available :: bool
  av_status :: string
  av_reason :: string
  av_error :: "string option"
  av_hostname :: "string option"
  av_lastCollectedAt :: "string option"
  av_resolution :: "rat option"

definition storedHostname :: "(string \<Rightarrow> jsval option) \<Rightarrow> string \<Rightarrow> string" where
  "storedHostname parse v = (case parse v of
     Some (JObj fs) \<Rightarrow> (case jget (JObj fs) ''hostname'' of JStr s \<Rightarrow> trim s | _ \<Rightarrow> [])
   | _ \<Rightarrow> [])"

definition offline_observation :: "(string \<Rightarrow> jsval option) \<Rightarrow> host_row \<Rightarrow> availability \<Rightarrow> alert_environment \<Rightarrow> observation" where
  "offline_observation parse row av env = \<lparr>o_targetType = THost, o_targetId = hr_agent row, o_ruleType = RHostOffline,
     o_ruleKey = [], o_ssh = Some (env_ssh env), o_service = None, o_deployment = None,
     o_targetName = or_text (or_text (trim (or_empty (av_hostname av))) (storedHostname parse (hr_hostJson row)))
       (env_connectionName env),
     o_connectionName = env_connectionName env, o_serviceName = [], breached = Some (\<not> av_available av),
     o_details = AvailabilityDetails (av_available av) (av_status av) (av_reason av) (take 500 (or_empty (av_error av)))
       (case av_lastCollectedAt av of None \<Rightarrow> hr_lastCollectedAt row | Some v \<Rightarrow> Some v) (av_resolution av),
     o_event = False\<rparr>"

definition check_host :: "(string \<Rightarrow> string) \<Rightarrow> (string \<Rightarrow> jsval option) \<Rightarrow> (nat \<Rightarrow> string) \<Rightarrow> host_row \<Rightarrow>
    availability \<Rightarrow> alert_environment \<Rightarrow> alert_db \<Rightarrow> alert_db" where
  "check_host hash parse uuid row av env db = (if hostOfflineEnabled (env_settings env)
     then applyObservations hash parse uuid env [offline_observation parse row av env] (av_checkedAt av) [] db else db)"

definition evaluateMonitorHostAvailability :: "(string \<Rightarrow> string) \<Rightarrow> (string \<Rightarrow> jsval option) \<Rightarrow> (nat \<Rightarrow> string) \<Rightarrow>
    host_row option \<Rightarrow> environment_row list \<Rightarrow> availability \<Rightarrow> alert_db \<Rightarrow> alert_db" where
  "evaluateMonitorHostAvailability hash parse uuid row envs av db = (case row of
     None \<Rightarrow> db
   | Some r \<Rightarrow> if hr_agent r = [] then db
       else fold (check_host hash parse uuid r av) (monitoredEnvironments parse envs) db)"

record alert_sample =
  collectedAt :: int
  sample_host :: host_snapshot
  sample_candidates :: "candidate list"

definition sample_observations :: "alert_environment \<Rightarrow> string \<Rightarrow> deployment list \<Rightarrow> alert_sample \<Rightarrow> observation list" where
  "sample_observations env agent deps s =
     hostObservations env agent (sample_host s) @ deploymentObservations env deps (sample_candidates s)"

definition evaluate_environment :: "(string \<Rightarrow> string) \<Rightarrow> (string \<Rightarrow> jsval option) \<Rightarrow> (nat \<Rightarrow> string) \<Rightarrow>
    (string \<Rightarrow> deployment_row list) \<Rightarrow> string \<Rightarrow> alert_sample list \<Rightarrow> alert_environment \<Rightarrow> alert_db \<Rightarrow> alert_db" where
  "evaluate_environment hash parse uuid deps agent samples env db = fold (\<lambda>s. applyObservations hash parse uuid env
     (sample_observations env agent (environmentDeployments (deps (env_id env))) s) (collectedAt s) [agent]) samples db"

definition evaluateMonitorAlertSamples :: "(string \<Rightarrow> string) \<Rightarrow> (string \<Rightarrow> jsval option) \<Rightarrow> (nat \<Rightarrow> string) \<Rightarrow>
    environment_row list \<Rightarrow> (string \<Rightarrow> deployment_row list) \<Rightarrow> string \<Rightarrow> alert_sample list \<Rightarrow> alert_db \<Rightarrow> alert_db" where
  "evaluateMonitorAlertSamples hash parse uuid envs deps agent samples db = (if samples = [] then db
     else fold (evaluate_environment hash parse uuid deps agent samples) (monitoredEnvironments parse envs) db)"

text \<open>
  The stored samples come newest first; \<open>decode\<close> is \<open>JSON.parse\<close> with the tests of the shape of a
  sample, and what it refuses is left out.
\<close>

definition evaluateRecentMonitorAlerts :: "(string \<Rightarrow> alert_sample option) \<Rightarrow> (string \<Rightarrow> string) \<Rightarrow> (string \<Rightarrow> jsval option) \<Rightarrow>
    (nat \<Rightarrow> string) \<Rightarrow> environment_row list \<Rightarrow> (string \<Rightarrow> deployment_row list) \<Rightarrow> string \<Rightarrow> string list \<Rightarrow> alert_db \<Rightarrow> alert_db" where
  "evaluateRecentMonitorAlerts decode hash parse uuid envs deps agent rows db =
     evaluateMonitorAlertSamples hash parse uuid envs deps agent (List.map_filter decode (rev (take 8 rows))) db"

definition resetMonitorAlertEnvironment :: "string \<Rightarrow> int \<Rightarrow> alert_db \<Rightarrow> alert_db" where
  "resetMonitorAlertEnvironment e now db = db\<lparr>
     alerts := map (\<lambda>a. if a_environment a = e \<and> a_status a = AlertActive
       then a\<lparr>a_status := AlertRecovered, a_recovered := Some now\<rparr> else a) (alerts db),
     states := filter (\<lambda>s. s_environment s \<noteq> e) (states db)\<rparr>"

text \<open>
  The snapshots stored for the hosts of an environment, newest first; \<open>decode\<close> parses the two
  columns of a row and refuses what is not JSON. An agent's later rows are skipped even when its first is
  refused.
\<close>

record prime_row =
  pr_agent :: string
  pr_hostJson :: string
  pr_candidatesJson :: string
  pr_collectedAt :: int

definition first_rows :: "prime_row list \<Rightarrow> prime_row list" where
  "first_rows rows = fold (\<lambda>r kept. if pr_agent r \<in> set (map pr_agent kept) then kept else kept @ [r]) rows []"

definition primeMonitorAlertEnvironment :: "(string \<Rightarrow> string \<Rightarrow> (host_snapshot \<times> candidate list) option) \<Rightarrow> (string \<Rightarrow> string) \<Rightarrow>
    (string \<Rightarrow> jsval option) \<Rightarrow> (nat \<Rightarrow> string) \<Rightarrow> (string \<Rightarrow> environment_row list) \<Rightarrow>
    (string \<Rightarrow> string \<Rightarrow> deployment_row list) \<Rightarrow> prime_row list \<Rightarrow> alert_db \<Rightarrow> alert_db" where
  "primeMonitorAlertEnvironment decode hash parse uuid envs deps rows db = fold (\<lambda>r d. case decode (pr_hostJson r) (pr_candidatesJson r) of
       None \<Rightarrow> d
     | Some (host, cs) \<Rightarrow> evaluateMonitorAlertSamples hash parse uuid (envs (pr_agent r)) (deps (pr_agent r)) (pr_agent r)
         [\<lparr>collectedAt = pr_collectedAt r, sample_host = host, sample_candidates = cs\<rparr>] d) (first_rows rows) db"

text \<open>Where a notification leads.\<close>

definition given :: "string option \<Rightarrow> bool" where
  "given v \<longleftrightarrow> or_empty v \<noteq> []"

definition monitorAlertNavigationQuery ::
    "string option \<Rightarrow> string option \<Rightarrow> string option \<Rightarrow> (string \<times> string) list" where
  "monitorAlertNavigationQuery ssh service deploy = [(''tab'', ''maintenance'')] @
     (if \<not> (given service \<or> given deploy) \<and> given ssh then [(''maintenanceHostId'', the ssh)] else []) @
     (if given service then [(''maintenanceServiceId'', the service)] else []) @
     (if given deploy then [(''maintenanceDeploymentId'', the deploy)] else [])"

section \<open>Shape of the tables\<close>

text \<open>Every write of one observation is an insertion or one of three replacements of a row.\<close>

lemma issued_put_state [simp]: "issued (put_state s db) = issued db"
  by (simp add: put_state_def)

lemma alerts_put_state [simp]: "alerts (put_state s db) = alerts db"
  by (simp add: put_state_def)

lemma with_metadata_simps [simp]:
  "s_id (with_metadata ob s) = s_id s" "s_environment (with_metadata ob s) = s_environment s"
  "s_targetType (with_metadata ob s) = s_targetType s" "s_targetId (with_metadata ob s) = s_targetId s"
  "s_ruleType (with_metadata ob s) = s_ruleType s" "s_hash (with_metadata ob s) = s_hash s"
  "breachCount (with_metadata ob s) = breachCount s" "recoveryCount (with_metadata ob s) = recoveryCount s"
  "activeAlert (with_metadata ob s) = activeAlert s" "s_last (with_metadata ob s) = s_last s"
  "s_seen (with_metadata ob s) = s_seen s"
  by (simp_all add: with_metadata_def)

lemma put_state_states:
  "states (put_state s db) = map (\<lambda>r. if s_id r = s_id s then s else r) (states db)"
  by (simp add: put_state_def)

definition same_place :: "alert_state \<Rightarrow> alert_state \<Rightarrow> bool" where
  "same_place s r \<longleftrightarrow> s_id s = s_id r \<and> s_environment s = s_environment r \<and> state_key s = state_key r"

definition ids_ok :: "(nat \<Rightarrow> string) \<Rightarrow> alert_db \<Rightarrow> bool" where
  "ids_ok uuid db \<longleftrightarrow> distinct (map s_id (states db)) \<and>
     distinct (map (\<lambda>s. (s_environment s, state_key s)) (states db)) \<and> distinct (map a_id (alerts db)) \<and>
     s_id ` set (states db) \<union> a_id ` set (alerts db) \<subseteq> uuid ` {..<issued db}"

definition current :: "alert_db \<Rightarrow> alert_state \<Rightarrow> bool" where
  "current db s \<longleftrightarrow> (\<forall>i. activeAlert s = Some i \<longrightarrow> (\<exists>x\<in>set (alerts db). a_id x = i \<and> a_state x = s_id s \<and>
     a_environment x = s_environment s \<and> a_status x \<noteq> AlertRecovered))"

definition owned :: "alert_db \<Rightarrow> alert \<Rightarrow> bool" where
  "owned db x \<longleftrightarrow> (a_status x = AlertActive \<longrightarrow> (\<exists>s\<in>set (states db). s_id s = a_state x \<and>
     s_environment s = a_environment x \<and> activeAlert s = Some (a_id x)))"

definition alerts_ok :: "(nat \<Rightarrow> string) \<Rightarrow> alert_db \<Rightarrow> bool" where
  "alerts_ok uuid db \<longleftrightarrow> ids_ok uuid db \<and> (\<forall>s\<in>set (states db). current db s) \<and> (\<forall>x\<in>set (alerts db). owned db x)"

lemma distinct_id_eq:
  "distinct (map s_id xs) \<Longrightarrow> s \<in> set xs \<Longrightarrow> r \<in> set xs \<Longrightarrow> s_id s = s_id r \<Longrightarrow> s = r"
  by (auto simp: distinct_map dest: inj_onD)

lemma state_of_some:
  "state_of rows k = Some s \<Longrightarrow> s \<in> set rows \<and> state_key s = k"
  by (auto simp: state_of_def find_Some_iff)

lemma state_of_none:
  "state_of rows k = None \<longleftrightarrow> (\<forall>s\<in>set rows. state_key s \<noteq> k)"
  by (auto simp: state_of_def find_None_iff)

lemma env_rows_set [simp]:
  "s \<in> set (env_rows e db) \<longleftrightarrow> s \<in> set (states db) \<and> s_environment s = e"
  by (auto simp: env_rows_def)

lemma map_states_ok:
  assumes "alerts_ok uuid db" "\<And>s. s \<in> set (states db) \<Longrightarrow> same_place (f s) s \<and> activeAlert (f s) = activeAlert s"
  shows "alerts_ok uuid (db\<lparr>states := map f (states db)\<rparr>)"
proof -
  have ids: "map (s_id \<circ> f) (states db) = map s_id (states db)"
    and keys: "map ((\<lambda>s. (s_environment s, state_key s)) \<circ> f) (states db) =
      map (\<lambda>s. (s_environment s, state_key s)) (states db)"
    and img: "(\<lambda>s. s_id (f s)) ` set (states db) = s_id ` set (states db)"
    using assms(2) by (simp_all add: same_place_def cong: image_cong)
  have "states (db\<lparr>states := map f (states db)\<rparr>) = map f (states db)"
    "alerts (db\<lparr>states := map f (states db)\<rparr>) = alerts db" "issued (db\<lparr>states := map f (states db)\<rparr>) = issued db"
    by simp_all
  moreover have "ids_ok uuid db" using assms(1) by (simp add: alerts_ok_def)
  ultimately have "ids_ok uuid (db\<lparr>states := map f (states db)\<rparr>)"
    by (simp only: ids_ok_def map_map ids keys set_map image_image img simp_thms)
  moreover have "\<forall>s\<in>set (map f (states db)). current (db\<lparr>states := map f (states db)\<rparr>) s"
    using assms by (auto simp: alerts_ok_def current_def same_place_def)
  moreover have "\<forall>x\<in>set (alerts db). owned (db\<lparr>states := map f (states db)\<rparr>) x"
    using assms by (fastforce simp: alerts_ok_def owned_def same_place_def)
  ultimately show ?thesis by (simp add: alerts_ok_def)
qed

lemma put_state_ok:
  assumes "alerts_ok uuid db" "s \<in> set (states db)" "same_place s' s" "activeAlert s' = activeAlert s"
  shows "alerts_ok uuid (put_state s' db)"
  unfolding put_state_def
proof (rule map_states_ok [OF assms(1)])
  fix r assume "r \<in> set (states db)"
  then have "s_id r = s_id s' \<Longrightarrow> r = s"
    using assms distinct_id_eq [of "states db" s r] by (simp add: alerts_ok_def ids_ok_def same_place_def)
  then show "same_place (if s_id r = s_id s' then s' else r) r \<and>
      activeAlert (if s_id r = s_id s' then s' else r) = activeAlert r"
    using assms(3,4) by (cases "s_id r = s_id s'") (simp_all add: same_place_def)
qed

lemma load_rows_ok: "alerts_ok uuid db \<Longrightarrow> alerts_ok uuid (load_rows e db)"
  unfolding load_rows_def by (rule map_states_ok) (simp_all add: same_place_def state_key_def)

lemma restart_counts_ok: "alerts_ok uuid db \<Longrightarrow> alerts_ok uuid (restart_counts e c h t db)"
  unfolding restart_counts_def by (rule map_states_ok) (simp_all add: same_place_def state_key_def)

section \<open>Every active alert is the current alert of one rule\<close>

definition free_from :: "(nat \<Rightarrow> string) \<Rightarrow> nat \<Rightarrow> bool" where
  "free_from uuid n \<longleftrightarrow> uuid n \<notin> uuid ` {..<n}"

lemma inj_free_from [simp]: "inj uuid \<Longrightarrow> free_from uuid n"
  by (auto simp: free_from_def dest: injD)

lemma fresh_id:
  assumes "ids_ok uuid db" "free_from uuid (issued db)"
  shows "uuid (issued db) \<notin> s_id ` set (states db)" "uuid (issued db) \<notin> a_id ` set (alerts db)"
  using assms by (auto simp: ids_ok_def free_from_def)

lemma first_state_simps [simp]:
  "s_id (first_state hash i e t ob) = i" "s_environment (first_state hash i e t ob) = e"
  "state_key (first_state hash i e t ob) = key_of hash ob" "activeAlert (first_state hash i e t ob) = None"
  by (simp_all add: first_state_def state_key_def key_of_def)

lemma insert_ok:
  assumes ok: "alerts_ok uuid db" and free: "free_from uuid (issued db)"
    and none: "state_of (env_rows e db) (key_of hash ob) = None"
  shows "alerts_ok uuid (db\<lparr>states := states db @ [first_state hash (uuid (issued db)) e t ob], issued := issued db + 1\<rparr>)"
proof -
  have "ids_ok uuid db" using ok by (simp add: alerts_ok_def)
  then have "ids_ok uuid (db\<lparr>states := states db @ [first_state hash (uuid (issued db)) e t ob], issued := issued db + 1\<rparr>)"
    using fresh_id [OF _ free] none by (auto simp: ids_ok_def state_of_none lessThan_Suc)
  then show ?thesis
    using ok by (auto simp: alerts_ok_def current_def owned_def)
qed

lemma new_alert_simps [simp]:
  "a_id (new_alert i env s t ob) = i" "a_environment (new_alert i env s t ob) = env_id env"
  "a_state (new_alert i env s t ob) = s_id s" "a_status (new_alert i env s t ob) \<noteq> AlertRecovered"
  by (simp_all add: new_alert_def)

lemma put_state_ids:
  assumes "ids_ok uuid db" "s \<in> set (states db)" "same_place s' s"
  shows "ids_ok uuid (put_state s' db)"
    and "set (states (put_state s' db)) = insert s' (set (states db) - {s})"
proof -
  have only: "r = s" if "r \<in> set (states db)" "s_id r = s_id s" for r
    using assms distinct_id_eq [of "states db" r s] that by (simp add: ids_ok_def)
  have swap: "states (put_state s' db) = map (\<lambda>r. if r = s then s' else r) (states db)"
    using only assms by (auto simp: put_state_states same_place_def)
  have fix_id: "s_id (if r = s then s' else r) = s_id r"
    "(s_environment (if r = s then s' else r), state_key (if r = s then s' else r)) = (s_environment r, state_key r)" for r
    using assms by (simp_all add: same_place_def)
  show "ids_ok uuid (put_state s' db)"
    using assms(1) by (simp only: ids_ok_def swap map_map comp_def fix_id set_map image_image alerts_put_state
      issued_put_state simp_thms)
  show "set (states (put_state s' db)) = insert s' (set (states db) - {s})"
    using assms(2) by (auto simp: swap)
qed

lemma raise_ok:
  assumes ok: "alerts_ok uuid db" and free: "free_from uuid (issued db)" and s: "s \<in> set (states db)"
    and none: "activeAlert s = None" and env: "s_environment s = env_id env"
    and place: "same_place s' s" and active: "activeAlert s' = Some (uuid (issued db))"
    and db': "states db' = states db" "issued db' = issued db + 1"
      "alerts db' = alerts db @ [new_alert (uuid (issued db)) env s t ob]"
  shows "alerts_ok uuid (put_state s' db')"
proof -
  have ids: "ids_ok uuid db" using ok by (simp add: alerts_ok_def)
  have "ids_ok uuid db'" using ids fresh_id [OF ids free] by (auto simp: ids_ok_def db' lessThan_Suc)
  note put = put_state_ids [OF this, unfolded db', OF s place]
  have "current (put_state s' db') r" if "r = s' \<or> r \<in> set (states db) \<and> r \<noteq> s" for r
    using that ok place active env by (auto simp: alerts_ok_def current_def same_place_def db')
  moreover have "owned (put_state s' db') x" if "x \<in> set (alerts db)" for x
    using that ok none by (fastforce simp: alerts_ok_def owned_def put(2))
  moreover have "owned (put_state s' db') (new_alert (uuid (issued db)) env s t ob)"
    using place active env by (auto simp: owned_def put(2) same_place_def)
  ultimately show ?thesis using put by (simp add: alerts_ok_def db')
qed

lemma recover_alert_active:
  assumes "x \<in> set (recover_alert i d t as)" "a_status x = AlertActive"
  shows "x \<in> set as \<and> a_id x \<noteq> i"
proof -
  from assms(1) obtain a where a: "a \<in> set as" "x = (if a_id a = i \<and> a_status a = AlertActive
      then a\<lparr>a_status := AlertRecovered, a_details := d, a_recovered := Some t\<rparr> else a)"
    unfolding recover_alert_def set_map by blast
  have no: "\<not> (a_id a = i \<and> a_status a = AlertActive)"
    using assms(2) unfolding a(2) by (rule contrapos_pn) simp
  then have "x = a" using a(2) by (simp only: if_False)
  with a(1) no assms(2) show ?thesis by blast
qed

lemma recover_ok:
  assumes ok: "alerts_ok uuid db" and s: "s \<in> set (states db)" and some: "activeAlert s = Some i"
    and place: "same_place s' s" and active: "activeAlert s' = None"
    and db': "states db' = states db" "issued db' = issued db" "alerts db' = recover_alert i d t (alerts db)"
  shows "alerts_ok uuid (put_state s' db')"
proof -
  have ids: "ids_ok uuid db" using ok by (simp add: alerts_ok_def)
  have "map a_id (recover_alert i d t (alerts db)) = map a_id (alerts db)"
    by (simp add: recover_alert_def)
  then have "map a_id (alerts db') = map a_id (alerts db)" by (simp add: db')
  moreover from arg_cong [OF this, of set] have "a_id ` set (alerts db') = a_id ` set (alerts db)" by simp
  ultimately have "ids_ok uuid db'" using ids by (simp only: ids_ok_def db'(1,2))
  note put = put_state_ids [OF this, unfolded db', OF s place]
  have only: "r = s" if r: "r \<in> set (states db)" "activeAlert r = Some i" for r
  proof -
    have "current db r" "current db s" using ok s r by (simp_all add: alerts_ok_def)
    then obtain x y where "x \<in> set (alerts db)" "a_id x = i" "a_state x = s_id s"
      "y \<in> set (alerts db)" "a_id y = i" "a_state y = s_id r"
      using some r unfolding current_def by blast
    moreover from this have "x = y" using ids by (auto simp: ids_ok_def distinct_map dest: inj_onD)
    ultimately show ?thesis using ids distinct_id_eq [of "states db" r s] s r by (simp add: ids_ok_def)
  qed
  have keep: "x \<in> set (alerts db) \<Longrightarrow> a_id x \<noteq> i \<Longrightarrow> x \<in> set (alerts db')" for x
    by (force simp: db' recover_alert_def)
  have "current (put_state s' db') r" if "r = s' \<or> r \<in> set (states db) \<and> r \<noteq> s" for r
  proof (cases "r = s'")
    case False
    then have "current db r" "activeAlert r \<noteq> Some i" using that ok only by (auto simp: alerts_ok_def)
    then show ?thesis using keep by (fastforce simp: current_def)
  qed (simp add: current_def active)
  moreover have "owned (put_state s' db') x" if "x \<in> set (alerts db')" for x
  proof (cases "a_status x = AlertActive")
    case True
    then have x: "x \<in> set (alerts db)" "a_id x \<noteq> i"
      using recover_alert_active [OF that [unfolded db']] True by simp_all
    then obtain r where "r \<in> set (states db)" "s_id r = a_state x" "s_environment r = a_environment x"
      "activeAlert r = Some (a_id x)" using ok True by (fastforce simp: alerts_ok_def owned_def)
    then show ?thesis using x(2) some by (auto simp: owned_def put(2))
  qed (simp add: owned_def)
  ultimately show ?thesis using put by (simp add: alerts_ok_def)
qed

lemma same_place_simps [simp]:
  "same_place (s\<lparr>breachCount := b\<rparr>) r = same_place s r" "same_place (s\<lparr>recoveryCount := c\<rparr>) r = same_place s r"
  "same_place (s\<lparr>activeAlert := a\<rparr>) r = same_place s r" "same_place (s\<lparr>s_last := t\<rparr>) r = same_place s r"
  "same_place (s\<lparr>s_seen := t\<rparr>) r = same_place s r" "same_place (with_metadata ob s) r = same_place s r"
  "same_place s s"
  by (simp_all add: same_place_def state_key_def)

lemma on_breach_ok:
  assumes "alerts_ok uuid db" "free_from uuid (issued db)" "s \<in> set (states db)" "s_environment s = env_id env"
  shows "alerts_ok uuid (on_breach uuid env t ob s db)"
  unfolding on_breach_def Let_def
  using assms by (auto intro: put_state_ok raise_ok [where s = s and db = db])

lemma on_recovery_ok:
  assumes "alerts_ok uuid db" "s \<in> set (states db)"
  shows "alerts_ok uuid (on_recovery env t ob s db)"
  unfolding on_recovery_def Let_def
  using assms by (auto intro: put_state_ok recover_ok [where s = s and db = db] split: option.splits)

lemma observe_ok:
  assumes ok: "alerts_ok uuid db" and inj: "inj uuid"
  shows "alerts_ok uuid (observe hash uuid env hidden t ob db)"
proof (cases "state_of (env_rows (env_id env) db) (key_of hash ob)")
  case None
  then show ?thesis using insert_ok [OF ok _ None] inj ok by (simp add: observe_def)
next
  case (Some s)
  then have "s \<in> set (states db)" "s_environment s = env_id env" by (auto dest: state_of_some)
  then show ?thesis
    using ok inj Some by (auto simp: observe_def intro: put_state_ok on_breach_ok on_recovery_ok split: option.splits bool.splits)
qed

lemma applyObservations_ok:
  assumes "alerts_ok uuid db" "inj uuid"
  shows "alerts_ok uuid (applyObservations hash parse uuid env obs t hosts db)"
  unfolding applyObservations_def Let_def
  by (rule fold_invariant [where Q = "\<lambda>_. True"]) (simp_all add: assms observe_ok load_rows_ok restart_counts_ok)

lemma reset_simps [simp]:
  "states (resetMonitorAlertEnvironment e now db) = filter (\<lambda>s. s_environment s \<noteq> e) (states db)"
  "issued (resetMonitorAlertEnvironment e now db) = issued db"
  "map a_id (alerts (resetMonitorAlertEnvironment e now db)) = map a_id (alerts db)"
  by (simp_all add: resetMonitorAlertEnvironment_def)

lemma reset_alerts:
  "x \<in> set (alerts (resetMonitorAlertEnvironment e now db)) \<Longrightarrow> a_status x = AlertActive \<Longrightarrow>
    x \<in> set (alerts db) \<and> a_environment x \<noteq> e"
  "x \<in> set (alerts db) \<Longrightarrow> a_environment x \<noteq> e \<Longrightarrow> x \<in> set (alerts (resetMonitorAlertEnvironment e now db))"
  by (force simp: resetMonitorAlertEnvironment_def)+

lemma reset_ok:
  assumes "alerts_ok uuid db"
  shows "alerts_ok uuid (resetMonitorAlertEnvironment e now db)"
proof -
  let ?db = "resetMonitorAlertEnvironment e now db"
  from arg_cong [OF reset_simps(3), of set] have img: "a_id ` set (alerts ?db) = a_id ` set (alerts db)"
    by (simp only: set_map)
  have "ids_ok uuid db" using assms by (simp add: alerts_ok_def)
  then have "ids_ok uuid ?db"
    by (auto simp: ids_ok_def img distinct_map_filter)
  moreover have "current ?db s" if "s \<in> set (states ?db)" for s
  proof -
    have "current db s" "s_environment s \<noteq> e" using that assms by (simp_all add: alerts_ok_def)
    then show ?thesis using reset_alerts(2) [of _ db e now] by (fastforce simp: current_def)
  qed
  moreover have "owned ?db x" if "x \<in> set (alerts ?db)" for x
  proof (cases "a_status x = AlertActive")
    case True
    then have x: "x \<in> set (alerts db)" "a_environment x \<noteq> e" using reset_alerts(1) [OF that] by simp_all
    then have "owned db x" using assms by (simp add: alerts_ok_def)
    then show ?thesis using x(2) by (auto simp: owned_def)
  qed (simp add: owned_def)
  ultimately show ?thesis by (simp add: alerts_ok_def)
qed

end
