(* ===== verification/AlertRules.thy ===== *)
theory AlertRules
  imports AlertStates
begin

text \<open>
  What the alerts of monitored environments promise: over any run of the entry points every active
  alert is the current alert of exactly one rule state, and a rule's alert is the one the last two
  equal samples in a row call for, which is shown by a refinement to a counter machine.
\<close>

section \<open>Runs\<close>

inductive alert_step :: "(string \<Rightarrow> string) \<Rightarrow> (string \<Rightarrow> jsval option) \<Rightarrow> (nat \<Rightarrow> string) \<Rightarrow> alert_db \<Rightarrow> alert_db \<Rightarrow> bool"
  for hash parse uuid where
  checked: "alert_step hash parse uuid db (evaluateMonitorHostAvailability hash parse uuid row envs av db)"
| sampled: "alert_step hash parse uuid db (evaluateMonitorAlertSamples hash parse uuid envs deps agent samples db)"
| recent: "alert_step hash parse uuid db (evaluateRecentMonitorAlerts decode hash parse uuid envs deps agent rows db)"
| primed: "alert_step hash parse uuid db (primeMonitorAlertEnvironment dec hash parse uuid envsf depsf prows db)"
| emptied: "alert_step hash parse uuid db (resetMonitorAlertEnvironment e now db)"

inductive_cases alert_stepE: "alert_step hash parse uuid db db'"

definition no_alerts :: alert_db where
  "no_alerts = \<lparr>states = [], alerts = [], issued = 0\<rparr>"

lemma no_alerts_ok: "alerts_ok uuid no_alerts"
  by (simp add: alerts_ok_def ids_ok_def no_alerts_def)

lemma fold_ok:
  "(\<And>x db. ok db \<Longrightarrow> ok (f x db)) \<Longrightarrow> ok db \<Longrightarrow> ok (fold f xs db)"
  by (induction xs arbitrary: db) simp_all

lemma check_host_ok:
  "inj uuid \<Longrightarrow> alerts_ok uuid db \<Longrightarrow> alerts_ok uuid (check_host hash parse uuid row av env db)"
  by (simp add: check_host_def applyObservations_ok)

lemma availability_ok:
  "inj uuid \<Longrightarrow> alerts_ok uuid db \<Longrightarrow>
    alerts_ok uuid (evaluateMonitorHostAvailability hash parse uuid row envs av db)"
  by (simp add: evaluateMonitorHostAvailability_def fold_ok [where ok = "alerts_ok uuid"] check_host_ok split: option.split)

lemma samples_ok:
  "inj uuid \<Longrightarrow> alerts_ok uuid db \<Longrightarrow>
    alerts_ok uuid (evaluateMonitorAlertSamples hash parse uuid envs deps agent samples db)"
  by (simp add: evaluateMonitorAlertSamples_def evaluate_environment_def fold_ok [where ok = "alerts_ok uuid"]
      applyObservations_ok)

lemma primed_ok:
  "inj uuid \<Longrightarrow> alerts_ok uuid db \<Longrightarrow>
    alerts_ok uuid (primeMonitorAlertEnvironment decode hash parse uuid envs deps rows db)"
  unfolding primeMonitorAlertEnvironment_def
  by (rule fold_ok [where ok = "alerts_ok uuid"]) (auto intro: samples_ok split: option.split)

lemma alert_step_ok:
  "alert_step hash parse uuid db db' \<Longrightarrow> inj uuid \<Longrightarrow> alerts_ok uuid db \<Longrightarrow> alerts_ok uuid db'"
  by (erule alert_stepE) (simp_all add: availability_ok samples_ok evaluateRecentMonitorAlerts_def primed_ok reset_ok)

lemma alert_run_ok:
  assumes "(alert_step hash parse uuid)\<^sup>*\<^sup>* no_alerts db" "inj uuid"
  shows "alerts_ok uuid db"
  using assms by (induction rule: rtranclp_induct) (auto intro: no_alerts_ok alert_step_ok)


section \<open>One rule as a counter\<close>

text \<open>The abstract machine of one rule: breaches and recoveries in a row, and whether it is alerted.\<close>

record rule_counter =
  rc_breaches :: nat
  rc_recoveries :: nat
  rc_alerted :: bool

definition counter_next :: "nat \<Rightarrow> bool \<Rightarrow> rule_counter option \<Rightarrow> rule_counter option" where
  "counter_next n b c = Some (case c of
     None \<Rightarrow> \<lparr>rc_breaches = (if b then 1 else 0), rc_recoveries = 0, rc_alerted = False\<rparr>
   | Some v \<Rightarrow>
       if b then (if rc_alerted v then v\<lparr>rc_recoveries := 0\<rparr>
         else v\<lparr>rc_recoveries := 0, rc_breaches := rc_breaches v + 1, rc_alerted := rc_breaches v + 1 \<ge> n\<rparr>)
       else if rc_alerted v \<and> rc_recoveries v + 1 < n then v\<lparr>rc_breaches := 0, rc_recoveries := rc_recoveries v + 1\<rparr>
       else \<lparr>rc_breaches = 0, rc_recoveries = 0, rc_alerted = False\<rparr>)"

definition counter_of :: "alert_state \<Rightarrow> rule_counter" where
  "counter_of s = \<lparr>rc_breaches = breachCount s, rc_recoveries = recoveryCount s, rc_alerted = (activeAlert s \<noteq> None)\<rparr>"

definition rule_counter_of :: "alert_db \<Rightarrow> string \<Rightarrow> string \<Rightarrow> rule_counter option" where
  "rule_counter_of db e k = map_option counter_of (state_of (env_rows e db) k)"

text \<open>What the samples of a rule call for, newest first: the value of the last two that agree in a row.\<close>

fun settled :: "bool list \<Rightarrow> bool" where
  "settled (x # y # rest) = (if x = y then x else settled (y # rest))"
| "settled _ = False"

definition counter_for :: "bool list \<Rightarrow> rule_counter option \<Rightarrow> bool" where
  "counter_for bs c \<longleftrightarrow> (case bs of [] \<Rightarrow> c = None
     | b # _ \<Rightarrow> (\<exists>v. c = Some v \<and> rc_alerted v = settled bs \<and>
         (if settled bs then rc_recoveries v = (if b then 0 else 1)
          else rc_breaches v = (if b then 1 else 0) \<and> rc_recoveries v = 0)))"

lemma counter_for_next:
  assumes "counter_for bs c"
  shows "counter_for (b # bs) (counter_next 2 b c)"
  using assms by (cases bs; cases b; cases "hd bs") (auto simp: counter_for_def counter_next_def split: if_splits)

lemma state_of_append:
  "state_of (rows @ [s]) k = (case state_of rows k of None \<Rightarrow> if state_key s = k then Some s else None | Some r \<Rightarrow> Some r)"
  by (induction rows) (simp_all add: state_of_def)

text \<open>Replacing a row of an environment replaces it for its key and leaves the other environments.\<close>

lemma env_rows_put:
  assumes "distinct (map s_id (states db))" "s \<in> set (states db)" "same_place s' s"
  shows "env_rows e (put_state s' db) = (if s_environment s = e then map (\<lambda>r. if r = s then s' else r) (env_rows e db)
    else env_rows e db)"
proof -
  have only: "(s_id r = s_id s') = (r = s)" if "r \<in> set (states db)" for r
    using assms distinct_id_eq [of "states db" r s] that by (auto simp: same_place_def)
  then have swap: "states (put_state s' db) = map (\<lambda>r. if r = s then s' else r) (states db)"
    by (simp add: put_state_states)
  have env: "s_environment s' = s_environment s" using assms(3) by (simp add: same_place_def)
  have "filter (\<lambda>r. s_environment r = e) (map (\<lambda>r. if r = s then s' else r) xs) =
      map (\<lambda>r. if r = s then s' else r) (filter (\<lambda>r. s_environment r = e) xs)" for xs
    by (induction xs) (auto simp: env)
  moreover have "map (\<lambda>r. if r = s then s' else r) (env_rows e db) = env_rows e db" if "s_environment s \<noteq> e"
    using that by (intro map_idI) auto
  ultimately show ?thesis by (auto simp: env_rows_def swap)
qed

lemma state_of_swap:
  assumes "state_of rows k = Some s" "state_key s' = k"
  shows "state_of (map (\<lambda>r. if r = s then s' else r) rows) k = Some s'"
  using assms by (induction rows) (auto simp: state_of_def split: if_splits)

lemma state_of_put:
  assumes "distinct (map s_id (states db))" "state_of (env_rows e db) k = Some s" "same_place s' s"
  shows "state_of (env_rows e (put_state s' db)) k = Some s'"
proof -
  have s: "s \<in> set (states db)" "s_environment s = e" "state_key s = k" using state_of_some [OF assms(2)] by simp_all
  then show ?thesis
    using state_of_swap [OF assms(2)] assms(3) by (simp add: env_rows_put [OF assms(1) s(1) assms(3)] same_place_def)
qed

text \<open>What one observation does to its own rule, and to the other environments.\<close>

definition stamped :: "int \<Rightarrow> alert_db \<Rightarrow> string \<Rightarrow> string \<Rightarrow> bool" where
  "stamped t db e k \<longleftrightarrow> (\<forall>s. state_of (env_rows e db) k = Some s \<longrightarrow> s_seen s < t)"

lemma counter_simps [simp]:
  "counter_of ((with_metadata ob s)\<lparr>recoveryCount := c, s_last := t, s_seen := t'\<rparr>) = (counter_of s)\<lparr>rc_recoveries := c\<rparr>"
  by (simp add: counter_of_def)

lemma observe_counter:
  assumes ids: "distinct (map s_id (states db))" and kind: "o_ruleType ob \<noteq> RDiskMissing"
    and fresh: "stamped t db (env_id env) (key_of hash ob)" and b: "breached ob = Some b"
  shows "rule_counter_of (observe hash uuid env hidden t ob db) (env_id env) (key_of hash ob) =
    counter_next (consecutiveSamples (env_settings env)) b (rule_counter_of db (env_id env) (key_of hash ob))"
proof (cases "state_of (env_rows (env_id env) db) (key_of hash ob)")
  case None
  then show ?thesis
    using kind b by (simp add: observe_def rule_counter_of_def env_rows_def state_of_append counter_next_def
        counter_of_def first_state_def state_key_def key_of_def)
next
  case (Some s)
  then have "\<not> t \<le> s_seen s" using fresh by (simp add: stamped_def)
  then have step: "observe hash uuid env hidden t ob db =
      (if b then on_breach uuid env t ob s db else on_recovery env t ob s db)"
    using kind b Some by (simp add: observe_def)
  have put: "state_of (env_rows (env_id env) (put_state s' db')) (key_of hash ob) = Some s'"
    if "same_place s' s" "states db' = states db" for s' db'
    using state_of_put [of db' "env_id env" "key_of hash ob" s s'] ids Some that by (simp add: env_rows_def)
  show ?thesis
    using Some by (cases "activeAlert s")
      (auto simp: step on_breach_def on_recovery_def rule_counter_of_def put counter_next_def counter_of_def Let_def)
qed

lemma observe_elsewhere:
  assumes ids: "distinct (map s_id (states db))" and e: "e \<noteq> env_id env"
  shows "env_rows e (observe hash uuid env hidden t ob db) = env_rows e db"
proof -
  have put: "env_rows e (put_state s' db') = env_rows e db"
    if "s \<in> set (states db)" "s_environment s = env_id env" "same_place s' s" "states db' = states db" for s s' db'
    using env_rows_put [of db' s s' e] ids e that by (simp add: env_rows_def)
  show ?thesis
  proof (cases "state_of (env_rows (env_id env) db) (key_of hash ob)")
    case None
    then show ?thesis using e by (simp add: observe_def env_rows_def first_state_def)
  next
    case (Some s)
    note mem = state_of_some [OF Some]
    have "env_rows e (on_breach uuid env t ob s db) = env_rows e db"
      using mem by (auto simp: on_breach_def Let_def intro!: put [of s])
    moreover have "env_rows e (on_recovery env t ob s db) = env_rows e db"
      using mem by (auto simp: on_recovery_def Let_def intro!: put [of s] split: option.split)
    moreover have "env_rows e (put_state ((with_metadata ob s)\<lparr>s_last := t\<rparr>) db) = env_rows e db"
      using mem by (auto intro!: put [of s])
    ultimately show ?thesis using Some by (auto simp: observe_def split: option.split bool.split)
  qed
qed

lemma observe_stamps:
  assumes ids: "distinct (map s_id (states db))" and kind: "o_ruleType ob \<noteq> RDiskMissing"
    and fresh: "stamped t db (env_id env) (key_of hash ob)" and b: "breached ob = Some b"
    and after: "state_of (env_rows (env_id env) (observe hash uuid env hidden t ob db)) (key_of hash ob) = Some r"
  shows "s_last r = t"
proof (cases "state_of (env_rows (env_id env) db) (key_of hash ob)")
  case None
  then show ?thesis
    using kind after by (auto simp: observe_def env_rows_def state_of_append first_state_def split: if_splits)
next
  case (Some s)
  then have "\<not> t \<le> s_seen s" using fresh by (simp add: stamped_def)
  then have step: "observe hash uuid env hidden t ob db =
      (if b then on_breach uuid env t ob s db else on_recovery env t ob s db)"
    using kind b Some by (simp add: observe_def)
  have put: "state_of (env_rows (env_id env) (put_state s' db')) (key_of hash ob) = Some s'"
    if "same_place s' s" "states db' = states db" for s' db'
    using state_of_put [of db' "env_id env" "key_of hash ob" s s'] ids Some that by (simp add: env_rows_def)
  show ?thesis
    using after by (cases "activeAlert s") (auto simp: step on_breach_def on_recovery_def put Let_def split: if_splits)
qed

section \<open>Checks of a host\<close>

lemma disk_free_apply:
  assumes "o_ruleType ob \<noteq> RDiskMissing"
  shows "applyObservations hash parse uuid env [ob] t [] db =
    observe hash uuid env [] t ob (load_rows (env_id env) db)"
  using assms by (simp add: applyObservations_def all_observations_def disk_present_def added_disks_def
      suppressed_disks_def gone_after_added_def gone_disk_def restart_counts_def restarts_def Let_def)

lemma check_host_observes:
  "hostOfflineEnabled (env_settings env) \<Longrightarrow> check_host hash parse uuid row av env db =
    observe hash uuid env [] (av_checkedAt av) (offline_observation parse row av env) (load_rows (env_id env) db)"
  by (simp add: check_host_def disk_free_apply offline_observation_def)

lemma env_rows_load:
  "env_rows e (load_rows e' db) = (if e = e' then map (\<lambda>s. s\<lparr>s_seen := s_last s\<rparr>) (env_rows e db) else env_rows e db)"
proof -
  define f where "f = (\<lambda>s :: alert_state. if s_environment s = e' then s\<lparr>s_seen := s_last s\<rparr> else s)"
  have env: "s_environment (f s) = s_environment s" for s by (simp add: f_def)
  have "filter (\<lambda>s. s_environment s = e) (map f xs) = map f (filter (\<lambda>s. s_environment s = e) xs)" for xs
    by (induction xs) (simp_all add: env)
  then have "env_rows e (load_rows e' db) = map f (env_rows e db)"
    by (simp add: env_rows_def load_rows_def f_def)
  also have "\<dots> = (if e = e' then map (\<lambda>s. s\<lparr>s_seen := s_last s\<rparr>) (env_rows e db) else env_rows e db)"
    by (auto simp: f_def intro: map_idI)
  finally show ?thesis .
qed

lemma state_of_load:
  "state_of (map (\<lambda>s. s\<lparr>s_seen := s_last s\<rparr>) rows) k = map_option (\<lambda>s. s\<lparr>s_seen := s_last s\<rparr>) (state_of rows k)"
  by (induction rows) (simp_all add: state_of_def state_key_def)

lemma counter_of_seen [simp]: "counter_of (s\<lparr>s_seen := t\<rparr>) = counter_of s"
  by (simp add: counter_of_def)

lemma alerts_ok_distinct: "alerts_ok uuid db \<Longrightarrow> distinct (map s_id (states db))"
  by (simp add: alerts_ok_def ids_ok_def)

definition offline_key :: "(string \<Rightarrow> string) \<Rightarrow> host_row \<Rightarrow> string" where
  "offline_key hash row = stateKey THost (hr_agent row) RHostOffline (hash [])"

lemma offline_observation_simps [simp]:
  "key_of hash (offline_observation parse row av env) = offline_key hash row"
  "o_ruleType (offline_observation parse row av env) = RHostOffline"
  "breached (offline_observation parse row av env) = Some (\<not> av_available av)"
  by (simp_all add: offline_observation_def key_of_def offline_key_def)

text \<open>The counter of the offline rule and the time of its last check, read from an environment's rows.\<close>

definition offline_view :: "(string \<Rightarrow> string) \<Rightarrow> host_row \<Rightarrow> alert_state list \<Rightarrow> rule_counter option" where
  "offline_view hash row rows = map_option counter_of (state_of rows (offline_key hash row))"

definition checked_before :: "(string \<Rightarrow> string) \<Rightarrow> host_row \<Rightarrow> int \<Rightarrow> alert_state list \<Rightarrow> bool" where
  "checked_before hash row t rows \<longleftrightarrow> (\<forall>s. state_of rows (offline_key hash row) = Some s \<longrightarrow> s_last s < t)"

lemma check_host_view:
  assumes ok: "alerts_ok uuid db" and on: "hostOfflineEnabled (env_settings env)"
    and before: "checked_before hash row (av_checkedAt av) (env_rows (env_id env) db)"
  shows "offline_view hash row (env_rows (env_id env) (check_host hash parse uuid row av env db)) =
      counter_next (consecutiveSamples (env_settings env)) (\<not> av_available av)
        (offline_view hash row (env_rows (env_id env) db))"
    and "av_checkedAt av < t \<Longrightarrow>
      checked_before hash row t (env_rows (env_id env) (check_host hash parse uuid row av env db))"
proof -
  let ?ob = "offline_observation parse row av env" and ?db = "load_rows (env_id env) db"
  have ids: "distinct (map s_id (states ?db))" by (rule alerts_ok_distinct [OF load_rows_ok [OF ok]])
  have fresh: "stamped (av_checkedAt av) ?db (env_id env) (key_of hash ?ob)"
    using before by (auto simp: stamped_def env_rows_load state_of_load checked_before_def)
  have "rule_counter_of ?db (env_id env) (offline_key hash row) = offline_view hash row (env_rows (env_id env) db)"
    by (simp add: rule_counter_of_def offline_view_def env_rows_load state_of_load option.map_comp comp_def)
  then show "offline_view hash row (env_rows (env_id env) (check_host hash parse uuid row av env db)) =
      counter_next (consecutiveSamples (env_settings env)) (\<not> av_available av)
        (offline_view hash row (env_rows (env_id env) db))"
    using observe_counter [OF ids _ fresh, of "\<not> av_available av" uuid "[]"]
    by (simp add: check_host_observes [OF on] rule_counter_of_def offline_view_def)
  show "checked_before hash row t (env_rows (env_id env) (check_host hash parse uuid row av env db))"
    if "av_checkedAt av < t"
    using observe_stamps [OF ids _ fresh, of "\<not> av_available av" uuid "[]"] that
    by (simp add: check_host_observes [OF on] checked_before_def)
qed

lemma check_host_elsewhere:
  assumes "alerts_ok uuid db" "e \<noteq> env_id env"
  shows "env_rows e (check_host hash parse uuid row av env db) = env_rows e db"
proof (cases "hostOfflineEnabled (env_settings env)")
  case True
  then show ?thesis
    using observe_elsewhere [OF alerts_ok_distinct [OF load_rows_ok [OF assms(1)]] assms(2)] assms(2)
    by (simp add: check_host_observes env_rows_load)
qed (simp add: check_host_def)

text \<open>A fold in which one element alone touches what is looked at.\<close>

lemma fold_one_view:
  assumes keep: "\<And>x db. ok db \<Longrightarrow> ok (f x db)"
    and other: "\<And>x db. ok db \<Longrightarrow> x \<in> set xs \<Longrightarrow> x \<noteq> a \<Longrightarrow> view (f x db) = view db"
    and "distinct xs" "a \<in> set xs" "ok db"
  shows "\<exists>db'. ok db' \<and> view db' = view db \<and> view (fold f xs db) = view (f a db')"
  using other assms(3-)
proof (induction xs arbitrary: db)
  case (Cons x xs)
  have rest: "view (fold f ys d) = view d" if "ok d" "set ys \<subseteq> set xs" "a \<notin> set ys" for ys d
    using that
  proof (induction ys arbitrary: d)
    case (Cons y ys)
    then have "view (fold f ys (f y d)) = view (f y d)" "view (f y d) = view d"
      using keep Cons.prems \<open>\<And>x db. ok db \<Longrightarrow> x \<in> set (_ # xs) \<Longrightarrow> x \<noteq> a \<Longrightarrow> view (f x db) = view db\<close> by auto
    then show ?case by simp
  qed simp
  show ?case
  proof (cases "x = a")
    case True
    then have "view (fold f xs (f a db)) = view (f a db)" using Cons.prems keep by (intro rest) auto
    then show ?thesis using True Cons.prems by auto
  next
    case False
    have "\<exists>db'. ok db' \<and> view db' = view (f x db) \<and> view (fold f xs (f x db)) = view (f a db')"
      using Cons.prems False keep by (intro Cons.IH) auto
    then show ?thesis using Cons.prems False by simp
  qed
qed simp

lemma add_environment_distinct:
  "distinct (map env_id envs) \<Longrightarrow> distinct (map env_id (add_environment parse r envs))"
  by (auto simp: add_environment_def environment_of_def)

lemma monitored_distinct: "distinct (map env_id (monitoredEnvironments parse rows))"
  unfolding monitoredEnvironments_def
  by (rule distinct_map_filter, rule fold_ok [where ok = "\<lambda>envs. distinct (map env_id envs)"])
    (simp_all add: add_environment_distinct)

lemma monitored_samples:
  assumes "env \<in> set (monitoredEnvironments parse rows)"
  shows "consecutiveSamples (env_settings env) = 2"
proof -
  have two: "consecutiveSamples (monitorAlertSettingsFromRow parse r) = 2" for r
    by (simp add: monitorAlertSettingsFromRow_def defaultMonitorAlertSettings_def split: option.split)
  have "\<forall>e\<in>set (fold (add_environment parse) rows []). consecutiveSamples (env_settings e) = 2"
    by (rule fold_ok [where ok = "\<lambda>envs. \<forall>e\<in>set envs. consecutiveSamples (env_settings e) = 2"])
      (auto simp: add_environment_def environment_of_def two)
  then show ?thesis using assms by (simp add: monitoredEnvironments_def)
qed

lemma availability_view:
  assumes inj: "inj uuid" and ok: "alerts_ok uuid db" and env: "env \<in> set (monitoredEnvironments parse envs)"
    and on: "hostOfflineEnabled (env_settings env)" and row: "hr_agent row \<noteq> []"
    and before: "checked_before hash row (av_checkedAt av) (env_rows (env_id env) db)"
  shows "offline_view hash row (env_rows (env_id env)
        (evaluateMonitorHostAvailability hash parse uuid (Some row) envs av db)) =
      counter_next 2 (\<not> av_available av) (offline_view hash row (env_rows (env_id env) db))"
    and "av_checkedAt av < t \<Longrightarrow> checked_before hash row t (env_rows (env_id env)
        (evaluateMonitorHostAvailability hash parse uuid (Some row) envs av db))"
proof -
  let ?f = "check_host hash parse uuid row av" and ?es = "monitoredEnvironments parse envs"
  have dist: "distinct ?es" using monitored_distinct [of parse envs] by (simp add: distinct_map)
  have other: "env_rows (env_id env) (?f e d) = env_rows (env_id env) d"
    if "alerts_ok uuid d" "e \<in> set ?es" "e \<noteq> env" for e d
    using that env monitored_distinct [of parse envs]
    by (intro check_host_elsewhere) (auto simp: distinct_map dest: inj_onD)
  obtain d where d: "alerts_ok uuid d" "env_rows (env_id env) d = env_rows (env_id env) db"
    and last: "env_rows (env_id env) (fold ?f ?es db) = env_rows (env_id env) (?f env d)"
    using fold_one_view [of "alerts_ok uuid" ?f ?es env "env_rows (env_id env)" db]
      check_host_ok [OF inj] other dist env ok by metis
  have run: "evaluateMonitorHostAvailability hash parse uuid (Some row) envs av db = fold ?f ?es db"
    using row by (simp add: evaluateMonitorHostAvailability_def)
  have b: "checked_before hash row (av_checkedAt av) (env_rows (env_id env) d)" using before d(2) by simp
  show "offline_view hash row (env_rows (env_id env)
        (evaluateMonitorHostAvailability hash parse uuid (Some row) envs av db)) =
      counter_next 2 (\<not> av_available av) (offline_view hash row (env_rows (env_id env) db))"
    using check_host_view(1) [OF d(1) on b] by (simp add: run last d(2) monitored_samples [OF env])
  show "checked_before hash row t (env_rows (env_id env)
      (evaluateMonitorHostAvailability hash parse uuid (Some row) envs av db))" if "av_checkedAt av < t"
    using check_host_view(2) [OF d(1) on b that] by (simp add: run last)
qed

definition check_hosts :: "(string \<Rightarrow> string) \<Rightarrow> (string \<Rightarrow> jsval option) \<Rightarrow> (nat \<Rightarrow> string) \<Rightarrow> host_row \<Rightarrow>
    environment_row list \<Rightarrow> availability list \<Rightarrow> alert_db \<Rightarrow> alert_db" where
  "check_hosts hash parse uuid row envs checks db =
     fold (evaluateMonitorHostAvailability hash parse uuid (Some row) envs) checks db"

definition offline_alerted :: "(string \<Rightarrow> string) \<Rightarrow> host_row \<Rightarrow> string \<Rightarrow> alert_db \<Rightarrow> bool" where
  "offline_alerted hash row e db \<longleftrightarrow>
     (\<exists>s. state_of (env_rows e db) (offline_key hash row) = Some s \<and> activeAlert s \<noteq> None)"

lemma offline_alerted_view:
  "offline_alerted hash row e db \<longleftrightarrow> (\<exists>v. offline_view hash row (env_rows e db) = Some v \<and> rc_alerted v)"
  by (auto simp: offline_alerted_def offline_view_def counter_of_def)

lemma checks_counter:
  assumes "inj uuid" "alerts_ok uuid db" "env \<in> set (monitoredEnvironments parse envs)"
    "hostOfflineEnabled (env_settings env)" "hr_agent row \<noteq> []" "sorted_wrt (<) (map av_checkedAt checks)"
    "\<forall>av\<in>set (take 1 checks). checked_before hash row (av_checkedAt av) (env_rows (env_id env) db)"
    "counter_for bs (offline_view hash row (env_rows (env_id env) db))"
  shows "counter_for (rev (map (\<lambda>av. \<not> av_available av) checks) @ bs)
    (offline_view hash row (env_rows (env_id env) (check_hosts hash parse uuid row envs checks db)))"
  using assms(2,6-)
proof (induction checks arbitrary: db bs)
  case (Cons av checks)
  let ?db = "evaluateMonitorHostAvailability hash parse uuid (Some row) envs av db"
  note view = availability_view [OF assms(1) Cons.prems(1) assms(3,4,5), where av = av]
  have "counter_for ((\<not> av_available av) # bs) (offline_view hash row (env_rows (env_id env) ?db))"
    using view(1) counter_for_next [OF Cons.prems(4)] Cons.prems(3) by simp
  moreover have "\<forall>a\<in>set (take 1 checks). checked_before hash row (av_checkedAt a) (env_rows (env_id env) ?db)"
    using view(2) Cons.prems(2,3) by (cases checks) auto
  ultimately show ?case
    using Cons.IH [OF availability_ok [OF assms(1) Cons.prems(1)]] Cons.prems(2) by (simp add: check_hosts_def)
qed (simp add: check_hosts_def)

text \<open>C39:
  Checks of a monitored host at increasing times, from tables that any run has left and in which the
  environment has no state for the host's offline rule: after them the environment holds an alert for the
  host exactly when two failed checks in a row came later than two successful ones in a row. One lost
  answer never raises it, one answer never ends it, whatever other environments watch the host.\<close>

theorem offline_alert_follows_checks:
  assumes "inj uuid" "(alert_step hash parse uuid)\<^sup>*\<^sup>* no_alerts db"
    and "env \<in> set (monitoredEnvironments parse envs)" "hostOfflineEnabled (env_settings env)" "hr_agent row \<noteq> []"
    and "sorted_wrt (<) (map av_checkedAt checks)" "state_of (env_rows (env_id env) db) (offline_key hash row) = None"
  shows "offline_alerted hash row (env_id env) (check_hosts hash parse uuid row envs checks db) \<longleftrightarrow>
    settled (rev (map (\<lambda>av. \<not> av_available av) checks))"
proof -
  have "counter_for (rev (map (\<lambda>av. \<not> av_available av) checks) @ [])
      (offline_view hash row (env_rows (env_id env) (check_hosts hash parse uuid row envs checks db)))"
    by (rule checks_counter [OF assms(1) alert_run_ok [OF assms(2,1)] assms(3-6)])
      (simp_all add: checked_before_def counter_for_def offline_view_def assms(7))
  then show ?thesis
    by (cases "rev (map (\<lambda>av. \<not> av_available av) checks)") (auto simp: counter_for_def offline_alerted_view)
qed

section \<open>Witnesses\<close>

definition marks :: "nat \<Rightarrow> string" where
  "marks n = replicate n CHR 0x61"

lemma inj_marks [simp]: "inj marks"
  by (rule inj_on_inverseI [where g = length]) (simp add: marks_def)

definition watched_row :: environment_row where
  "watched_row = \<lparr>er_id = ''e'', er_name = ''prod'', er_ssh = ''s'', er_connectionName = ''web'',
     er_settings = Some \<lparr>row_enabled = 1, row_hostOffline = 1, row_cpu = 1, row_cpuThreshold = 90, row_memory = 1,
       row_memoryThreshold = 90, row_diskUsage = 1, row_diskUsageThreshold = 90, row_temperature = 1,
       row_temperatureThreshold = 80, row_deploymentStatus = 1, row_diskMissing = 1, row_excludedDisks = ''[]''\<rparr>\<rparr>"

definition sample_host_row :: host_row where
  "sample_host_row = \<lparr>hr_agent = ''h'', hr_hostJson = [], hr_lastCollectedAt = None\<rparr>"

definition check_at :: "int \<Rightarrow> bool \<Rightarrow> availability" where
  "check_at t up = \<lparr>av_checkedAt = t, av_available = up, av_status = ''ready'', av_reason = ''healthy'',
     av_error = None, av_hostname = None, av_lastCollectedAt = None, av_resolution = None\<rparr>"

definition no_json :: "string \<Rightarrow> jsval option" where
  "no_json s = None"

definition sample_checks :: "availability list" where
  "sample_checks = [check_at 1 False, check_at 2 False, check_at 3 True]"

lemma watched_row_monitored:
  "environment_of no_json watched_row \<in> set (monitoredEnvironments no_json [watched_row])"
  "hostOfflineEnabled (env_settings (environment_of no_json watched_row))"
  by (simp_all add: monitoredEnvironments_def add_environment_def environment_of_def watched_row_def
      monitorAlertSettingsFromRow_def)

theorem offline_alert_follows_checks_witness:
  "offline_alerted id sample_host_row (env_id (environment_of no_json watched_row))
     (check_hosts id no_json marks sample_host_row [watched_row] sample_checks no_alerts)"
proof -
  have settled: "settled (rev (map (\<lambda>av. \<not> av_available av) sample_checks))"
    by (simp add: sample_checks_def check_at_def)
  show ?thesis
    by (subst offline_alert_follows_checks [OF inj_marks rtranclp.rtrancl_refl watched_row_monitored])
      (use settled in \<open>simp_all add: sample_host_row_def sample_checks_def check_at_def no_alerts_def env_rows_def
        state_of_def\<close>)
qed

definition raised_db :: alert_db where
  "raised_db = check_hosts id no_json marks sample_host_row [watched_row] sample_checks no_alerts"

lemma raised_db_run: "(alert_step id no_json marks)\<^sup>*\<^sup>* no_alerts raised_db"
proof -
  have "(alert_step id no_json marks)\<^sup>*\<^sup>* db (check_hosts id no_json marks row envs checks db)" for row envs checks db
    by (induction checks arbitrary: db)
      (auto simp: check_hosts_def intro: alert_step.checked converse_rtranclp_into_rtranclp)
  then show ?thesis by (simp add: raised_db_def)
qed

lemma raised_db_alert: "map a_status (alerts raised_db) = [AlertActive]"
  unfolding raised_db_def sample_checks_def by code_simp


end
