(* ===== verification/Spec2Isabelle.thy ===== *)
theory Spec2Isabelle
  imports ChatStep GroupAnnouncement ImIds SshRisk McpOperations AccessControl IdlePool SqlStatements QueryManager
    TabOrder DockPanel ConnectionQuality Shortcuts RedisAccess AlertRules
begin

text \<open>
  A verification library of the TypeScript programs of this repository: the chat client
  (\<open>IM-APP-fronend/src\<close>) and Viron, the operations console (\<open>IM-ops/viron/src\<close>).

  \<^bold>\<open>Conventions.\<close> A \<open>Map\<close> or an object used as one is an association list
  (\<open>jsmap\<close> of \<open>Prelude\<close>), because its order is observable; an array is a list; a number is an
  \<open>int\<close> where the code uses it as one and a \<open>rat\<close> where it measures; \<open>NaN\<close> and absent values
  are \<open>None\<close>. A string is a list of bytes in UTF-8 whose scanners only look at ASCII
  (\<open>JsText\<close>). Code outside the repository (SDK and driver calls, \<open>JSON.parse\<close>, SHA-256, random
  identifiers, the clock) is an argument. Promises are split at their \<open>await\<close>s: each part is an
  operation, and a step relation interleaves them.

  \<^bold>\<open>The chat client.\<close>
  \<^item> \<open>ImIds\<close>: identifiers of users, groups and conversations (\<open>utils/openim.ts\<close>).
  \<^item> \<open>GroupAnnouncement\<close>: announcements and preview tags (\<open>utils/group-announcement.ts\<close>).
  \<^item> \<open>GroupRetention\<close>: removal of messages whose retention ended
    (\<open>utils/groupRetention.ts\<close>, \<open>api/groupRetention.ts\<close>): tombstones merge monotonically, survive the
    round trip through storage, and no run of answers, in any order, brings a removed message back.
  \<^item> \<open>ChatConversations\<close>, \<open>ChatPreview\<close>, \<open>ChatHistory\<close>, \<open>ChatIncoming\<close>, \<open>ChatSend\<close>,
    \<open>ChatStep\<close>: the store of \<open>stores/chat.ts\<close>, split as its sections are: rows and local sets, previews and
    order, messages and history, events of the SDK, sending, and the step relation of all of them with
    the invariant of the reachable states.

  \<^bold>\<open>The operations console.\<close>
  \<^item> \<open>SshRisk\<close>: the risk of a shell command (\<open>shared/ssh-command-risk.ts\<close>); the recursion into
    \<open>sh -c\<close> scripts is bounded by the code's own depth.
  \<^item> \<open>McpSettings\<close>, \<open>McpOperations\<close>: which operations of an agent need confirmation, and their
    life cycle (\<open>shared/mcp-settings.ts\<close>, \<open>desktop/mcp-operations\<close>).
  \<^item> \<open>Lifecycle\<close>: the locales of things that start once and end once. \<open>McpOperations\<close> and
    \<open>QueryManager\<close> interpret them on the code's own transitions.
  \<^item> \<open>QueryManager\<close>, \<open>SqlStatements\<close>, \<open>RedisAccess\<close>, \<open>JsNumber\<close>: queries of the database
    workbench, the splitting of scripts, the bounds of Redis reads.
  \<^item> \<open>IdlePool\<close>: the pool of idle connections with its pending closes.
  \<^item> \<open>AccessControl\<close>: access to projects and environments of a workspace.
  \<^item> \<open>MonitorAlerts\<close>, \<open>AlertStates\<close>, \<open>AlertRules\<close>: what a sample says about each alert rule, the
    tables of rule states and alerts, and the runs over them.
  \<^item> \<open>DockPanel\<close>, \<open>TabOrder\<close>, \<open>ConnectionQuality\<close>, \<open>Shortcuts\<close>: panels, tabs, health of
    connections and keyboard shortcuts.

  \<^bold>\<open>Bounds and fuel.\<close> The functions recurse structurally or with a measure. The depth of nested shell
  scripts is an argument of the code itself; the theorem on nesting shows that more depth only
  makes the verdict stricter. Loops over queues (pool, tombstones) end because each step shortens them.

  \<^bold>\<open>Not modelled.\<close> The Vue components and pages (templates and view state), the SDK bridge and
  platform effects, the HTTP clients, the Go servers, the translations, the tool descriptions, SQL text and the
  runtimes that drive SSH, SFTP and database protocols: they call libraries whose behaviour is theirs.
\<close>

end
